(* ===== verification/Prelude.thy ===== *)
theory Prelude
  imports Main "HOL-Library.Word" "HOL-Library.Multiset"
begin

text \<open>
  Shared vocabulary of the MobileSync development: the machine types of the C code
  (\<open>uint8_t\<close>, \<open>uint32_t\<close>, \<open>uint64_t\<close> as words), the outcome of a C call that may
  not return normally, the network byte order helpers \<open>htonl\<close>/\<open>ntohl\<close> seen through
  the four bytes they leave in memory, and the generic lemmas on lists and words the
  component theories share.
\<close>

unbundle bit_operations_syntax

type_synonym byte = "8 word"
type_synonym u32 = "32 word"
type_synonym u64 = "64 word"

named_theorems msync_simps \<open>evaluation rules of the MobileSync model\<close>

subsection \<open>Outcome of a call\<close>

text \<open>
  A C function of the model either returns a value (\<open>Returns\<close>), blocks forever
  (\<open>Diverges\<close>: the receive loop waiting on a transport that makes no progress), or
  reaches undefined behaviour (\<open>Undefined\<close>: a heap overflow or a dereference of a
  dangling pointer). Sequencing two calls is \<open>outcome_bind\<close>.
\<close>

datatype 'a outcome = Returns 'a | Diverges | Undefined

fun outcome_bind :: "'a outcome \<Rightarrow> ('a \<Rightarrow> 'b outcome) \<Rightarrow> 'b outcome" where
  "outcome_bind (Returns x) f = f x"
| "outcome_bind Diverges f = Diverges"
| "outcome_bind Undefined f = Undefined"

definition outcome_of_option :: "'a option \<Rightarrow> 'a outcome" where
  "outcome_of_option r = (case r of None \<Rightarrow> Diverges | Some x \<Rightarrow> Returns x)"

subsection \<open>Network byte order\<close>

text \<open>
  \<open>htonl\<close> followed by \<open>memcpy\<close> leaves the most significant byte first in memory;
  \<open>ntohl\<close> of a 32-bit variable reads its four memory bytes most significant first.
  Both are written over the byte list, so the model does not depend on the host's
  endianness.
\<close>

definition be32_bytes :: "u32 \<Rightarrow> byte list" where
  "be32_bytes n = [ucast (drop_bit 24 n), ucast (drop_bit 16 n), ucast (drop_bit 8 n), ucast n]"

definition be32_word :: "byte list \<Rightarrow> u32" where
  "be32_word bs = foldl (\<lambda>acc b. push_bit 8 acc OR ucast b) 0 bs"

subsection \<open>Generic lemmas\<close>

lemma outcome_bind_Returns_iff [simp]:
  "outcome_bind m f = Returns y \<longleftrightarrow> (\<exists>x. m = Returns x \<and> f x = Returns y)"
  by (cases m) auto

lemma outcome_of_option_simps [simp, msync_simps]:
  "outcome_of_option None = Diverges"
  "outcome_of_option (Some x) = Returns x"
  by (simp_all add: outcome_of_option_def)

lemma outcome_of_option_Returns_iff [simp]: "outcome_of_option r = Returns x \<longleftrightarrow> r = Some x"
  by (cases r) (simp_all add: outcome_of_option_def)

lemma length_be32_bytes [simp]: "length (be32_bytes n) = 4"
  by (simp add: be32_bytes_def)

lemma be32_word_be32_bytes [simp]: "be32_word (be32_bytes n) = n"
proof (rule bit_word_eqI)
  fix i assume "i < LENGTH(32)"
  then show "bit (be32_word (be32_bytes n)) i = bit n i"
    by (cases "i < 8"; cases "i < 16"; cases "i < 24")
      (auto simp: be32_word_def be32_bytes_def bit_simps)
qed

lemma unat_add_of_nat_le:
  fixes r d :: "'a::len word"
  assumes "unat r + j \<le> unat d"
  shows "unat (r + of_nat j) = unat r + j"
proof -
  have j: "unat (of_nat j :: 'a word) = j"
    using assms by (intro le_unat_uoi [where z = d]) simp
  have "unat d < 2 ^ LENGTH('a)" by (rule unsigned_less)
  then have "unat r + unat (of_nat j :: 'a word) < 2 ^ LENGTH('a)"
    using assms j by linarith
  then show ?thesis using j unat_add_lem [of r "of_nat j :: 'a word"] by simp
qed

lemma take_append_prefix: "take (length xs + n) zs = xs @ ys \<Longrightarrow> take (length xs) zs = xs"
  by (drule arg_cong [where f = "take (length xs)"]) (simp add: min_def)

lemma take_take_drop: "j \<le> k \<Longrightarrow> take j xs @ take (k - j) (drop j xs) = take k xs"
  using take_add [of j "k - j" xs] by simp

lemma unat_of_nat_u32: "n < 2 ^ 32 \<Longrightarrow> unat (of_nat n :: u32) = n"
  by (simp add: unat_of_nat)

lemma u32_add4_wraps: "unat ((x::u32) + 4) < unat x + 4 \<longleftrightarrow> 2 ^ 32 - 4 \<le> unat x"
proof -
  have "unat (x + 4) = (unat x + 4) mod 2 ^ 32" by (simp add: unat_word_ariths)
  moreover have "unat x < 2 ^ 32" using unsigned_less [of x] by simp
  ultimately show ?thesis by (auto simp: mod_if)
qed

lemma be32_bytes_small_first:
  assumes "n < 2 ^ 24"
  shows "hd (be32_bytes (of_nat n)) = 0"
proof -
  have "unat (drop_bit 24 (of_nat n :: u32)) = 0"
    unfolding unat_drop_bit_eq using assms by (simp add: unat_of_nat drop_bit_eq_div)
  then show ?thesis by (simp add: be32_bytes_def unat_eq_zero)
qed

text \<open>
  The shift-or accumulation of \<open>be32_word\<close> computes the base-256 value of the bytes:
  each step shifts by eight bits and fills the low byte, which is an addition because the
  two operands have no bit in common.
\<close>

lemma ucast_byte_u32: "(ucast (b :: byte) :: u32) = of_nat (unat b)"
proof -
  have "unat b < 2 ^ 8" using unsigned_less [of b] by simp
  then show ?thesis by (simp add: word_unat_eq_iff unsigned_ucast_eq unat_of_nat take_bit_nat_eq_self)
qed

lemma push_bit_or_ucast:
  "push_bit 8 (acc :: u32) OR ucast (b :: byte) = acc * 256 + ucast b"
proof -
  have "push_bit 8 acc + ucast b = push_bit 8 acc OR ucast b"
    by (rule disjunctive_add) (auto simp: bit_simps dest: bit_imp_le_length)
  then show ?thesis by (simp add: push_bit_eq_mult)
qed

lemma be32_word_foldl:
  "foldl (\<lambda>acc b. push_bit 8 acc OR ucast b) (of_nat n :: u32) bs =
     of_nat (foldl (\<lambda>acc b. acc * 256 + unat b) n (bs :: byte list))"
proof (induction bs arbitrary: n)
  case (Cons b bs)
  have "push_bit 8 (of_nat n :: u32) OR ucast b = of_nat n * 256 + ucast b" by (rule push_bit_or_ucast)
  also have "\<dots> = of_nat n * 256 + of_nat (unat b)" by (simp only: ucast_byte_u32)
  also have "\<dots> = of_nat (n * 256 + unat b)" by (simp only: of_nat_add of_nat_mult of_nat_numeral)
  finally have "push_bit 8 (of_nat n :: u32) OR ucast b = of_nat (n * 256 + unat b)" .
  with Cons.IH [of "n * 256 + unat b"] show ?case by simp
qed simp

lemma digit_step_bound: "a < k \<Longrightarrow> b < 256 \<Longrightarrow> a * 256 + b < k * (256 :: nat)"
proof -
  assume "a < k" "b < 256"
  then have "a * 256 + b < Suc a * 256" by simp
  also have "\<dots> \<le> k * 256" using \<open>a < k\<close> by (intro mult_le_mono1) simp
  finally show ?thesis .
qed

text \<open>Reads of \<open>k\<close> bytes each: one read less for \<open>min k d\<close> bytes fewer.\<close>

lemma chunk_count_step:
  assumes "0 < (k :: nat)" and "0 < d"
  shows "Suc ((d - min k d + k - 1) div k) = (d + k - 1) div k"
proof (cases "d \<le> k")
  case True
  then have "(d + k - 1) div k = 1" using assms by (intro div_nat_eqI) auto
  with True assms show ?thesis by simp
next
  case False
  then have "d + k - 1 = (d - 1) + 1 * k" by simp
  then have "(d + k - 1) div k = (d - 1) div k + 1" using assms by (simp only: div_mult_self1)
  with False show ?thesis by simp
qed

text \<open>
  A prefix of \<open>i\<close> of the four big-endian bytes, padded with zero bytes, reads back as
  the word with its low \<open>8 (4 - i)\<close> bits cleared, which never exceeds it.
\<close>

lemma be32_word_prefix:
  assumes "i \<le> 4"
  shows "be32_word (take i (be32_bytes n) @ replicate (4 - i) 0) = push_bit (8 * (4 - i)) (drop_bit (8 * (4 - i)) n)"
proof -
  have rep4: "replicate 4 x = [x, x, x, x]" for x :: byte by (simp add: numeral_eq_Suc)
  have "i = 0 \<or> i = 1 \<or> i = 2 \<or> i = 3 \<or> i = 4" using assms by linarith
  then show ?thesis
    unfolding be32_word_def be32_bytes_def
    by (elim disjE; intro bit_word_eqI;
        auto simp: bit_simps numeral_2_eq_2 numeral_3_eq_3 rep4 split: nat_diff_split_asm nat_diff_split)
qed

lemma push_drop_le: "push_bit k (drop_bit k (n :: 'a::len word)) \<le> n"
proof -
  have "push_bit k (drop_bit k n) = n AND NOT (mask k)"
    by (intro bit_word_eqI) (auto simp: bit_simps split: nat_diff_split_asm nat_diff_split)
  then show ?thesis by (simp add: word_and_le2)
qed

end
