(* ===== verification/Plist.thy ===== *)
theory Plist
  imports Prelude
begin

text \<open>
  The structured messages of the protocol, as the external libplist (0.x) presents
  them to \<open>src/src/MobileSync.c\<close>: a tree of nodes whose containers hold their
  children in order (a dictionary holds its keys and values alternately, as the
  GNode-based libplist does), the node-type enumeration \<open>plist_type\<close>, and the
  handful of library calls the handshake uses. A \<open>plist_t\<close> that points into a
  tree is modelled as a \<^emph>\<open>cursor\<close>: the list of the node and its following siblings;
  the NULL node is the empty cursor. The library is not part of the repository, so
  these definitions follow the spec (sections 3 and 4.2) and the library's documented
  behaviour. The binary codec is an interface (a record of two functions) with its
  round-trip law as a predicate.
\<close>

datatype plist =
    PBoolean bool
  | PUInt u64
  | PString string
  | PKey string
  | PData "byte list"
  | PArray "plist list"
  | PDict "plist list"

datatype plist_type =
    PLIST_BOOLEAN | PLIST_UINT | PLIST_REAL | PLIST_STRING | PLIST_ARRAY
  | PLIST_DICT | PLIST_DATE | PLIST_DATA | PLIST_KEY | PLIST_NONE

type_synonym plist_node = "plist list"

fun plist_type_of :: "plist \<Rightarrow> plist_type" where
  "plist_type_of (PBoolean _) = PLIST_BOOLEAN"
| "plist_type_of (PUInt _) = PLIST_UINT"
| "plist_type_of (PString _) = PLIST_STRING"
| "plist_type_of (PKey _) = PLIST_KEY"
| "plist_type_of (PData _) = PLIST_DATA"
| "plist_type_of (PArray _) = PLIST_ARRAY"
| "plist_type_of (PDict _) = PLIST_DICT"

fun plist_children :: "plist \<Rightarrow> plist list" where
  "plist_children (PArray xs) = xs"
| "plist_children (PDict xs) = xs"
| "plist_children _ = []"

text \<open>
  \<open>plist_find_node_by_string\<close> walks the children of the given node depth first and
  returns the first \<open>PLIST_STRING\<close> node with the given value (keys are
  \<open>PLIST_KEY\<close> nodes and never match), or NULL.
\<close>

fun find_string :: "string \<Rightarrow> plist list \<Rightarrow> plist_node" where
  "find_string s [] = []"
| "find_string s (PArray xs # ns) =
     (case find_string s xs of [] \<Rightarrow> find_string s ns | c \<Rightarrow> c)"
| "find_string s (PDict xs # ns) =
     (case find_string s xs of [] \<Rightarrow> find_string s ns | c \<Rightarrow> c)"
| "find_string s (n # ns) = (if n = PString s then n # ns else find_string s ns)"

definition plist_find_node_by_string :: "plist option \<Rightarrow> string \<Rightarrow> plist_node" where
  "plist_find_node_by_string p s =
     (case p of None \<Rightarrow> [] | Some root \<Rightarrow> find_string s (plist_children root))"

definition plist_get_next_sibling :: "plist_node \<Rightarrow> plist_node" where
  "plist_get_next_sibling c = (case c of [] \<Rightarrow> [] | _ # ns \<Rightarrow> ns)"

definition plist_get_node_type :: "plist_node \<Rightarrow> plist_type" where
  "plist_get_node_type c = (case c of [] \<Rightarrow> PLIST_NONE | n # _ \<Rightarrow> plist_type_of n)"

text \<open>\<open>plist_get_uint_val\<close> writes the value of a UINT node and leaves its output alone otherwise.\<close>

definition plist_get_uint_val :: "plist_node \<Rightarrow> u64 \<Rightarrow> u64" where
  "plist_get_uint_val c v = (case c of PUInt n # _ \<Rightarrow> n | _ \<Rightarrow> v)"

definition plist_new_array :: plist where
  "plist_new_array = PArray []"

definition plist_add_sub_string_el :: "plist \<Rightarrow> string \<Rightarrow> plist" where
  "plist_add_sub_string_el p s = (case p of PArray xs \<Rightarrow> PArray (xs @ [PString s]) | _ \<Rightarrow> p)"

subsection \<open>The binary codec interface\<close>

text \<open>
  \<open>plist_to_bin\<close> and \<open>plist_from_bin\<close> are the codec's two directions; decoding
  returns NULL (\<open>None\<close>) on a malformed buffer. \<open>codec_roundtrip\<close> is the law of the
  spec's section 4.3.
\<close>

record codec =
  to_bin :: "plist \<Rightarrow> byte list"
  from_bin :: "byte list \<Rightarrow> plist option"

definition codec_roundtrip :: "codec \<Rightarrow> bool" where
  "codec_roundtrip cd \<longleftrightarrow> (\<forall>m. from_bin cd (to_bin cd m) = Some m)"

subsection \<open>Lemmas\<close>

lemmas plist_cursor_defs [msync_simps] =
  plist_find_node_by_string_def plist_get_next_sibling_def plist_get_node_type_def
  plist_get_uint_val_def plist_new_array_def plist_add_sub_string_el_def

lemma plist_new_array_strings [simp]:
  "plist_add_sub_string_el (plist_add_sub_string_el plist_new_array a) b = PArray [PString a, PString b]"
  by (simp add: plist_new_array_def plist_add_sub_string_el_def)

lemma find_string_found:
  "find_string s xs = c \<Longrightarrow> c = [] \<or> hd c = PString s"
  by (induction s xs arbitrary: c rule: find_string.induct) (auto split: list.splits)

text \<open>A prefix of siblings without the string, even nested, does not change the search.\<close>

lemma find_string_append_absent:
  "find_string s pre = [] \<Longrightarrow> find_string s (pre @ xs) = find_string s xs"
  by (induction s pre rule: find_string.induct) (auto split: list.splits)

end
