(* ===== verification/Transport.thy ===== *)
theory Transport
  imports Plist
begin

text \<open>
  The world the MobileSync client runs in: the usbmuxd transport (connect, recv,
  send, disconnect on an integer socket descriptor), the heap blocks the module
  allocates, the \<open>mobilesync_client_int\<close> structures, and the diagnostic log. The
  transport is the external collaborator of the spec's section 6; it is modelled
  from that contract. Each connection holds the bytes the device has sent and the
  host has not read yet (\<open>c_inbox\<close>), and a schedule that fixes, read by read, how
  many bytes the transport hands over or which error it reports (\<open>c_rsched\<close>):
  short reads, zero-byte reads and failures are all expressible. Writes are
  all-or-nothing, with their status scheduled the same way (\<open>c_wsched\<close>); the
  buffers of the successful ones are recorded in order (\<open>c_sent\<close>).
\<close>

type_synonym iphone_error_t = int

definition IPHONE_E_SUCCESS :: iphone_error_t where "IPHONE_E_SUCCESS = 0"
definition IPHONE_E_INVALID_ARG :: iphone_error_t where "IPHONE_E_INVALID_ARG = -1"
definition IPHONE_E_UNKNOWN_ERROR :: iphone_error_t where "IPHONE_E_UNKNOWN_ERROR = -2"

text \<open>The status a usbmuxd call returns on a descriptor that is not an open connection.\<close>

definition USBMUXD_EBADF :: int where "USBMUXD_EBADF = -9"

lemmas iphone_error_defs [msync_simps] =
  IPHONE_E_SUCCESS_def IPHONE_E_INVALID_ARG_def IPHONE_E_UNKNOWN_ERROR_def USBMUXD_EBADF_def

datatype rd_event = RdChunk nat | RdFail int

record usb_conn =
  c_inbox :: "byte list"
  c_rsched :: "nat \<Rightarrow> rd_event"
  c_reads :: nat
  c_wsched :: "nat \<Rightarrow> int"
  c_writes :: nat
  c_sent :: "byte list list"
  c_open :: bool

text \<open>
  Heap blocks, by the allocation site that made them: the client structure
  (\<open>malloc\<close> in \<open>mobilesync_new_client\<close>), plist trees, the receive buffer, the
  XML text made for the log, the binary encoding made by \<open>plist_to_bin\<close>, and the
  outgoing frame buffer.
\<close>

datatype alloc = AClient | APlist | ARecvBuf | AXml | ABinBuf | AQueryBuf

record msync_client =
  sfd :: int

datatype log_entry = LogPlist string "plist option"

record iphone_device =
  dev_handle :: nat

record world =
  w_listen :: "nat \<Rightarrow> int \<Rightarrow> usb_conn option"
  w_conns :: "int \<Rightarrow> usb_conn option"
  w_next_sfd :: int
  w_clients :: "nat \<Rightarrow> msync_client option"
  w_next_addr :: nat
  w_heap :: "alloc multiset"
  w_log :: "log_entry list"

subsection \<open>Heap\<close>

definition heap_alloc :: "alloc \<Rightarrow> world \<Rightarrow> world" where
  "heap_alloc a w = w\<lparr>w_heap := add_mset a (w_heap w)\<rparr>"

definition heap_free :: "alloc \<Rightarrow> world \<Rightarrow> world" where
  "heap_free a w = w\<lparr>w_heap := w_heap w - {#a#}\<rparr>"

text \<open>\<open>plist_free\<close> of a NULL plist does nothing.\<close>

definition plist_free :: "plist option \<Rightarrow> world \<Rightarrow> world" where
  "plist_free p w = (case p of None \<Rightarrow> w | Some _ \<Rightarrow> heap_free APlist w)"

definition log_dbg_msg :: "string \<Rightarrow> plist option \<Rightarrow> world \<Rightarrow> world" where
  "log_dbg_msg f p w = w\<lparr>w_log := w_log w @ [LogPlist f p]\<rparr>"

text \<open>
  \<open>plist_to_xml\<close> allocates the text of a non-NULL plist; the caller frees it. The
  model keeps the allocation and the free; the text itself is only logged.
\<close>

definition plist_to_xml :: "plist option \<Rightarrow> world \<Rightarrow> world" where
  "plist_to_xml p w = (case p of None \<Rightarrow> w | Some _ \<Rightarrow> heap_alloc AXml w)"

definition xml_free :: "plist option \<Rightarrow> world \<Rightarrow> world" where
  "xml_free p w = (case p of None \<Rightarrow> w | Some _ \<Rightarrow> heap_free AXml w)"

subsection \<open>Transport\<close>

definition open_conn :: "int \<Rightarrow> world \<Rightarrow> usb_conn option" where
  "open_conn fd w = (case w_conns w fd of Some c \<Rightarrow> if c_open c then Some c else None | None \<Rightarrow> None)"

definition set_conn :: "int \<Rightarrow> usb_conn \<Rightarrow> world \<Rightarrow> world" where
  "set_conn fd c w = w\<lparr>w_conns := (w_conns w)(fd \<mapsto> c)\<rparr>"

definition usbmuxd_connect :: "nat \<Rightarrow> int \<Rightarrow> world \<Rightarrow> int \<times> world" where
  "usbmuxd_connect h port w =
     (case w_listen w h port of
        None \<Rightarrow> (-1, w)
      | Some c \<Rightarrow> (w_next_sfd w,
                   set_conn (w_next_sfd w) (c\<lparr>c_open := True\<rparr>) (w\<lparr>w_next_sfd := w_next_sfd w + 1\<rparr>)))"

text \<open>
  \<open>usbmuxd_recv fd len\<close>: the transport's next scheduled event decides the read.
  A chunk event of size \<open>n\<close> hands over the first \<open>min n len\<close> bytes of the inbox
  (fewer if the inbox is shorter: zero bytes when nothing has arrived); a failure
  event returns its status and no bytes.
\<close>

definition usbmuxd_recv :: "int \<Rightarrow> nat \<Rightarrow> world \<Rightarrow> int \<times> byte list \<times> world" where
  "usbmuxd_recv fd len w =
     (case open_conn fd w of
        None \<Rightarrow> (USBMUXD_EBADF, [], w)
      | Some c \<Rightarrow>
          (case c_rsched c (c_reads c) of
             RdFail e \<Rightarrow> (e, [], set_conn fd (c\<lparr>c_reads := Suc (c_reads c)\<rparr>) w)
           | RdChunk n \<Rightarrow>
               (let k = min n len in
                (0, take k (c_inbox c),
                 set_conn fd (c\<lparr>c_inbox := drop k (c_inbox c), c_reads := Suc (c_reads c)\<rparr>) w))))"

definition usbmuxd_send :: "int \<Rightarrow> byte list \<Rightarrow> world \<Rightarrow> int \<times> world" where
  "usbmuxd_send fd data w =
     (case open_conn fd w of
        None \<Rightarrow> (USBMUXD_EBADF, w)
      | Some c \<Rightarrow>
          (let st = c_wsched c (c_writes c);
               c' = c\<lparr>c_writes := Suc (c_writes c)\<rparr>
           in if st = 0 then (0, set_conn fd (c'\<lparr>c_sent := c_sent c @ [data]\<rparr>) w)
              else (st, set_conn fd c' w)))"

definition usbmuxd_disconnect :: "int \<Rightarrow> world \<Rightarrow> int \<times> world" where
  "usbmuxd_disconnect fd w =
     (case open_conn fd w of
        None \<Rightarrow> (USBMUXD_EBADF, w)
      | Some c \<Rightarrow> (0, set_conn fd (c\<lparr>c_open := False\<rparr>) w))"

subsection \<open>Scenarios\<close>

text \<open>
  A connection as the host finds it when it connects: nothing read or written yet,
  the device's bytes in the inbox, the transport's behaviour given by the two schedules.
\<close>

definition fresh_conn :: "byte list \<Rightarrow> (nat \<Rightarrow> rd_event) \<Rightarrow> (nat \<Rightarrow> int) \<Rightarrow> usb_conn" where
  "fresh_conn inbox rs ws =
     \<lparr>c_inbox = inbox, c_rsched = rs, c_reads = 0, c_wsched = ws, c_writes = 0, c_sent = [], c_open = True\<rparr>"

definition empty_world :: world where
  "empty_world =
     \<lparr>w_listen = (\<lambda>_ _. None), w_conns = Map.empty, w_next_sfd = 3, w_clients = Map.empty,
      w_next_addr = 0, w_heap = {#}, w_log = []\<rparr>"

subsection \<open>Lemmas\<close>

lemmas world_op_defs [msync_simps] =
  heap_alloc_def heap_free_def plist_free_def log_dbg_msg_def plist_to_xml_def xml_free_def
  open_conn_def set_conn_def

lemma open_conn_set_conn [simp]:
  "open_conn fd (set_conn fd' c w) = (if fd = fd' then (if c_open c then Some c else None) else open_conn fd w)"
  by (simp add: open_conn_def set_conn_def)

lemma world_fields_unchanged [simp]:
  "w_conns (heap_alloc a w) = w_conns w" "w_conns (heap_free a w) = w_conns w"
  "w_conns (plist_free p w) = w_conns w" "w_conns (plist_to_xml p w) = w_conns w"
  "w_conns (xml_free p w) = w_conns w" "w_conns (log_dbg_msg f p w) = w_conns w"
  "w_clients (heap_alloc a w) = w_clients w" "w_clients (heap_free a w) = w_clients w"
  "w_clients (plist_free p w) = w_clients w" "w_clients (plist_to_xml p w) = w_clients w"
  "w_clients (xml_free p w) = w_clients w" "w_clients (log_dbg_msg f p w) = w_clients w"
  "w_clients (set_conn fd c w) = w_clients w" "w_heap (set_conn fd c w) = w_heap w"
  by (simp_all add: world_op_defs split: option.splits)

lemma open_conn_heap [simp]:
  "open_conn fd (heap_alloc a w) = open_conn fd w"
  "open_conn fd (heap_free a w) = open_conn fd w"
  "open_conn fd (plist_free p w) = open_conn fd w"
  "open_conn fd (plist_to_xml p w) = open_conn fd w"
  "open_conn fd (xml_free p w) = open_conn fd w"
  "open_conn fd (log_dbg_msg f p w) = open_conn fd w"
  by (simp_all add: open_conn_def)

lemma open_conn_SomeD: "open_conn fd w = Some c \<Longrightarrow> w_conns w fd = Some c \<and> c_open c"
  by (auto simp: open_conn_def split: option.splits if_splits)

lemma set_conn_same: "open_conn fd w = Some c \<Longrightarrow> set_conn fd c w = w"
  by (auto simp: set_conn_def fun_upd_idem dest!: open_conn_SomeD)

lemma open_conn_set_conn_open: "open_conn fd w = Some c \<Longrightarrow> c_open c' = c_open c \<Longrightarrow>
    open_conn fd (set_conn fd c' w) = Some c'"
  using open_conn_SomeD by simp

lemma set_conn_set_conn [simp]: "set_conn fd c (set_conn fd c' w) = set_conn fd c w"
  by (simp add: set_conn_def)

lemma usbmuxd_recv_open:
  assumes "open_conn fd w = Some c" and "c_rsched c (c_reads c) = RdChunk n"
  shows "usbmuxd_recv fd len w =
           (0, take (min n len) (c_inbox c),
            set_conn fd (c\<lparr>c_inbox := drop (min n len) (c_inbox c), c_reads := Suc (c_reads c)\<rparr>) w)"
  using assms by (simp add: usbmuxd_recv_def Let_def)

lemma usbmuxd_recv_fail:
  assumes "open_conn fd w = Some c" and "c_rsched c (c_reads c) = RdFail e"
  shows "usbmuxd_recv fd len w = (e, [], set_conn fd (c\<lparr>c_reads := Suc (c_reads c)\<rparr>) w)"
  using assms by (simp add: usbmuxd_recv_def)

lemma usbmuxd_recv_length: "usbmuxd_recv fd len w = (r, bs, w') \<Longrightarrow> length bs \<le> len"
  by (auto simp: usbmuxd_recv_def Let_def split: option.splits rd_event.splits)

end
