(* ===== verification/Channel.thy ===== *)
theory Channel
  imports Transport
begin

text \<open>
  The Framed Channel: \<open>mobilesync_recv\<close> and \<open>mobilesync_send\<close> of
  \<open>src/src/MobileSync.c\<close> (lines 134--208). A frame is a 4-byte big-endian length
  followed by the binary plist. Receiving reads the length with a single transport
  read (\<open>recv_prefix\<close>), then loops until the announced number of bytes has arrived
  or the transport fails (\<open>recv_loop\<close>, a \<open>partial_function (option)\<close>: the loop
  has no timeout and spins as long as the transport hands over zero bytes). The
  counters \<open>datalen\<close>, \<open>received_bytes\<close> and the send length are \<open>uint32_t\<close> in the
  code and \<open>u32\<close> words here.
\<close>

type_synonym client_ptr = nat

subsection \<open>mobilesync_recv\<close>

text \<open>
  Lines 140--143: \<open>datalen\<close> starts as four zero bytes; the one read of at most four
  bytes overwrites its first bytes; \<open>ntohl\<close> reads the four bytes most significant
  first. A short read is not retried.
\<close>

definition recv_prefix :: "int \<Rightarrow> world \<Rightarrow> iphone_error_t \<times> u32 \<times> world" where
  "recv_prefix fd w =
     (case usbmuxd_recv fd 4 w of
        (ret, bs, w') \<Rightarrow> (ret, be32_word (bs @ replicate (4 - length bs) 0), w'))"

text \<open>
  Lines 148--151. \<open>buf\<close> is the filled prefix \<open>receive[0 .. received_bytes)\<close> of the
  receive buffer: each read writes at offset \<open>received_bytes\<close>, which is the end of
  what has been written (\<open>recv_loop_length\<close> below).
\<close>

partial_function (option) recv_loop ::
  "int \<Rightarrow> u32 \<Rightarrow> u32 \<Rightarrow> iphone_error_t \<Rightarrow> byte list \<Rightarrow> world \<Rightarrow>
   (iphone_error_t \<times> u32 \<times> byte list \<times> world) option" where
  "recv_loop fd datalen received ret buf w =
     (if received < datalen \<and> ret = IPHONE_E_SUCCESS then
        (case usbmuxd_recv fd (unat (datalen - received)) w of
           (ret', bs, w') \<Rightarrow> recv_loop fd datalen (received + of_nat (length bs)) ret' (buf @ bs) w')
      else Some (ret, received, buf, w))"

text \<open>
  Lines 134--168. The client pointer and the output slot are C pointers: \<open>None\<close> is
  NULL, and the slot \<open>Some p\<close> holds the current value \<open>*plist\<close>. Dereferencing a
  client pointer that does not name a live structure is undefined behaviour.
  \<open>plist_from_bin\<close> leaves \<open>*plist\<close> NULL on a malformed buffer.
\<close>

definition mobilesync_recv ::
  "codec \<Rightarrow> client_ptr option \<Rightarrow> plist option option \<Rightarrow> world \<Rightarrow>
   (iphone_error_t \<times> plist option option \<times> world) outcome" where
  "mobilesync_recv cd client plist w =
     (case (client, plist) of
        (Some a, Some None) \<Rightarrow>
          (case w_clients w a of
             None \<Rightarrow> Undefined
           | Some cl \<Rightarrow>
               (case recv_prefix (sfd cl) w of
                  (ret, datalen, w1) \<Rightarrow>
                    outcome_bind
                      (outcome_of_option (recv_loop (sfd cl) datalen 0 ret [] (heap_alloc ARecvBuf w1)))
                      (\<lambda>(ret', received, buf, w2).
                         if ret' \<noteq> IPHONE_E_SUCCESS then Returns (ret', plist, heap_free ARecvBuf w2)
                         else
                           (let p = from_bin cd buf;
                                w3 = heap_free ARecvBuf (if p = None then w2 else heap_alloc APlist w2);
                                w4 = xml_free p (log_dbg_msg ''mobilesync_recv'' p (plist_to_xml p w3))
                            in Returns (ret', Some p, w4)))))
      | _ \<Rightarrow> Returns (IPHONE_E_INVALID_ARG, plist, w))"

subsection \<open>mobilesync_send\<close>

text \<open>
  Lines 180--208. The binary encoding's length is the \<open>uint32_t\<close> that
  \<open>plist_to_bin\<close> writes; \<open>malloc(length + 4)\<close> computes the size in 32 bits, so
  a payload of \<open>2^32 - 4\<close> bytes or more makes the two \<open>memcpy\<close> calls write past the
  buffer. The buffer \<open>content\<close> made by \<open>plist_to_bin\<close> is never freed.
\<close>

text \<open>The wire format of the spec (sections 3 and 6): the length, big-endian, then the payload.\<close>

definition frame :: "byte list \<Rightarrow> byte list" where
  "frame payload = be32_bytes (of_nat (length payload)) @ payload"

definition send_query :: "u32 \<Rightarrow> byte list \<Rightarrow> byte list" where
  "send_query len content = be32_bytes len @ take (unat len) content"

definition mobilesync_send ::
  "codec \<Rightarrow> client_ptr option \<Rightarrow> plist option \<Rightarrow> world \<Rightarrow> (iphone_error_t \<times> world) outcome" where
  "mobilesync_send cd client plist w =
     (case (client, plist) of
        (Some a, Some p) \<Rightarrow>
          (let w1 = xml_free (Some p) (log_dbg_msg ''mobilesync_send'' (Some p) (plist_to_xml (Some p) w));
               content = to_bin cd p;
               len = (of_nat (length content) :: u32);
               w2 = heap_alloc AQueryBuf (heap_alloc ABinBuf w1)
           in if unat (len + 4) < unat len + 4 then Undefined
              else
                (case w_clients w2 a of
                   None \<Rightarrow> Undefined
                 | Some cl \<Rightarrow>
                     (case usbmuxd_send (sfd cl) (send_query len content) w2 of
                        (ret, w3) \<Rightarrow> Returns (ret, heap_free AQueryBuf w3))))
      | _ \<Rightarrow> Returns (IPHONE_E_INVALID_ARG, w))"

subsection \<open>The receive loop\<close>

text \<open>
  The loop invariant: the buffer holds exactly \<open>received_bytes\<close> bytes and the counter
  never passes \<open>datalen\<close>; in particular the \<open>uint32_t\<close> addition never wraps.
\<close>

definition loop_inv :: "u32 \<Rightarrow> u32 \<Rightarrow> byte list \<Rightarrow> bool" where
  "loop_inv datalen received buf \<longleftrightarrow> length buf = unat received \<and> received \<le> datalen"

text \<open>
  The device has stopped short: the connection is open, fewer bytes are waiting than the
  loop still expects, and every further read succeeds (possibly with zero bytes).
\<close>

definition starving :: "int \<Rightarrow> u32 \<Rightarrow> u32 \<Rightarrow> iphone_error_t \<Rightarrow> byte list \<Rightarrow> world \<Rightarrow> bool" where
  "starving fd datalen received ret buf w \<longleftrightarrow>
     (\<exists>c. open_conn fd w = Some c \<and> loop_inv datalen received buf \<and> ret = IPHONE_E_SUCCESS \<and>
          length (c_inbox c) < unat datalen - unat received \<and>
          (\<forall>i\<ge>c_reads c. \<exists>n. c_rsched c i = RdChunk n))"

text \<open>
  The invariant rule of the loop: a property of the counter, the buffer and the world
  that every read of an iteration preserves holds when the loop returns.
\<close>

lemma recv_loop_invariant:
  assumes step: "\<And>received ret buf w ret' bs w'. I received buf w \<Longrightarrow> received < datalen \<Longrightarrow>
      ret = IPHONE_E_SUCCESS \<Longrightarrow> usbmuxd_recv fd (unat (datalen - received)) w = (ret', bs, w') \<Longrightarrow>
      I (received + of_nat (length bs)) (buf @ bs) w'"
    and loop: "recv_loop fd datalen received ret buf w = Some (ret', r', buf', w')"
    and init: "I received buf w"
  shows "I r' buf' w'"
proof -
  have "fd' = fd \<and> datalen' = datalen \<and> I received buf w \<longrightarrow> (case res of (_, r', buf', w') \<Rightarrow> I r' buf' w')"
    if "recv_loop fd' datalen' received ret buf w = Some res" for fd' datalen' received ret buf w res
  proof (rule recv_loop.raw_induct [where P = "\<lambda>fd' datalen' received ret buf w res.
      fd' = fd \<and> datalen' = datalen \<and> I received buf w \<longrightarrow> (case res of (_, r', buf', w') \<Rightarrow> I r' buf' w')",
      OF _ that], intro impI)
    fix f fd' datalen' received ret buf w res
    assume IH: "\<And>fd' datalen' received ret buf w res. f fd' datalen' received ret buf w = Some res \<Longrightarrow>
      fd' = fd \<and> datalen' = datalen \<and> I received buf w \<longrightarrow> (case res of (_, r', buf', w') \<Rightarrow> I r' buf' w')"
      and eq: "(if received < datalen' \<and> ret = IPHONE_E_SUCCESS
         then case usbmuxd_recv fd' (unat (datalen' - received)) w of
              (ret', bs, w') \<Rightarrow> f fd' datalen' (received + word_of_nat (length bs)) ret' (buf @ bs) w'
         else Some (ret, received, buf, w)) = Some res"
      and pre: "fd' = fd \<and> datalen' = datalen \<and> I received buf w"
    show "case res of (_, r', buf', w') \<Rightarrow> I r' buf' w'"
    proof (cases "received < datalen' \<and> ret = IPHONE_E_SUCCESS")
      case True
      obtain ret1 bs w1 where rd: "usbmuxd_recv fd' (unat (datalen' - received)) w = (ret1, bs, w1)"
        by (cases "usbmuxd_recv fd' (unat (datalen' - received)) w") auto
      with eq True have "f fd' datalen' (received + word_of_nat (length bs)) ret1 (buf @ bs) w1 = Some res"
        by simp
      moreover have "I (received + of_nat (length bs)) (buf @ bs) w1"
        using step [of received buf w ret ret1 bs w1] pre True rd by simp
      ultimately show ?thesis using IH pre by blast
    next
      case False
      with eq pre show ?thesis by auto
    qed
  qed
  from this [OF loop] init show ?thesis by simp
qed

lemma recv_step_inv:
  assumes "usbmuxd_recv fd (unat (datalen - received)) w = (ret', bs, w')"
    and "received < datalen" and "loop_inv datalen received buf"
  shows "loop_inv datalen (received + of_nat (length bs)) (buf @ bs)"
proof -
  have "length bs \<le> unat datalen - unat received"
    using usbmuxd_recv_length [OF assms(1)] assms(2) by (simp add: unat_sub less_imp_le)
  then have "unat received + length bs \<le> unat datalen" using assms(2)
    by (simp add: word_less_nat_alt)
  then show ?thesis using assms(3)
    by (simp add: loop_inv_def unat_add_of_nat_le word_le_nat_alt)
qed

lemma recv_loop_inv:
  assumes "recv_loop fd datalen received ret buf w = Some (ret', r', buf', w')"
    and "loop_inv datalen received buf"
  shows "loop_inv datalen r' buf' \<and> take (length buf) buf' = buf"
proof (rule recv_loop_invariant [where I = "\<lambda>r b _. loop_inv datalen r b \<and> take (length buf) b = buf", OF _ assms(1)])
  fix received' b w1 ret1 ret2 bs w2
  assume I: "loop_inv datalen received' b \<and> take (length buf) b = buf" and lt: "received' < datalen"
    and rd: "usbmuxd_recv fd (unat (datalen - received')) w1 = (ret2, bs, w2)"
  have "length buf \<le> length b" using I by (metis length_take min.absorb_iff1 min.commute)
  then show "loop_inv datalen (received' + of_nat (length bs)) (b @ bs) \<and> take (length buf) (b @ bs) = buf"
    using recv_step_inv [OF rd lt] I by simp
qed (use assms(2) in simp)

lemma starving_step:
  assumes "starving fd datalen received ret buf w"
  shows "received < datalen \<and> ret = IPHONE_E_SUCCESS \<and>
    (case usbmuxd_recv fd (unat (datalen - received)) w of (ret', bs, w') \<Rightarrow>
       starving fd datalen (received + of_nat (length bs)) ret' (buf @ bs) w')"
proof -
  from assms obtain c where c: "open_conn fd w = Some c" and inv: "loop_inv datalen received buf"
    and ret: "ret = IPHONE_E_SUCCESS" and short: "length (c_inbox c) < unat datalen - unat received"
    and sched: "\<forall>i\<ge>c_reads c. \<exists>n. c_rsched c i = RdChunk n"
    unfolding starving_def by blast
  have lt: "received < datalen" using short by (simp add: word_less_nat_alt)
  obtain n where n: "c_rsched c (c_reads c) = RdChunk n" using sched by blast
  define k where "k = unat (datalen - received)"
  define c1 where "c1 = c\<lparr>c_inbox := drop (min n k) (c_inbox c), c_reads := Suc (c_reads c)\<rparr>"
  have rd: "usbmuxd_recv fd k w = (0, take (min n k) (c_inbox c), set_conn fd c1 w)"
    using usbmuxd_recv_open [OF c n, of k] by (simp add: c1_def)
  have inv1: "loop_inv datalen (received + of_nat (length (take (min n k) (c_inbox c)))) (buf @ take (min n k) (c_inbox c))"
    using recv_step_inv [OF rd [unfolded k_def]] lt inv by (simp add: k_def)
  have k: "k = unat datalen - unat received" using lt by (simp add: k_def unat_sub less_imp_le)
  have u: "unat (received + of_nat (length (take (min n k) (c_inbox c)))) =
      unat received + length (take (min n k) (c_inbox c))"
    using inv inv1 by (simp add: loop_inv_def)
  have "length (c_inbox c1) < unat datalen - unat (received + of_nat (length (take (min n k) (c_inbox c))))"
    unfolding u using short k by (auto simp: c1_def min_def)
  moreover have "open_conn fd (set_conn fd c1 w) = Some c1"
    using open_conn_SomeD [OF c] by (simp add: c1_def)
  ultimately have "starving fd datalen (received + of_nat (length (take (min n k) (c_inbox c))))
      0 (buf @ take (min n k) (c_inbox c)) (set_conn fd c1 w)"
    using inv1 sched unfolding starving_def by (auto simp: c1_def IPHONE_E_SUCCESS_def)
  then show ?thesis using rd lt ret by (simp add: k_def)
qed

lemma recv_loop_starves:
  assumes "starving fd datalen received ret buf w"
  shows "recv_loop fd datalen received ret buf w = None"
proof (rule ccontr)
  assume "recv_loop fd datalen received ret buf w \<noteq> None"
  then obtain res where that: "recv_loop fd datalen received ret buf w = Some res" by blast
  have "starving fd datalen received ret buf w \<longrightarrow> False"
  proof (rule recv_loop.raw_induct [where P = "\<lambda>fd datalen received ret buf w res.
      starving fd datalen received ret buf w \<longrightarrow> False", OF _ that], intro impI)
    fix f fd datalen received ret buf w res
    assume IH: "\<And>fd datalen received ret buf w res. f fd datalen received ret buf w = Some res \<Longrightarrow>
      starving fd datalen received ret buf w \<longrightarrow> False"
      and eq: "(if received < datalen \<and> ret = IPHONE_E_SUCCESS
         then case usbmuxd_recv fd (unat (datalen - received)) w of
              (ret', bs, w') \<Rightarrow> f fd datalen (received + word_of_nat (length bs)) ret' (buf @ bs) w'
         else Some (ret, received, buf, w)) = Some res"
      and st: "starving fd datalen received ret buf w"
    obtain ret1 bs w1 where rd: "usbmuxd_recv fd (unat (datalen - received)) w = (ret1, bs, w1)"
      by (cases "usbmuxd_recv fd (unat (datalen - received)) w") auto
    from starving_step [OF st] rd have go: "received < datalen \<and> ret = IPHONE_E_SUCCESS"
      and st1: "starving fd datalen (received + of_nat (length bs)) ret1 (buf @ bs) w1" by simp_all
    from eq go rd have "f fd datalen (received + of_nat (length bs)) ret1 (buf @ bs) w1 = Some res" by simp
    with IH st1 show False by blast
  qed
  with assms show False by blast
qed

text \<open>
  Progress: when every read from now on hands over at least one byte and the device
  has sent the remaining bytes, the loop returns with the buffer filled from the inbox
  and the rest of the inbox untouched.
\<close>

text \<open>One iteration of the loop as a rewrite: a read of \<open>min n d\<close> bytes.\<close>

lemma recv_loop_step:
  assumes conn: "open_conn fd w = Some c" and rd: "c_rsched c (c_reads c) = RdChunk n"
    and lt: "received < datalen" and avail: "min n (unat datalen - unat received) \<le> length (c_inbox c)"
  shows "recv_loop fd datalen received IPHONE_E_SUCCESS buf w =
           recv_loop fd datalen (received + of_nat (min n (unat datalen - unat received))) IPHONE_E_SUCCESS
             (buf @ take (min n (unat datalen - unat received)) (c_inbox c))
             (set_conn fd (c\<lparr>c_inbox := drop (min n (unat datalen - unat received)) (c_inbox c),
                            c_reads := Suc (c_reads c)\<rparr>) w)"
proof -
  have sub: "unat (datalen - received) = unat datalen - unat received"
    using lt by (simp add: unat_sub less_imp_le)
  show ?thesis
    using usbmuxd_recv_open [OF conn rd, of "unat datalen - unat received"] lt avail sub
    by (simp add: recv_loop.simps [of fd datalen received] IPHONE_E_SUCCESS_def min_absorb1)
qed

lemma recv_loop_progress:
  assumes "open_conn fd w = Some c" and "length buf = unat received" and "received \<le> datalen"
    and "unat datalen - unat received \<le> length (c_inbox c)"
    and "\<forall>i\<ge>c_reads c. \<exists>n>0. c_rsched c i = RdChunk n"
  shows "\<exists>m. recv_loop fd datalen received IPHONE_E_SUCCESS buf w =
           Some (IPHONE_E_SUCCESS, datalen, buf @ take (unat datalen - unat received) (c_inbox c),
                 set_conn fd (c\<lparr>c_inbox := drop (unat datalen - unat received) (c_inbox c),
                                c_reads := c_reads c + m\<rparr>) w)"
  using assms
proof (induction "unat datalen - unat received" arbitrary: received buf c w rule: less_induct)
  case less
  show ?case
  proof (cases "received < datalen")
    case False
    with less.prems(3) have "received = datalen" by simp
    then show ?thesis
      using less.prems(1) by (intro exI [of _ 0]) (simp add: recv_loop.simps set_conn_same)
  next
    case True
    define k where "k = unat datalen - unat received"
    from less.prems(5) obtain n where n: "0 < n" "c_rsched c (c_reads c) = RdChunk n" by auto
    define j where "j = min n k"
    have k_pos: "0 < k" using True by (simp add: k_def word_less_nat_alt)
    have j: "0 < j" "j \<le> k" using n k_pos by (auto simp: j_def)
    define c1 where "c1 = c\<lparr>c_inbox := drop j (c_inbox c), c_reads := Suc (c_reads c)\<rparr>"
    have step: "recv_loop fd datalen received IPHONE_E_SUCCESS buf w =
        recv_loop fd datalen (received + of_nat j) IPHONE_E_SUCCESS (buf @ take j (c_inbox c)) (set_conn fd c1 w)"
      using recv_loop_step [OF less.prems(1) n(2) True] less.prems(4) j by (simp add: j_def k_def c1_def)
    have urec: "unat (received + of_nat j) = unat received + j"
      using j less.prems(3) by (intro unat_add_of_nat_le [where d = datalen]) (simp add: k_def word_le_nat_alt)
    have o1: "open_conn fd (set_conn fd c1 w) = Some c1"
      using open_conn_SomeD [OF less.prems(1)] by (simp add: c1_def)
    have "\<exists>m. recv_loop fd datalen (received + of_nat j) IPHONE_E_SUCCESS (buf @ take j (c_inbox c)) (set_conn fd c1 w) =
           Some (IPHONE_E_SUCCESS, datalen, (buf @ take j (c_inbox c)) @ take (k - j) (c_inbox c1),
                 set_conn fd (c1\<lparr>c_inbox := drop (k - j) (c_inbox c1), c_reads := c_reads c1 + m\<rparr>) (set_conn fd c1 w))"
    proof -
      have "unat datalen - unat (received + of_nat j) < unat datalen - unat received"
        using urec j by (simp add: k_def)
      moreover have "received + of_nat j \<le> datalen"
        using urec j by (simp add: word_le_nat_alt k_def)
      ultimately show ?thesis
        using less.hyps [where received = "received + of_nat j" and buf = "buf @ take j (c_inbox c)" and c = c1 and w = "set_conn fd c1 w"]
          o1 less.prems(2,4,5) urec j by (simp add: k_def c1_def)
    qed
    then obtain m where m: "recv_loop fd datalen (received + of_nat j) IPHONE_E_SUCCESS (buf @ take j (c_inbox c)) (set_conn fd c1 w) =
           Some (IPHONE_E_SUCCESS, datalen, (buf @ take j (c_inbox c)) @ take (k - j) (c_inbox c1),
                 set_conn fd (c1\<lparr>c_inbox := drop (k - j) (c_inbox c1), c_reads := c_reads c1 + m\<rparr>) (set_conn fd c1 w))" ..
    have tk: "take j (c_inbox c) @ take (k - j) (drop j (c_inbox c)) = take k (c_inbox c)"
      using j take_add [of j "k - j" "c_inbox c"] by simp
    show ?thesis
      using m step tk j by (intro exI [of _ "Suc m"]) (simp add: c1_def k_def)
  qed
qed
subsection \<open>Whole frames\<close>

text \<open>
  Receiving one frame whose length prefix arrives in the first read, the payload in
  reads of any positive size: the call returns the decoded payload, consumes exactly
  the frame, frees the receive buffer and the XML text, and logs the message.
\<close>

lemma recv_prefix_whole:
  assumes "open_conn fd w = Some c" and "c_rsched c (c_reads c) = RdChunk n" and "4 \<le> n"
    and "c_inbox c = be32_bytes len @ rest"
  shows "recv_prefix fd w = (IPHONE_E_SUCCESS, len,
           set_conn fd (c\<lparr>c_inbox := rest, c_reads := Suc (c_reads c)\<rparr>) w)"
  using usbmuxd_recv_open [OF assms(1,2), of 4] assms(3,4)
  by (simp add: recv_prefix_def min_def IPHONE_E_SUCCESS_def)

lemma mobilesync_recv_frame:
  assumes client: "w_clients w a = Some cl" and conn: "open_conn (sfd cl) w = Some c"
    and inbox: "c_inbox c = frame payload @ rest"
    and small: "length payload < 2 ^ 32"
    and first: "c_rsched c (c_reads c) = RdChunk n" "4 \<le> n"
    and more: "\<forall>i>c_reads c. \<exists>k>0. c_rsched c i = RdChunk k"
  shows "\<exists>w'. mobilesync_recv cd (Some a) (Some None) w = Returns (IPHONE_E_SUCCESS, Some (from_bin cd payload), w') \<and>
           (\<exists>r. c_reads c < r \<and> open_conn (sfd cl) w' = Some (c\<lparr>c_inbox := rest, c_reads := r\<rparr>)) \<and>
           w_heap w' = w_heap w + (if from_bin cd payload = None then {#} else {#APlist#}) \<and>
           w_log w' = w_log w @ [LogPlist ''mobilesync_recv'' (from_bin cd payload)] \<and>
           w_clients w' = w_clients w"
proof -
  define len :: u32 where "len = of_nat (length payload)"
  define c1 where "c1 = c\<lparr>c_inbox := payload @ rest, c_reads := Suc (c_reads c)\<rparr>"
  have pre: "recv_prefix (sfd cl) w = (IPHONE_E_SUCCESS, len, set_conn (sfd cl) c1 w)"
    using recv_prefix_whole [OF conn first] inbox by (simp add: len_def c1_def frame_def)
  have ulen: "unat len = length payload" using small by (simp add: len_def unat_of_nat_u32)
  have o1: "open_conn (sfd cl) (heap_alloc ARecvBuf (set_conn (sfd cl) c1 w)) = Some c1"
    using open_conn_set_conn_open [OF conn] by (simp add: c1_def)
  obtain m where loop: "recv_loop (sfd cl) len 0 IPHONE_E_SUCCESS [] (heap_alloc ARecvBuf (set_conn (sfd cl) c1 w)) =
      Some (IPHONE_E_SUCCESS, len, [] @ take (unat len - unat (0::u32)) (c_inbox c1),
        set_conn (sfd cl) (c1\<lparr>c_inbox := drop (unat len - unat (0::u32)) (c_inbox c1), c_reads := c_reads c1 + m\<rparr>)
          (heap_alloc ARecvBuf (set_conn (sfd cl) c1 w)))"
    using recv_loop_progress [OF o1, of "[]" 0 len] more ulen by (auto simp: c1_def)
  show ?thesis
    using client pre loop ulen open_conn_SomeD [OF conn]
    by (auto simp: mobilesync_recv_def c1_def Let_def world_op_defs intro!: exI [of _ "Suc (c_reads c) + m"])
qed
text \<open>
  Sending: one transport write of the 4-byte big-endian length and the encoding, when
  the encoding is shorter than \<open>2^32 - 4\<close> bytes. The encoding buffer stays on the heap.
\<close>

lemma recv_loop_one_read:
  assumes conn: "open_conn fd w = Some c" and rd: "c_rsched c (c_reads c) = RdChunk n"
    and lt: "received < datalen"
    and k: "unat datalen - unat received \<le> n" "unat datalen - unat received \<le> length (c_inbox c)"
  shows "recv_loop fd datalen received IPHONE_E_SUCCESS buf w =
           Some (IPHONE_E_SUCCESS, datalen, buf @ take (unat datalen - unat received) (c_inbox c),
                 set_conn fd (c\<lparr>c_inbox := drop (unat datalen - unat received) (c_inbox c),
                                c_reads := Suc (c_reads c)\<rparr>) w)"
proof -
  define j where "j = unat datalen - unat received"
  have sub: "unat (datalen - received) = j" using lt by (simp add: j_def unat_sub less_imp_le)
  have recv: "usbmuxd_recv fd j w = (0, take j (c_inbox c),
      set_conn fd (c\<lparr>c_inbox := drop j (c_inbox c), c_reads := Suc (c_reads c)\<rparr>) w)"
    using usbmuxd_recv_open [OF conn rd, of j] k by (simp add: j_def min_def)
  have len: "length (take j (c_inbox c)) = j" using k by (simp add: j_def)
  have "unat received + j \<le> unat datalen" using lt by (simp add: j_def word_less_nat_alt)
  then have "unat (received + of_nat j) = unat datalen"
    using unat_add_of_nat_le [of received j datalen] lt by (simp add: j_def word_less_nat_alt)
  then have fin: "received + of_nat j = datalen" by (simp add: word_unat_eq_iff)
  show ?thesis
    using recv sub len fin lt
    by (simp add: recv_loop.simps [of fd datalen received] recv_loop.simps [of fd datalen datalen]
        IPHONE_E_SUCCESS_def j_def)
qed
text \<open>
  With a first read of at least four bytes and a second read at least as large as a
  non-empty payload, a frame takes exactly two reads.
\<close>

lemma mobilesync_recv_frame_two_reads:
  assumes client: "w_clients w a = Some cl" and conn: "open_conn (sfd cl) w = Some c"
    and inbox: "c_inbox c = frame payload @ rest"
    and small: "length payload < 2 ^ 32" and nonempty: "payload \<noteq> []"
    and first: "c_rsched c (c_reads c) = RdChunk n" "4 \<le> n"
    and second: "c_rsched c (Suc (c_reads c)) = RdChunk k" "length payload \<le> k"
  shows "\<exists>w'. mobilesync_recv cd (Some a) (Some None) w = Returns (IPHONE_E_SUCCESS, Some (from_bin cd payload), w') \<and>
           open_conn (sfd cl) w' = Some (c\<lparr>c_inbox := rest, c_reads := Suc (Suc (c_reads c))\<rparr>) \<and>
           w_clients w' = w_clients w \<and>
           w_heap w' = w_heap w + (if from_bin cd payload = None then {#} else {#APlist#})"
proof -
  define len :: u32 where "len = of_nat (length payload)"
  define c1 where "c1 = c\<lparr>c_inbox := payload @ rest, c_reads := Suc (c_reads c)\<rparr>"
  have pre: "recv_prefix (sfd cl) w = (IPHONE_E_SUCCESS, len, set_conn (sfd cl) c1 w)"
    using recv_prefix_whole [OF conn first] inbox by (simp add: len_def c1_def frame_def)
  have ulen: "unat len = length payload" using small by (simp add: len_def unat_of_nat_u32)
  have pos: "0 < len" using ulen nonempty by (simp add: word_less_nat_alt)
  have o1: "open_conn (sfd cl) (heap_alloc ARecvBuf (set_conn (sfd cl) c1 w)) = Some c1"
    using open_conn_set_conn_open [OF conn] by (simp add: c1_def)
  have loop: "recv_loop (sfd cl) len 0 IPHONE_E_SUCCESS [] (heap_alloc ARecvBuf (set_conn (sfd cl) c1 w)) =
      Some (IPHONE_E_SUCCESS, len, [] @ take (unat len - unat (0::u32)) (c_inbox c1),
        set_conn (sfd cl) (c1\<lparr>c_inbox := drop (unat len - unat (0::u32)) (c_inbox c1), c_reads := Suc (c_reads c1)\<rparr>)
          (heap_alloc ARecvBuf (set_conn (sfd cl) c1 w)))"
    using recv_loop_one_read [OF o1, where n = k and received = 0 and datalen = len and buf = "[]"] second pos ulen
    by (simp add: c1_def)
  show ?thesis
    using client pre loop ulen open_conn_SomeD [OF conn]
    by (auto simp: mobilesync_recv_def c1_def Let_def world_op_defs)
qed
lemma send_query_frame:
  "length content < 2 ^ 32 \<Longrightarrow> send_query (of_nat (length content)) content =
     be32_bytes (of_nat (length content)) @ content"
  by (simp add: send_query_def unat_of_nat)

lemma mobilesync_send_effect:
  assumes client: "w_clients w a = Some cl" and conn: "open_conn (sfd cl) w = Some c"
    and small: "length (to_bin cd p) < 2 ^ 32 - 4"
  shows "mobilesync_send cd (Some a) (Some p) w =
           Returns (if c_wsched c (c_writes c) = 0 then IPHONE_E_SUCCESS else c_wsched c (c_writes c),
             set_conn (sfd cl) (c\<lparr>c_writes := Suc (c_writes c),
                 c_sent := c_sent c @ (if c_wsched c (c_writes c) = 0
                                         then [frame (to_bin cd p)] else [])\<rparr>)
               (w\<lparr>w_heap := w_heap w + {#ABinBuf#},
                  w_log := w_log w @ [LogPlist ''mobilesync_send'' (Some p)]\<rparr>))"
proof -
  have nowrap: "\<not> unat (of_nat (length (to_bin cd p)) + 4 :: u32) < unat (of_nat (length (to_bin cd p)) :: u32) + 4"
    using u32_add4_wraps [of "of_nat (length (to_bin cd p))"] small by (simp add: unat_of_nat)
  show ?thesis
    using client open_conn_SomeD [OF conn] nowrap small
    by (auto simp: mobilesync_send_def usbmuxd_send_def world_op_defs Let_def send_query_frame
        IPHONE_E_SUCCESS_def frame_def)
qed
text \<open>A failing first read: the status comes back, nothing is decoded, every block is freed.\<close>

lemma mobilesync_recv_fail_first:
  assumes client: "w_clients w a = Some cl" and conn: "open_conn (sfd cl) w = Some c"
    and fail: "c_rsched c (c_reads c) = RdFail e" "e \<noteq> IPHONE_E_SUCCESS"
  shows "mobilesync_recv cd (Some a) (Some None) w =
           Returns (e, Some None, set_conn (sfd cl) (c\<lparr>c_reads := Suc (c_reads c)\<rparr>) w)"
proof -
  have pre: "recv_prefix (sfd cl) w = (e, 0, set_conn (sfd cl) (c\<lparr>c_reads := Suc (c_reads c)\<rparr>) w)"
    using usbmuxd_recv_fail [OF conn fail(1), of 4] by (simp add: recv_prefix_def be32_word_def numeral_eq_Suc)
  have loop: "recv_loop (sfd cl) 0 0 e [] W = Some (e, 0, [], W)" for W
    by (simp add: recv_loop.simps)
  show ?thesis
    using client pre loop fail(2) by (simp add: mobilesync_recv_def world_op_defs)
qed
subsection \<open>Reads of a fixed size\<close>

text \<open>
  The exit on a failed read, and the exact number of reads when the transport hands
  over \<open>k\<close> bytes per read: \<open>\<lceil>d / k\<rceil>\<close>, \<open>d\<close> the bytes still missing.
\<close>

lemma recv_loop_fail:
  assumes conn: "open_conn fd w = Some c" and rd: "c_rsched c (c_reads c) = RdFail e"
    and err: "e \<noteq> IPHONE_E_SUCCESS" and lt: "received < datalen"
  shows "recv_loop fd datalen received IPHONE_E_SUCCESS buf w =
           Some (e, received, buf, set_conn fd (c\<lparr>c_reads := Suc (c_reads c)\<rparr>) w)"
  using usbmuxd_recv_fail [OF conn rd, of "unat (datalen - received)"] err lt
  by (simp add: recv_loop.simps [of fd datalen received] recv_loop.simps [of fd datalen received e])

lemma recv_loop_fixed_chunks:
  assumes "open_conn fd w = Some c" and "length buf = unat received" and "received \<le> datalen"
    and "unat datalen - unat received \<le> length (c_inbox c)"
    and "\<forall>i\<ge>c_reads c. c_rsched c i = RdChunk k" and "0 < k"
  shows "recv_loop fd datalen received IPHONE_E_SUCCESS buf w =
           Some (IPHONE_E_SUCCESS, datalen, buf @ take (unat datalen - unat received) (c_inbox c),
                 set_conn fd (c\<lparr>c_inbox := drop (unat datalen - unat received) (c_inbox c),
                   c_reads := c_reads c + (unat datalen - unat received + k - 1) div k\<rparr>) w)"
  using assms
proof (induction "unat datalen - unat received" arbitrary: received buf c w rule: less_induct)
  case less
  show ?case
  proof (cases "received < datalen")
    case False
    with less.prems(3) have "received = datalen" by simp
    then show ?thesis
      using less.prems(1,6) by (simp add: recv_loop.simps set_conn_same)
  next
    case True
    define d where "d = unat datalen - unat received"
    define j where "j = min k d"
    define c1 where "c1 = c\<lparr>c_inbox := drop j (c_inbox c), c_reads := Suc (c_reads c)\<rparr>"
    have d_pos: "0 < d" using True by (simp add: d_def word_less_nat_alt)
    have j: "0 < j" "j \<le> d" using d_pos less.prems(6) by (auto simp: j_def)
    have step: "recv_loop fd datalen received IPHONE_E_SUCCESS buf w =
        recv_loop fd datalen (received + of_nat j) IPHONE_E_SUCCESS (buf @ take j (c_inbox c)) (set_conn fd c1 w)"
      using recv_loop_step [OF less.prems(1) _ True, of k] less.prems(4,5) j
      by (simp add: j_def d_def c1_def)
    have urec: "unat (received + of_nat j) = unat received + j"
      using j less.prems(3) by (intro unat_add_of_nat_le [where d = datalen]) (simp add: d_def word_le_nat_alt)
    have o1: "open_conn fd (set_conn fd c1 w) = Some c1"
      using open_conn_SomeD [OF less.prems(1)] by (simp add: c1_def)
    have IH: "recv_loop fd datalen (received + of_nat j) IPHONE_E_SUCCESS (buf @ take j (c_inbox c)) (set_conn fd c1 w) =
        Some (IPHONE_E_SUCCESS, datalen, (buf @ take j (c_inbox c)) @ take (d - j) (c_inbox c1),
              set_conn fd (c1\<lparr>c_inbox := drop (d - j) (c_inbox c1),
                c_reads := c_reads c1 + (d - j + k - 1) div k\<rparr>) (set_conn fd c1 w))"
    proof -
      have "unat datalen - unat (received + of_nat j) < unat datalen - unat received"
        using urec j by (simp add: d_def)
      moreover have "received + of_nat j \<le> datalen"
        using urec j by (simp add: word_le_nat_alt d_def)
      ultimately show ?thesis
        using less.hyps [where received = "received + of_nat j" and buf = "buf @ take j (c_inbox c)" and c = c1 and w = "set_conn fd c1 w"]
          o1 less.prems(2,4,5,6) urec j by (simp add: d_def c1_def)
    qed
    have tk: "take j (c_inbox c) @ take (d - j) (drop j (c_inbox c)) = take d (c_inbox c)"
      using j take_add [of j "d - j" "c_inbox c"] by simp
    have cnt: "c_reads c + (unat datalen - unat received + k - 1) div k = Suc (c_reads c + (d - j + k - 1) div k)"
      using chunk_count_step [OF less.prems(6) d_pos] by (simp add: j_def d_def)
    show ?thesis
      unfolding cnt using step IH tk j by (simp add: c1_def d_def [symmetric])
  qed
qed

subsection \<open>What the loop consumes\<close>

text \<open>
  Every byte the loop appends to its buffer is taken from the front of the inbox, and
  nothing else is taken; reads that succeed with zero bytes change nothing but the
  read count.
\<close>

lemma usbmuxd_recv_consumes:
  "usbmuxd_recv fd n w = (r, bs, w') \<Longrightarrow> w_conns w fd = Some c \<Longrightarrow>
     \<exists>c'. w_conns w' fd = Some c' \<and> c_inbox c = bs @ c_inbox c'"
  by (auto simp: usbmuxd_recv_def open_conn_def set_conn_def Let_def split: option.splits if_splits rd_event.splits)

lemma recv_loop_consumes:
  assumes loop: "recv_loop fd datalen received ret buf w = Some (ret', r', buf', w')"
    and conn: "w_conns w fd = Some c"
  shows "\<exists>c' bs. w_conns w' fd = Some c' \<and> buf' = buf @ bs \<and> c_inbox c = bs @ c_inbox c'"
proof (rule recv_loop_invariant [where I = "\<lambda>_ b v. \<exists>c' bs. w_conns v fd = Some c' \<and> b = buf @ bs \<and> c_inbox c = bs @ c_inbox c'", OF _ loop])
  fix received' b v ret1 ret2 bs2 v'
  assume "\<exists>c' bs. w_conns v fd = Some c' \<and> b = buf @ bs \<and> c_inbox c = bs @ c_inbox c'"
    and rd: "usbmuxd_recv fd (unat (datalen - received')) v = (ret2, bs2, v')"
  then obtain c' bs where c': "w_conns v fd = Some c'" "b = buf @ bs" "c_inbox c = bs @ c_inbox c'" by blast
  obtain c'' where "w_conns v' fd = Some c''" "c_inbox c' = bs2 @ c_inbox c''"
    using usbmuxd_recv_consumes [OF rd c'(1)] by blast
  with c' show "\<exists>c' bs. w_conns v' fd = Some c' \<and> b @ bs2 = buf @ bs \<and> c_inbox c = bs @ c_inbox c'"
    by (intro exI [of _ c''] exI [of _ "bs @ bs2"]) simp
qed (use conn in auto)

lemma recv_loop_zero_reads:
  assumes conn: "open_conn fd w = Some c" and lt: "received < datalen"
    and zeros: "\<forall>i<z. c_rsched c (c_reads c + i) = RdChunk 0"
  shows "recv_loop fd datalen received IPHONE_E_SUCCESS buf w =
           recv_loop fd datalen received IPHONE_E_SUCCESS buf (set_conn fd (c\<lparr>c_reads := c_reads c + z\<rparr>) w)"
  using conn zeros
proof (induction z arbitrary: c w)
  case 0
  then show ?case by (simp add: set_conn_same)
next
  case (Suc z)
  define c1 where "c1 = c\<lparr>c_reads := Suc (c_reads c)\<rparr>"
  have rd: "c_rsched c (c_reads c) = RdChunk 0" using Suc.prems(2) by (metis add_0_right zero_less_Suc)
  have step: "recv_loop fd datalen received IPHONE_E_SUCCESS buf w =
      recv_loop fd datalen received IPHONE_E_SUCCESS buf (set_conn fd c1 w)"
    using recv_loop_step [OF Suc.prems(1) rd lt, of buf] by (simp add: c1_def)
  have o1: "open_conn fd (set_conn fd c1 w) = Some c1"
    using open_conn_SomeD [OF Suc.prems(1)] by (simp add: c1_def open_conn_def set_conn_def)
  have z1: "\<forall>i<z. c_rsched c1 (c_reads c1 + i) = RdChunk 0"
  proof (intro allI impI)
    fix i assume "i < z"
    then show "c_rsched c1 (c_reads c1 + i) = RdChunk 0"
      using Suc.prems(2) [rule_format, of "Suc i"] by (simp add: c1_def)
  qed
  show ?case
    using step Suc.IH [OF o1 z1] by (simp add: c1_def set_conn_def)
qed

subsection \<open>Properties\<close>

text \<open>
  C1. Receiving reassembles a frame: when the 4-byte length prefix arrives in the first
  read and the payload in reads of any positive size, \<open>mobilesync_recv\<close> returns
  success with the decoding of exactly the announced payload, and the bytes after the
  frame stay unread in the connection.
\<close>

theorem recv_reassembles_frame:
  assumes "w_clients w a = Some cl" and "open_conn (sfd cl) w = Some c"
    and "c_inbox c = frame payload @ rest"
    and "length payload < 2 ^ 32"
    and "c_rsched c (c_reads c) = RdChunk n" and "4 \<le> n"
    and "\<forall>i>c_reads c. \<exists>k>0. c_rsched c i = RdChunk k"
  shows "\<exists>w' c'. mobilesync_recv cd (Some a) (Some None) w =
                  Returns (IPHONE_E_SUCCESS, Some (from_bin cd payload), w') \<and>
                open_conn (sfd cl) w' = Some c' \<and> c_inbox c' = rest"
  using mobilesync_recv_frame [OF assms] by fastforce

theorem recv_reassembles_frame_witness:
  "w_clients (empty_world\<lparr>w_conns := [3 \<mapsto> fresh_conn (frame [7, 8, 9] @ [1]) (\<lambda>i. RdChunk (if i = 0 then 4 else 1)) (\<lambda>_. 0)],
                          w_clients := [0 \<mapsto> \<lparr>sfd = 3\<rparr>]\<rparr>) 0 = Some \<lparr>sfd = 3\<rparr> \<and>
   (\<exists>w' c'. mobilesync_recv \<lparr>to_bin = (\<lambda>_. []), from_bin = (\<lambda>bs. Some (PData bs))\<rparr> (Some 0) (Some None)
        (empty_world\<lparr>w_conns := [3 \<mapsto> fresh_conn (frame [7, 8, 9] @ [1]) (\<lambda>i. RdChunk (if i = 0 then 4 else 1)) (\<lambda>_. 0)],
                     w_clients := [0 \<mapsto> \<lparr>sfd = 3\<rparr>]\<rparr>) =
      Returns (IPHONE_E_SUCCESS, Some (Some (PData [7, 8, 9])), w') \<and>
      open_conn 3 w' = Some c' \<and> c_inbox c' = [1])"
  using recv_reassembles_frame [where payload = "[7, 8, 9]" and rest = "[1]" and n = 4 and
      cd = "\<lparr>to_bin = (\<lambda>_. []), from_bin = (\<lambda>bs. Some (PData bs))\<rparr>" and a = 0 and cl = "\<lparr>sfd = 3\<rparr>"
      and c = "fresh_conn (frame [7, 8, 9] @ [1]) (\<lambda>i. RdChunk (if i = 0 then 4 else 1)) (\<lambda>_. 0)"]
  by (simp add: empty_world_def fresh_conn_def open_conn_def frame_def)

text \<open>
  C2. Sending writes exactly one frame: for an encoding shorter than \<open>2^32 - 4\<close> bytes
  and a transport that accepts the write, \<open>mobilesync_send\<close> succeeds and the
  connection has received one more buffer, the 4-byte big-endian length of the
  encoding followed by the encoding; nothing is read.
\<close>

theorem send_writes_one_frame:
  assumes "w_clients w a = Some cl" and "open_conn (sfd cl) w = Some c"
    and "length (to_bin cd p) < 2 ^ 32 - 4" and "c_wsched c (c_writes c) = 0"
  shows "\<exists>w' c'. mobilesync_send cd (Some a) (Some p) w = Returns (IPHONE_E_SUCCESS, w') \<and>
           open_conn (sfd cl) w' = Some c' \<and>
           c_sent c' = c_sent c @ [frame (to_bin cd p)] \<and>
           c_inbox c' = c_inbox c"
  using mobilesync_send_effect [OF assms(1-3)] assms(4) open_conn_SomeD [OF assms(2)]
  by (simp add: world_op_defs)

theorem send_writes_one_frame_witness:
  "\<exists>w' c'. mobilesync_send \<lparr>to_bin = (\<lambda>_. [5, 6]), from_bin = (\<lambda>_. None)\<rparr> (Some 0) (Some (PBoolean True))
        (empty_world\<lparr>w_conns := [3 \<mapsto> fresh_conn [] (\<lambda>_. RdChunk 1) (\<lambda>_. 0)], w_clients := [0 \<mapsto> \<lparr>sfd = 3\<rparr>]\<rparr>) =
      Returns (IPHONE_E_SUCCESS, w') \<and> open_conn 3 w' = Some c' \<and> c_sent c' = [frame [5, 6]] \<and> c_inbox c' = []"
  using send_writes_one_frame [where cd = "\<lparr>to_bin = (\<lambda>_. [5, 6]), from_bin = (\<lambda>_. None)\<rparr>" and a = 0
      and cl = "\<lparr>sfd = 3\<rparr>" and p = "PBoolean True" and c = "fresh_conn [] (\<lambda>_. RdChunk 1) (\<lambda>_. 0)"
      and w = "empty_world\<lparr>w_conns := [3 \<mapsto> fresh_conn [] (\<lambda>_. RdChunk 1) (\<lambda>_. 0)], w_clients := [0 \<mapsto> \<lparr>sfd = 3\<rparr>]\<rparr>"]
  by (simp add: empty_world_def fresh_conn_def open_conn_def)

text \<open>
  C9. The receive loop terminates when the transport makes progress: if the device has
  sent the bytes still missing and every read from now on either fails with a non-zero
  status or hands over at least one byte, \<open>recv_loop\<close> returns.
\<close>

theorem recv_loop_terminates:
  assumes "open_conn fd w = Some c" and "loop_inv datalen received buf"
    and "unat datalen - unat received \<le> length (c_inbox c)"
    and "\<forall>i\<ge>c_reads c. c_rsched c i \<noteq> RdChunk 0 \<and> c_rsched c i \<noteq> RdFail 0"
  shows "recv_loop fd datalen received ret buf w \<noteq> None"
  using assms
proof (induction "unat datalen - unat received" arbitrary: received buf c w ret rule: less_induct)
  case less
  show ?case
  proof (cases "received < datalen \<and> ret = IPHONE_E_SUCCESS")
    case False
    then have "recv_loop fd datalen received ret buf w = Some (ret, received, buf, w)"
      by (subst recv_loop.simps) (simp only: if_not_P [OF False] if_False)
    then show ?thesis by simp
  next
    case True
    define k where "k = unat datalen - unat received"
    have sub: "unat (datalen - received) = k"
      using True by (simp add: k_def unat_sub less_imp_le)
    have kpos: "0 < k" using True by (simp add: k_def word_less_nat_alt)
    show ?thesis
    proof (cases "c_rsched c (c_reads c)")
      case (RdFail e)
      with less.prems(4) have "e \<noteq> 0" by auto
      then show ?thesis
        using True usbmuxd_recv_fail [OF less.prems(1) RdFail, of k] sub
        by (simp add: recv_loop.simps [of fd datalen received] recv_loop.simps [of fd datalen received e]
            IPHONE_E_SUCCESS_def)
    next
      case (RdChunk n)
      with less.prems(4) have n: "0 < n" by auto
      define j where "j = min n k"
      define c1 where "c1 = c\<lparr>c_inbox := drop j (c_inbox c), c_reads := Suc (c_reads c)\<rparr>"
      have rd: "usbmuxd_recv fd k w = (0, take j (c_inbox c), set_conn fd c1 w)"
        using usbmuxd_recv_open [OF less.prems(1) RdChunk, of k] by (simp add: j_def c1_def)
      have lenj: "length (take j (c_inbox c)) = j" using less.prems(3) by (simp add: j_def k_def)
      have inv1: "loop_inv datalen (received + of_nat j) (buf @ take j (c_inbox c))"
        using recv_step_inv [OF rd [folded sub]] True less.prems(2) lenj by simp
      have u: "unat (received + of_nat j) = unat received + j"
        using inv1 less.prems(2) lenj by (simp add: loop_inv_def)
      have o1: "open_conn fd (set_conn fd c1 w) = Some c1"
        using open_conn_set_conn_open [OF less.prems(1)] by (simp add: c1_def)
      have "recv_loop fd datalen (received + of_nat j) 0 (buf @ take j (c_inbox c)) (set_conn fd c1 w) \<noteq> None"
      proof (rule less.hyps [OF _ o1 inv1])
        show "unat datalen - unat (received + of_nat j) < unat datalen - unat received"
          using u n kpos by (simp add: j_def k_def)
        show "unat datalen - unat (received + of_nat j) \<le> length (c_inbox c1)"
          using u less.prems(3) by (auto simp: c1_def j_def k_def min_def)
        show "\<forall>i\<ge>c_reads c1. c_rsched c1 i \<noteq> RdChunk 0 \<and> c_rsched c1 i \<noteq> RdFail 0"
          using less.prems(4) by (simp add: c1_def)
      qed
      then show ?thesis
        using True rd sub lenj by (simp add: recv_loop.simps [of fd datalen received])
    qed
  qed
qed
theorem recv_loop_terminates_witness:
  "recv_loop 3 3 0 IPHONE_E_SUCCESS [] (empty_world\<lparr>w_conns := [3 \<mapsto> fresh_conn [7, 8, 9] (\<lambda>i. if i = 0 then RdFail (-4) else RdChunk 1) (\<lambda>_. 0)], w_clients := [0 \<mapsto> \<lparr>sfd = 3\<rparr>]\<rparr>) \<noteq> None"
  using recv_loop_terminates [of 3 "empty_world\<lparr>w_conns := [3 \<mapsto> fresh_conn [7, 8, 9] (\<lambda>i. if i = 0 then RdFail (-4) else RdChunk 1) (\<lambda>_. 0)], w_clients := [0 \<mapsto> \<lparr>sfd = 3\<rparr>]\<rparr>" "fresh_conn [7, 8, 9] (\<lambda>i. if i = 0 then RdFail (-4) else RdChunk 1) (\<lambda>_. 0)" 3 0 "[]" IPHONE_E_SUCCESS]
  by (simp add: open_conn_def fresh_conn_def empty_world_def loop_inv_def)

text \<open>
  C10. Receiving blocks forever when the device stops short: if the length prefix
  announces \<open>N\<close> bytes, fewer arrive, and the transport keeps answering reads without
  an error (handing over zero bytes), \<open>mobilesync_recv\<close> never returns; the code has no
  timeout.
\<close>

theorem recv_blocks_on_short_peer:
  assumes client: "w_clients w a = Some cl" and conn: "open_conn (sfd cl) w = Some c"
    and inbox: "c_inbox c = be32_bytes (of_nat N) @ partial" and N: "N < 2 ^ 32" and short: "length partial < N"
    and first: "c_rsched c (c_reads c) = RdChunk n" "4 \<le> n"
    and quiet: "\<forall>i. \<exists>k. c_rsched c i = RdChunk k"
  shows "mobilesync_recv cd (Some a) (Some None) w = Diverges"
proof -
  define c1 where "c1 = c\<lparr>c_inbox := partial, c_reads := Suc (c_reads c)\<rparr>"
  have pre: "recv_prefix (sfd cl) w = (IPHONE_E_SUCCESS, of_nat N, set_conn (sfd cl) c1 w)"
    using recv_prefix_whole [OF conn first inbox] by (simp add: c1_def)
  have o1: "open_conn (sfd cl) (heap_alloc ARecvBuf (set_conn (sfd cl) c1 w)) = Some c1"
    using open_conn_set_conn_open [OF conn] by (simp add: c1_def)
  have "starving (sfd cl) (of_nat N) 0 IPHONE_E_SUCCESS [] (heap_alloc ARecvBuf (set_conn (sfd cl) c1 w))"
    unfolding starving_def using o1 N short quiet by (auto simp: loop_inv_def c1_def unat_of_nat)
  then have "recv_loop (sfd cl) (of_nat N) 0 IPHONE_E_SUCCESS [] (heap_alloc ARecvBuf (set_conn (sfd cl) c1 w)) = None"
    by (rule recv_loop_starves)
  then show ?thesis using client pre by (simp add: mobilesync_recv_def)
qed

theorem recv_blocks_on_short_peer_witness:
  "mobilesync_recv \<lparr>to_bin = (\<lambda>_. []), from_bin = (\<lambda>_. None)\<rparr> (Some 0) (Some None) (empty_world\<lparr>w_conns := [3 \<mapsto> fresh_conn (be32_bytes 5 @ [1, 2]) (\<lambda>_. RdChunk 4) (\<lambda>_. 0)], w_clients := [0 \<mapsto> \<lparr>sfd = 3\<rparr>]\<rparr>) = Diverges"
  using recv_blocks_on_short_peer [where w = "empty_world\<lparr>w_conns := [3 \<mapsto> fresh_conn (be32_bytes 5 @ [1, 2]) (\<lambda>_. RdChunk 4) (\<lambda>_. 0)], w_clients := [0 \<mapsto> \<lparr>sfd = 3\<rparr>]\<rparr>" and a = 0 and cl = "\<lparr>sfd = 3\<rparr>" and c = "fresh_conn (be32_bytes 5 @ [1, 2]) (\<lambda>_. RdChunk 4) (\<lambda>_. 0)"
      and N = 5 and partial = "[1, 2]" and n = 4 and cd = "\<lparr>to_bin = (\<lambda>_. []), from_bin = (\<lambda>_. None)\<rparr>"]
  by (simp add: open_conn_def fresh_conn_def empty_world_def)

text \<open>
  C11. The receive counter stays within the frame: started with an empty buffer at
  count 0, the loop returns with \<open>received_bytes\<close> equal to the number of bytes in the
  buffer and at most \<open>datalen\<close>, and the bytes already in the buffer are never
  overwritten; so the \<open>uint32_t\<close> counter never wraps and the loop never writes past
  the \<open>datalen\<close> bytes it allocated.
\<close>

theorem recv_loop_counter_bounded:
  assumes "recv_loop fd datalen 0 ret [] w = Some (ret', received, buf, w')"
  shows "length buf = unat received \<and> received \<le> datalen"
  using recv_loop_inv [OF assms] by (simp add: loop_inv_def)

theorem recv_loop_counter_bounded_witness:
  "recv_loop 3 2 0 IPHONE_E_SUCCESS [] (empty_world\<lparr>w_conns := [3 \<mapsto> fresh_conn [7, 8] (\<lambda>_. RdChunk 1) (\<lambda>_. 0)], w_clients := [0 \<mapsto> \<lparr>sfd = 3\<rparr>]\<rparr>) = Some (IPHONE_E_SUCCESS, 2, [7, 8], empty_world\<lparr>w_conns := [3 \<mapsto> (fresh_conn [] (\<lambda>_. RdChunk 1) (\<lambda>_. 0))\<lparr>c_reads := Suc (Suc 0)\<rparr>], w_clients := [0 \<mapsto> \<lparr>sfd = 3\<rparr>]\<rparr>) \<and>
   length [7, 8 :: byte] = unat (2 :: u32) \<and> (2 :: u32) \<le> 2"
proof -
  have run: "recv_loop 3 2 0 IPHONE_E_SUCCESS [] (empty_world\<lparr>w_conns := [3 \<mapsto> fresh_conn [7, 8] (\<lambda>_. RdChunk 1) (\<lambda>_. 0)], w_clients := [0 \<mapsto> \<lparr>sfd = 3\<rparr>]\<rparr>) = Some (IPHONE_E_SUCCESS, 2, [7, 8], empty_world\<lparr>w_conns := [3 \<mapsto> (fresh_conn [] (\<lambda>_. RdChunk 1) (\<lambda>_. 0))\<lparr>c_reads := Suc (Suc 0)\<rparr>], w_clients := [0 \<mapsto> \<lparr>sfd = 3\<rparr>]\<rparr>)"
    by (simp add: recv_loop.simps usbmuxd_recv_def open_conn_def set_conn_def fresh_conn_def
        empty_world_def IPHONE_E_SUCCESS_def)
  show ?thesis using run recv_loop_counter_bounded [OF run] by simp
qed

text \<open>
  C12. A receive never reads past its own frame, whatever the transport does: once
  the length prefix of a frame of \<open>N\<close> bytes has arrived in the first read, every
  return of \<open>mobilesync_recv\<close>, with success or with an error, leaves the stream at
  some position \<open>k \<le> N\<close> inside that payload, so the next frame is never touched.
  Each read asks for \<open>datalen - received_bytes\<close> (line 149), never more.
\<close>

theorem recv_never_overreads:
  assumes client: "w_clients w a = Some cl" and conn: "open_conn (sfd cl) w = Some c"
    and inbox: "c_inbox c = frame payload @ rest" and small: "length payload < 2 ^ 32"
    and first: "c_rsched c (c_reads c) = RdChunk n" "4 \<le> n"
    and run: "mobilesync_recv cd (Some a) (Some None) w = Returns (r, s, w')"
  shows "\<exists>k c'. k \<le> length payload \<and> w_conns w' (sfd cl) = Some c' \<and> c_inbox c' = drop k payload @ rest"
proof -
  define len :: u32 where "len = of_nat (length payload)"
  define c1 where "c1 = c\<lparr>c_inbox := payload @ rest, c_reads := Suc (c_reads c)\<rparr>"
  define W1 where "W1 = heap_alloc ARecvBuf (set_conn (sfd cl) c1 w)"
  have pre: "recv_prefix (sfd cl) w = (IPHONE_E_SUCCESS, len, set_conn (sfd cl) c1 w)"
    using recv_prefix_whole [OF conn first] inbox by (simp add: len_def c1_def frame_def)
  have ulen: "unat len = length payload" using small by (simp add: len_def unat_of_nat_u32)
  obtain ret2 rcv buf w2 where loop: "recv_loop (sfd cl) len 0 IPHONE_E_SUCCESS [] W1 = Some (ret2, rcv, buf, w2)"
      and conns: "w_conns w' = w_conns w2"
    using run client pre
    by (auto simp: mobilesync_recv_def Let_def world_op_defs W1_def split: if_splits)
  have "w_conns W1 (sfd cl) = Some c1" by (simp add: W1_def heap_alloc_def set_conn_def)
  then obtain c' bs where c': "w_conns w2 (sfd cl) = Some c'" "buf = bs" "payload @ rest = bs @ c_inbox c'"
    using recv_loop_consumes [OF loop] by (auto simp: c1_def)
  have "length buf \<le> length payload"
    using recv_loop_inv [OF loop] ulen by (simp add: loop_inv_def word_le_nat_alt)
  then have "c_inbox c' = drop (length bs) payload @ rest" and "length bs \<le> length payload"
    using c' by (metis append_eq_append_conv_if drop_append diff_is_0_eq drop_0 append_Nil, simp)
  with c' conns show ?thesis by metis
qed


theorem recv_never_overreads_witness:
  "\<exists>r s w'. mobilesync_recv \<lparr>to_bin = (\<lambda>_. []), from_bin = (\<lambda>_. None)\<rparr> (Some 0) (Some None) (empty_world\<lparr>w_conns := [3 \<mapsto> fresh_conn (frame [7, 8] @ [5]) (\<lambda>i. if i = 0 then RdChunk 4 else RdChunk 1) (\<lambda>_. 0)], w_clients := [0 \<mapsto> \<lparr>sfd = 3\<rparr>]\<rparr>) = Returns (r, s, w') \<and>
     (\<exists>k c'. k \<le> length [7, 8 :: byte] \<and> w_conns w' 3 = Some c' \<and> c_inbox c' = drop k [7, 8] @ [5])"
proof -
  obtain w' where run: "mobilesync_recv \<lparr>to_bin = (\<lambda>_. []), from_bin = (\<lambda>_. None)\<rparr> (Some 0) (Some None) (empty_world\<lparr>w_conns := [3 \<mapsto> fresh_conn (frame [7, 8] @ [5]) (\<lambda>i. if i = 0 then RdChunk 4 else RdChunk 1) (\<lambda>_. 0)], w_clients := [0 \<mapsto> \<lparr>sfd = 3\<rparr>]\<rparr>) = Returns (IPHONE_E_SUCCESS, Some None, w')"
    using mobilesync_recv_frame [where cd = "\<lparr>to_bin = (\<lambda>_. []), from_bin = (\<lambda>_. None)\<rparr>" and a = 0 and cl = "\<lparr>sfd = 3\<rparr>" and w = "empty_world\<lparr>w_conns := [3 \<mapsto> fresh_conn (frame [7, 8] @ [5]) (\<lambda>i. if i = 0 then RdChunk 4 else RdChunk 1) (\<lambda>_. 0)], w_clients := [0 \<mapsto> \<lparr>sfd = 3\<rparr>]\<rparr>"
        and c = "fresh_conn (frame [7, 8] @ [5]) (\<lambda>i. if i = 0 then RdChunk 4 else RdChunk 1) (\<lambda>_. 0)" and payload = "[7, 8]" and rest = "[5]" and n = 4]
    by (auto simp: empty_world_def fresh_conn_def open_conn_def)
  have "\<exists>k c'. k \<le> length [7, 8 :: byte] \<and> w_conns w' 3 = Some c' \<and> c_inbox c' = drop k [7, 8] @ [5]"
    using recv_never_overreads [where cl = "\<lparr>sfd = 3\<rparr>" and payload = "[7, 8]" and rest = "[5]" and c = "fresh_conn (frame [7, 8] @ [5]) (\<lambda>i. if i = 0 then RdChunk 4 else RdChunk 1) (\<lambda>_. 0)" and n = 4, OF _ _ _ _ _ _ run]
    by (simp add: empty_world_def fresh_conn_def open_conn_def)
  with run show ?thesis by blast
qed

text \<open>
  C13. A length prefix split across reads is misread: the prefix is read once and not
  retried, so when the first read hands over a single byte of the prefix of a frame
  shorter than \<open>2^24\<close> bytes, \<open>datalen\<close> is 0, \<open>mobilesync_recv\<close> returns success with
  the decoding of the empty buffer, and the other three prefix bytes and the payload
  stay in the stream to be read as the next frame. The spec requires the prefix to be
  reassembled like the payload.
\<close>

theorem recv_short_prefix_misreads:
  assumes client: "w_clients w a = Some cl" and conn: "open_conn (sfd cl) w = Some c"
    and inbox: "c_inbox c = frame payload @ rest" and small: "length payload < 2 ^ 24"
    and first: "c_rsched c (c_reads c) = RdChunk 1"
  shows "\<exists>w'. mobilesync_recv cd (Some a) (Some None) w = Returns (IPHONE_E_SUCCESS, Some (from_bin cd []), w') \<and>
           open_conn (sfd cl) w' = Some (c\<lparr>c_inbox := tl (frame payload @ rest), c_reads := Suc (c_reads c)\<rparr>)"
proof -
  have hd0: "hd (frame payload) = 0"
    using be32_bytes_small_first [OF small] by (simp add: frame_def be32_bytes_def)
  obtain t where t: "frame payload @ rest = 0 # t"
  proof -
    have "frame payload \<noteq> []" by (simp add: frame_def be32_bytes_def)
    then show thesis using hd0 that by (cases "frame payload") auto
  qed
  define c1 where "c1 = c\<lparr>c_inbox := t, c_reads := Suc (c_reads c)\<rparr>"
  have rd: "usbmuxd_recv (sfd cl) 4 w = (0, [0], set_conn (sfd cl) c1 w)"
    using usbmuxd_recv_open [OF conn first, of 4] inbox t by (simp add: c1_def)
  have "be32_word ([0] @ replicate (4 - length [0::byte]) 0) = 0"
    by (simp add: be32_word_def numeral_eq_Suc)
  then have pre: "recv_prefix (sfd cl) w = (IPHONE_E_SUCCESS, 0, set_conn (sfd cl) c1 w)"
    using rd by (simp add: recv_prefix_def IPHONE_E_SUCCESS_def)
  have loop: "recv_loop (sfd cl) 0 0 IPHONE_E_SUCCESS [] W = Some (IPHONE_E_SUCCESS, 0, [], W)" for W
    by (simp add: recv_loop.simps)
  show ?thesis
    using client pre loop t open_conn_SomeD [OF conn] by (auto simp: mobilesync_recv_def world_op_defs c1_def Let_def)
qed
theorem recv_short_prefix_misreads_witness:
  "\<exists>w'. mobilesync_recv \<lparr>to_bin = (\<lambda>_. []), from_bin = (\<lambda>bs. Some (PData bs))\<rparr> (Some 0) (Some None) (empty_world\<lparr>w_conns := [3 \<mapsto> fresh_conn (frame [7]) (\<lambda>_. RdChunk 1) (\<lambda>_. 0)], w_clients := [0 \<mapsto> \<lparr>sfd = 3\<rparr>]\<rparr>) =
     Returns (IPHONE_E_SUCCESS, Some (Some (PData [])), w') \<and>
     open_conn 3 w' = Some ((fresh_conn (frame [7]) (\<lambda>_. RdChunk 1) (\<lambda>_. 0))\<lparr>c_inbox := [0, 0, 1, 7], c_reads := 1\<rparr>)"
  using recv_short_prefix_misreads [where w = "empty_world\<lparr>w_conns := [3 \<mapsto> fresh_conn (frame [7]) (\<lambda>_. RdChunk 1) (\<lambda>_. 0)], w_clients := [0 \<mapsto> \<lparr>sfd = 3\<rparr>]\<rparr>" and a = 0 and cl = "\<lparr>sfd = 3\<rparr>" and c = "fresh_conn (frame [7]) (\<lambda>_. RdChunk 1) (\<lambda>_. 0)"
      and payload = "[7]" and rest = "[]" and cd = "\<lparr>to_bin = (\<lambda>_. []), from_bin = (\<lambda>bs. Some (PData bs))\<rparr>"]
  by (simp add: open_conn_def fresh_conn_def empty_world_def frame_def be32_bytes_def)

text \<open>
  C14. A failing read returns its status and leaks nothing: when the first read of
  \<open>mobilesync_recv\<close> fails with status \<open>e\<close>, the call returns \<open>e\<close> with \<open>*plist\<close>
  still NULL, the receive buffer freed, nothing logged, and only that one read consumed.
\<close>

theorem recv_read_error_no_leak:
  assumes "w_clients w a = Some cl" and "open_conn (sfd cl) w = Some c"
    and "c_rsched c (c_reads c) = RdFail e" and "e \<noteq> IPHONE_E_SUCCESS"
  shows "\<exists>w'. mobilesync_recv cd (Some a) (Some None) w = Returns (e, Some None, w') \<and>
           w_heap w' = w_heap w \<and> w_log w' = w_log w \<and>
           open_conn (sfd cl) w' = Some (c\<lparr>c_reads := Suc (c_reads c)\<rparr>)"
  using mobilesync_recv_fail_first [OF assms] open_conn_SomeD [OF assms(2)]
  by (simp add: open_conn_def set_conn_def)

theorem recv_read_error_no_leak_witness:
  "\<exists>w'. mobilesync_recv \<lparr>to_bin = (\<lambda>_. []), from_bin = (\<lambda>_. None)\<rparr> (Some 0) (Some None) (empty_world\<lparr>w_conns := [3 \<mapsto> fresh_conn [] (\<lambda>_. RdFail (-5)) (\<lambda>_. 0)], w_clients := [0 \<mapsto> \<lparr>sfd = 3\<rparr>]\<rparr>) =
     Returns (-5, Some None, w') \<and> w_heap w' = {#} \<and> w_log w' = [] \<and> open_conn 3 w' = Some ((fresh_conn [] (\<lambda>_. RdFail (-5)) (\<lambda>_. 0))\<lparr>c_reads := 1\<rparr>)"
  using recv_read_error_no_leak [where w = "empty_world\<lparr>w_conns := [3 \<mapsto> fresh_conn [] (\<lambda>_. RdFail (-5)) (\<lambda>_. 0)], w_clients := [0 \<mapsto> \<lparr>sfd = 3\<rparr>]\<rparr>" and a = 0 and cl = "\<lparr>sfd = 3\<rparr>" and c = "fresh_conn [] (\<lambda>_. RdFail (-5)) (\<lambda>_. 0)" and e = "-5"
      and cd = "\<lparr>to_bin = (\<lambda>_. []), from_bin = (\<lambda>_. None)\<rparr>"]
  by (simp add: open_conn_def fresh_conn_def empty_world_def IPHONE_E_SUCCESS_def)

text \<open>
  C15. A read that succeeds with zero bytes is retried without loss (lines 148--151):
  the loop condition only looks at \<open>received_bytes\<close> and the status, so after the
  prefix any number of empty successful reads followed by one read large enough for
  the payload still return the decoded frame, after exactly that many reads, with the
  next frame left in the stream.
\<close>

theorem recv_zero_reads_retried:
  assumes client: "w_clients w a = Some cl" and conn: "open_conn (sfd cl) w = Some c"
    and inbox: "c_inbox c = frame payload @ rest" and small: "length payload < 2 ^ 32" and nonempty: "payload \<noteq> []"
    and first: "c_rsched c (c_reads c) = RdChunk n" "4 \<le> n"
    and zeros: "\<forall>i<z. c_rsched c (Suc (c_reads c) + i) = RdChunk 0"
    and last: "c_rsched c (Suc (c_reads c) + z) = RdChunk m" "length payload \<le> m"
  shows "\<exists>w'. mobilesync_recv cd (Some a) (Some None) w = Returns (IPHONE_E_SUCCESS, Some (from_bin cd payload), w') \<and>
           open_conn (sfd cl) w' = Some (c\<lparr>c_inbox := rest, c_reads := c_reads c + z + 2\<rparr>)"
proof -
  define len :: u32 where "len = of_nat (length payload)"
  define c1 where "c1 = c\<lparr>c_inbox := payload @ rest, c_reads := Suc (c_reads c)\<rparr>"
  define c2 where "c2 = c1\<lparr>c_reads := c_reads c1 + z\<rparr>"
  define W1 where "W1 = heap_alloc ARecvBuf (set_conn (sfd cl) c1 w)"
  have pre: "recv_prefix (sfd cl) w = (IPHONE_E_SUCCESS, len, set_conn (sfd cl) c1 w)"
    using recv_prefix_whole [OF conn first] inbox by (simp add: len_def c1_def frame_def)
  have ulen: "unat len = length payload" using small by (simp add: len_def unat_of_nat_u32)
  have pos: "0 < len" using ulen nonempty by (simp add: word_less_nat_alt)
  have o1: "open_conn (sfd cl) W1 = Some c1"
    using open_conn_set_conn_open [OF conn] by (simp add: c1_def W1_def)
  have skip: "recv_loop (sfd cl) len 0 IPHONE_E_SUCCESS [] W1 =
      recv_loop (sfd cl) len 0 IPHONE_E_SUCCESS [] (set_conn (sfd cl) c2 W1)"
    using recv_loop_zero_reads [OF o1 pos, of z] zeros by (simp add: c1_def c2_def)
  have o2: "open_conn (sfd cl) (set_conn (sfd cl) c2 W1) = Some c2"
    using open_conn_SomeD [OF o1] by (simp add: c2_def c1_def open_conn_def set_conn_def)
  have one: "recv_loop (sfd cl) len 0 IPHONE_E_SUCCESS [] (set_conn (sfd cl) c2 W1) =
      Some (IPHONE_E_SUCCESS, len, [] @ take (unat len - unat (0::u32)) (c_inbox c2),
        set_conn (sfd cl) (c2\<lparr>c_inbox := drop (unat len - unat (0::u32)) (c_inbox c2), c_reads := Suc (c_reads c2)\<rparr>)
          (set_conn (sfd cl) c2 W1))"
    using recv_loop_one_read [OF o2, where n = m and received = 0 and datalen = len and buf = "[]"] last pos ulen
    by (simp add: c2_def c1_def)
  show ?thesis
    using client pre skip one ulen open_conn_SomeD [OF conn]
    by (auto simp: mobilesync_recv_def c1_def c2_def W1_def Let_def world_op_defs set_conn_def)
qed

theorem recv_zero_reads_retried_witness:
  "\<exists>w'. mobilesync_recv \<lparr>to_bin = (\<lambda>_. []), from_bin = (\<lambda>bs. Some (PData bs))\<rparr> (Some 0) (Some None)
       (empty_world\<lparr>w_conns := [3 \<mapsto> fresh_conn (frame [7] @ [5]) (\<lambda>i. if i = 0 then RdChunk 4 else if i \<le> 2 then RdChunk 0 else RdChunk 1) (\<lambda>_. 0)],
                    w_clients := [0 \<mapsto> \<lparr>sfd = 3\<rparr>]\<rparr>) =
     Returns (IPHONE_E_SUCCESS, Some (Some (PData [7])), w') \<and>
     open_conn 3 w' = Some ((fresh_conn (frame [7] @ [5]) (\<lambda>i. if i = 0 then RdChunk 4 else if i \<le> 2 then RdChunk 0 else RdChunk 1) (\<lambda>_. 0))
                             \<lparr>c_inbox := [5], c_reads := 0 + 2 + 2\<rparr>)"
  using recv_zero_reads_retried [where cd = "\<lparr>to_bin = (\<lambda>_. []), from_bin = (\<lambda>bs. Some (PData bs))\<rparr>" and a = 0 and cl = "\<lparr>sfd = 3\<rparr>"
      and w = "empty_world\<lparr>w_conns := [3 \<mapsto> fresh_conn (frame [7] @ [5]) (\<lambda>i. if i = 0 then RdChunk 4 else if i \<le> 2 then RdChunk 0 else RdChunk 1) (\<lambda>_. 0)],
                    w_clients := [0 \<mapsto> \<lparr>sfd = 3\<rparr>]\<rparr>"
      and c = "fresh_conn (frame [7] @ [5]) (\<lambda>i. if i = 0 then RdChunk 4 else if i \<le> 2 then RdChunk 0 else RdChunk 1) (\<lambda>_. 0)"
      and payload = "[7]" and rest = "[5]" and n = 4 and z = 2 and m = 1]
  by (simp add: empty_world_def fresh_conn_def open_conn_def)

text \<open>
  C16. Every send leaks the encoding buffer: whatever the transport answers, after
  \<open>mobilesync_send\<close> the heap holds exactly one more block, the buffer that
  \<open>plist_to_bin\<close> allocated and the code never frees; the XML text and the frame
  buffer are freed.
\<close>

theorem send_leaks_encoding_buffer:
  assumes "w_clients w a = Some cl" and "open_conn (sfd cl) w = Some c"
    and "length (to_bin cd p) < 2 ^ 32 - 4"
  shows "\<exists>st w'. mobilesync_send cd (Some a) (Some p) w = Returns (st, w') \<and> w_heap w' = w_heap w + {#ABinBuf#}"
  using mobilesync_send_effect [OF assms] by (simp add: set_conn_def)

theorem send_leaks_encoding_buffer_witness:
  "\<exists>st w'. mobilesync_send \<lparr>to_bin = (\<lambda>_. [5, 6]), from_bin = (\<lambda>_. None)\<rparr> (Some 0) (Some (PBoolean True)) (empty_world\<lparr>w_conns := [3 \<mapsto> fresh_conn [] (\<lambda>_. RdChunk 1) (\<lambda>_. -1)], w_clients := [0 \<mapsto> \<lparr>sfd = 3\<rparr>]\<rparr>) =
     Returns (st, w') \<and> w_heap w' = {#ABinBuf#}"
  using send_leaks_encoding_buffer [where w = "empty_world\<lparr>w_conns := [3 \<mapsto> fresh_conn [] (\<lambda>_. RdChunk 1) (\<lambda>_. -1)], w_clients := [0 \<mapsto> \<lparr>sfd = 3\<rparr>]\<rparr>" and a = 0 and cl = "\<lparr>sfd = 3\<rparr>" and c = "fresh_conn [] (\<lambda>_. RdChunk 1) (\<lambda>_. -1)"
      and cd = "\<lparr>to_bin = (\<lambda>_. [5, 6]), from_bin = (\<lambda>_. None)\<rparr>" and p = "PBoolean True"]
  by (simp add: open_conn_def fresh_conn_def empty_world_def)

text \<open>
  C30. The byte order of the length prefix is the positional one: \<open>ntohl\<close> of the
  four received bytes, computed as in lines 140--142 (\<open>be32_word\<close>), is their
  big-endian base-256 value; \<open>htonl\<close> of a length, written to memory as in lines
  200--202 (\<open>be32_bytes\<close>), gives its four base-256 digits, most significant first.
\<close>

theorem length_prefix_positional:
  "unat (be32_word [b0, b1, b2, b3]) = unat b0 * 2 ^ 24 + unat b1 * 2 ^ 16 + unat b2 * 2 ^ 8 + unat b3 \<and>
   map unat (be32_bytes n) = [unat n div 2 ^ 24 mod 256, unat n div 2 ^ 16 mod 256, unat n div 2 ^ 8 mod 256, unat n mod 256]"
proof
  show "unat (be32_word [b0, b1, b2, b3]) = unat b0 * 2 ^ 24 + unat b1 * 2 ^ 16 + unat b2 * 2 ^ 8 + unat b3"
  proof -
    have eq: "be32_word [b0, b1, b2, b3] = of_nat (((unat b0 * 256 + unat b1) * 256 + unat b2) * 256 + unat b3)"
      using be32_word_foldl [of 0 "[b0, b1, b2, b3]"] by (simp add: be32_word_def)
    have "unat b < 256" for b :: byte using unsigned_less [of b] by simp
    then have "((unat b0 * 256 + unat b1) * 256 + unat b2) * 256 + unat b3 < ((256 * 256) * 256) * 256"
      by (intro digit_step_bound) simp_all
    then have bound: "((unat b0 * 256 + unat b1) * 256 + unat b2) * 256 + unat b3 < 2 ^ 32" by simp
    have "unat (be32_word [b0, b1, b2, b3]) = ((unat b0 * 256 + unat b1) * 256 + unat b2) * 256 + unat b3"
      using bound by (simp only: eq unat_of_nat) simp
    then show ?thesis by (simp add: algebra_simps)
  qed
  show "map unat (be32_bytes n) = [unat n div 2 ^ 24 mod 256, unat n div 2 ^ 16 mod 256, unat n div 2 ^ 8 mod 256, unat n mod 256]"
    by (simp add: be32_bytes_def unsigned_ucast_eq unat_drop_bit_eq take_bit_eq_mod drop_bit_eq_div unat_div)
qed

text \<open>
  C32. An empty frame is accepted after a single read (lines 141--157): when the prefix
  announces zero bytes, \<open>mobilesync_recv\<close> allocates a zero-byte buffer, skips the
  loop and returns success with the decoding of the empty buffer, whatever a further read
  would yield; the bytes after the prefix stay unread. The spec leaves an empty frame
  open (section 9).
\<close>

theorem recv_empty_frame:
  assumes client: "w_clients w a = Some cl" and conn: "open_conn (sfd cl) w = Some c"
    and inbox: "c_inbox c = [0, 0, 0, 0] @ rest"
    and first: "c_rsched c (c_reads c) = RdChunk n" "4 \<le> n"
  shows "\<exists>w'. mobilesync_recv cd (Some a) (Some None) w = Returns (IPHONE_E_SUCCESS, Some (from_bin cd []), w') \<and>
           open_conn (sfd cl) w' = Some (c\<lparr>c_inbox := rest, c_reads := Suc (c_reads c)\<rparr>)"
proof -
  have z: "be32_bytes 0 = [0, 0, 0, 0]" by (simp add: be32_bytes_def)
  have pre: "recv_prefix (sfd cl) w = (IPHONE_E_SUCCESS, 0, set_conn (sfd cl) (c\<lparr>c_inbox := rest, c_reads := Suc (c_reads c)\<rparr>) w)"
    using recv_prefix_whole [OF conn first, of 0 rest] inbox z by simp
  have loop: "recv_loop fd 0 0 IPHONE_E_SUCCESS [] W = Some (IPHONE_E_SUCCESS, 0, [], W)" for fd W
    by (simp add: recv_loop.simps)
  show ?thesis
    using client pre loop open_conn_SomeD [OF conn]
    by (auto simp: mobilesync_recv_def Let_def world_op_defs open_conn_def set_conn_def)
qed

theorem recv_empty_frame_witness:
  "\<exists>w'. mobilesync_recv \<lparr>to_bin = (\<lambda>_. []), from_bin = (\<lambda>bs. if bs = [] then Some (PArray []) else None)\<rparr> (Some 0) (Some None)
       (empty_world\<lparr>w_conns := [3 \<mapsto> fresh_conn [0, 0, 0, 0, 7] (\<lambda>i. if i = 0 then RdChunk 4 else RdFail (-5)) (\<lambda>_. 0)],
                    w_clients := [0 \<mapsto> \<lparr>sfd = 3\<rparr>]\<rparr>) =
     Returns (IPHONE_E_SUCCESS, Some (Some (PArray [])), w') \<and>
     open_conn 3 w' = Some ((fresh_conn [7] (\<lambda>i. if i = 0 then RdChunk 4 else RdFail (-5)) (\<lambda>_. 0))\<lparr>c_reads := 1\<rparr>)"
  using recv_empty_frame [where cd = "\<lparr>to_bin = (\<lambda>_. []), from_bin = (\<lambda>bs. if bs = [] then Some (PArray []) else None)\<rparr>"
      and a = 0 and cl = "\<lparr>sfd = 3\<rparr>"
      and w = "empty_world\<lparr>w_conns := [3 \<mapsto> fresh_conn [0, 0, 0, 0, 7] (\<lambda>i. if i = 0 then RdChunk 4 else RdFail (-5)) (\<lambda>_. 0)],
                    w_clients := [0 \<mapsto> \<lparr>sfd = 3\<rparr>]\<rparr>"
      and c = "fresh_conn [0, 0, 0, 0, 7] (\<lambda>i. if i = 0 then RdChunk 4 else RdFail (-5)) (\<lambda>_. 0)" and rest = "[7]" and n = 4]
  by (simp add: empty_world_def fresh_conn_def open_conn_def)

text \<open>
  C34. A transport that hands over \<open>k \<ge> 4\<close> bytes per read delivers a frame of \<open>N\<close>
  payload bytes in exactly \<open>1 + \<lceil>N / k\<rceil>\<close> reads (lines 141--151): one for the
  length prefix, then one per \<open>k\<close> bytes of payload, the last read asking only for
  what is missing, so the next frame stays in the inbox.
\<close>

theorem recv_fixed_chunk_reads:
  assumes client: "w_clients w a = Some cl" and conn: "open_conn (sfd cl) w = Some c"
    and inbox: "c_inbox c = frame payload @ rest" and small: "length payload < 2 ^ 32"
    and chunks: "\<forall>i\<ge>c_reads c. c_rsched c i = RdChunk k" and k: "4 \<le> k"
  shows "\<exists>w'. mobilesync_recv cd (Some a) (Some None) w = Returns (IPHONE_E_SUCCESS, Some (from_bin cd payload), w') \<and>
           open_conn (sfd cl) w' = Some (c\<lparr>c_inbox := rest, c_reads := c_reads c + 1 + (length payload + k - 1) div k\<rparr>)"
proof -
  define len :: u32 where "len = of_nat (length payload)"
  define c1 where "c1 = c\<lparr>c_inbox := payload @ rest, c_reads := Suc (c_reads c)\<rparr>"
  have pre: "recv_prefix (sfd cl) w = (IPHONE_E_SUCCESS, len, set_conn (sfd cl) c1 w)"
    using recv_prefix_whole [OF conn _ k] chunks inbox by (simp add: len_def c1_def frame_def)
  have ulen: "unat len = length payload" using small by (simp add: len_def unat_of_nat_u32)
  have o1: "open_conn (sfd cl) (heap_alloc ARecvBuf (set_conn (sfd cl) c1 w)) = Some c1"
    using open_conn_set_conn_open [OF conn] by (simp add: c1_def)
  have loop: "recv_loop (sfd cl) len 0 IPHONE_E_SUCCESS [] (heap_alloc ARecvBuf (set_conn (sfd cl) c1 w)) =
      Some (IPHONE_E_SUCCESS, len, [] @ take (unat len - unat (0::u32)) (c_inbox c1),
        set_conn (sfd cl) (c1\<lparr>c_inbox := drop (unat len - unat (0::u32)) (c_inbox c1),
          c_reads := c_reads c1 + (unat len - unat (0::u32) + k - 1) div k\<rparr>)
          (heap_alloc ARecvBuf (set_conn (sfd cl) c1 w)))"
    using recv_loop_fixed_chunks [OF o1, of "[]" 0 len k] chunks k ulen by (simp add: c1_def)
  show ?thesis
    using client pre loop ulen open_conn_SomeD [OF conn]
    by (auto simp: mobilesync_recv_def c1_def Let_def world_op_defs)
qed

theorem recv_fixed_chunk_reads_witness:
  "\<exists>w'. mobilesync_recv \<lparr>to_bin = (\<lambda>_. []), from_bin = (\<lambda>_. None)\<rparr> (Some 0) (Some None)
       (empty_world\<lparr>w_conns := [3 \<mapsto> fresh_conn (frame [1, 2, 3, 4, 5] @ [6]) (\<lambda>_. RdChunk 4) (\<lambda>_. 0)],
                    w_clients := [0 \<mapsto> \<lparr>sfd = 3\<rparr>]\<rparr>) =
     Returns (IPHONE_E_SUCCESS, Some None, w') \<and>
     open_conn 3 w' = Some ((fresh_conn (frame [1, 2, 3, 4, 5] @ [6]) (\<lambda>_. RdChunk 4) (\<lambda>_. 0))\<lparr>c_inbox := [6], c_reads := Suc (Suc (Suc 0))\<rparr>)"
  using recv_fixed_chunk_reads [where cd = "\<lparr>to_bin = (\<lambda>_. []), from_bin = (\<lambda>_. None)\<rparr>" and a = 0 and cl = "\<lparr>sfd = 3\<rparr>"
      and w = "empty_world\<lparr>w_conns := [3 \<mapsto> fresh_conn (frame [1, 2, 3, 4, 5] @ [6]) (\<lambda>_. RdChunk 4) (\<lambda>_. 0)],
                    w_clients := [0 \<mapsto> \<lparr>sfd = 3\<rparr>]\<rparr>"
      and c = "fresh_conn (frame [1, 2, 3, 4, 5] @ [6]) (\<lambda>_. RdChunk 4) (\<lambda>_. 0)"
      and payload = "[1, 2, 3, 4, 5]" and rest = "[6]" and k = 4]
  by (simp add: empty_world_def fresh_conn_def open_conn_def)

text \<open>
  C36. A read error in the middle of a payload (lines 147--155): after the prefix and
  \<open>j\<close> of the \<open>N\<close> payload bytes have arrived, a failed read makes \<open>mobilesync_recv\<close>
  return that status with \<open>*plist\<close> still NULL, free the receive buffer and log
  nothing; the prefix and the \<open>j\<close> bytes already read are consumed, so the remaining
  payload bytes are what the next read of the stream sees.
\<close>

theorem recv_mid_frame_error:
  assumes client: "w_clients w a = Some cl" and conn: "open_conn (sfd cl) w = Some c"
    and inbox: "c_inbox c = frame payload @ rest" and small: "length payload < 2 ^ 32"
    and first: "c_rsched c (c_reads c) = RdChunk n" "4 \<le> n"
    and second: "c_rsched c (Suc (c_reads c)) = RdChunk j" "0 < j" "j < length payload"
    and third: "c_rsched c (Suc (Suc (c_reads c))) = RdFail e" "e \<noteq> IPHONE_E_SUCCESS"
  shows "\<exists>w'. mobilesync_recv cd (Some a) (Some None) w = Returns (e, Some None, w') \<and>
           open_conn (sfd cl) w' = Some (c\<lparr>c_inbox := drop j payload @ rest, c_reads := c_reads c + 3\<rparr>) \<and>
           w_heap w' = w_heap w \<and> w_log w' = w_log w"
proof -
  define len :: u32 where "len = of_nat (length payload)"
  define c1 where "c1 = c\<lparr>c_inbox := payload @ rest, c_reads := Suc (c_reads c)\<rparr>"
  define c2 where "c2 = c1\<lparr>c_inbox := drop j (payload @ rest), c_reads := Suc (c_reads c1)\<rparr>"
  define W1 where "W1 = heap_alloc ARecvBuf (set_conn (sfd cl) c1 w)"
  have pre: "recv_prefix (sfd cl) w = (IPHONE_E_SUCCESS, len, set_conn (sfd cl) c1 w)"
    using recv_prefix_whole [OF conn first] inbox by (simp add: len_def c1_def frame_def)
  have ulen: "unat len = length payload" using small by (simp add: len_def unat_of_nat_u32)
  have "0 < length payload" using second(3) by linarith
  then have pos: "0 < len" using ulen by (simp add: word_less_nat_alt)
  have o1: "open_conn (sfd cl) W1 = Some c1"
    using open_conn_set_conn_open [OF conn] by (simp add: c1_def W1_def)
  have step: "recv_loop (sfd cl) len 0 IPHONE_E_SUCCESS [] W1 =
      recv_loop (sfd cl) len (of_nat j) IPHONE_E_SUCCESS (take j payload) (set_conn (sfd cl) c2 W1)"
    using recv_loop_step [OF o1 _ pos, of j "[]"] second ulen by (simp add: c1_def c2_def min_absorb1)
  have o2: "open_conn (sfd cl) (set_conn (sfd cl) c2 W1) = Some c2"
    using open_conn_SomeD [OF o1] by (simp add: c2_def)
  have lt: "(of_nat j :: u32) < len"
    using second(3) small ulen by (simp add: word_less_nat_alt unat_of_nat_u32)
  have fail: "recv_loop (sfd cl) len (of_nat j) IPHONE_E_SUCCESS (take j payload) (set_conn (sfd cl) c2 W1) =
      Some (e, of_nat j, take j payload, set_conn (sfd cl) (c2\<lparr>c_reads := Suc (c_reads c2)\<rparr>) (set_conn (sfd cl) c2 W1))"
    using recv_loop_fail [OF o2 _ third(2) lt] third(1) by (simp add: c2_def c1_def)
  show ?thesis
    using client pre step fail third(2) second(3) open_conn_SomeD [OF conn]
    by (auto simp: mobilesync_recv_def Let_def world_op_defs W1_def c1_def c2_def)
qed

theorem recv_mid_frame_error_witness:
  "\<exists>w'. mobilesync_recv \<lparr>to_bin = (\<lambda>_. []), from_bin = (\<lambda>_. None)\<rparr> (Some 0) (Some None)
       (empty_world\<lparr>w_conns := [3 \<mapsto> fresh_conn (frame [7, 8, 9] @ [5]) (\<lambda>i. if i = 0 then RdChunk 4 else if i = 1 then RdChunk 1 else RdFail (-5)) (\<lambda>_. 0)],
                    w_clients := [0 \<mapsto> \<lparr>sfd = 3\<rparr>]\<rparr>) =
     Returns (-5, Some None, w') \<and>
     open_conn 3 w' = Some ((fresh_conn (frame [7, 8, 9] @ [5]) (\<lambda>i. if i = 0 then RdChunk 4 else if i = 1 then RdChunk 1 else RdFail (-5)) (\<lambda>_. 0))
                             \<lparr>c_inbox := [8, 9, 5], c_reads := 3\<rparr>) \<and>
     w_heap w' = {#} \<and> w_log w' = []"
  using recv_mid_frame_error [where cd = "\<lparr>to_bin = (\<lambda>_. []), from_bin = (\<lambda>_. None)\<rparr>" and a = 0 and cl = "\<lparr>sfd = 3\<rparr>"
      and w = "empty_world\<lparr>w_conns := [3 \<mapsto> fresh_conn (frame [7, 8, 9] @ [5]) (\<lambda>i. if i = 0 then RdChunk 4 else if i = 1 then RdChunk 1 else RdFail (-5)) (\<lambda>_. 0)],
                    w_clients := [0 \<mapsto> \<lparr>sfd = 3\<rparr>]\<rparr>"
      and c = "fresh_conn (frame [7, 8, 9] @ [5]) (\<lambda>i. if i = 0 then RdChunk 4 else if i = 1 then RdChunk 1 else RdFail (-5)) (\<lambda>_. 0)"
      and payload = "[7, 8, 9]" and rest = "[5]" and n = 4 and j = 1 and e = "-5"]
  by (simp add: empty_world_def fresh_conn_def open_conn_def IPHONE_E_SUCCESS_def)

text \<open>
  C40. What a short first read makes of the length prefix (lines 140--143): when the
  first read hands over only \<open>j < 4\<close> bytes of the big-endian prefix of \<open>N\<close>, the
  unread bytes of \<open>datalen\<close> keep their initial zeros, so \<open>ntohl\<close> yields \<open>N\<close>
  with its low \<open>8 (4 - j)\<close> bits cleared: never more than \<open>N\<close>, and \<open>0\<close> for
  \<open>N < 2^(8 (4 - j))\<close>; the remaining \<open>4 - j\<close> prefix bytes stay in the stream.
  With \<open>j \<ge> 4\<close> the value is \<open>N\<close> itself.
\<close>

theorem recv_prefix_short_read:
  assumes conn: "open_conn fd w = Some c" and rd: "c_rsched c (c_reads c) = RdChunk j"
    and inbox: "c_inbox c = be32_bytes n @ rest"
  shows "recv_prefix fd w = (IPHONE_E_SUCCESS, push_bit (8 * (4 - min j 4)) (drop_bit (8 * (4 - min j 4)) n),
           set_conn fd (c\<lparr>c_inbox := drop (min j 4) (be32_bytes n) @ rest, c_reads := Suc (c_reads c)\<rparr>) w) \<and>
         push_bit (8 * (4 - min j 4)) (drop_bit (8 * (4 - min j 4)) n) \<le> n"
proof -
  have len: "length (be32_bytes n) = 4" by (simp add: be32_bytes_def)
  have rd4: "usbmuxd_recv fd 4 w = (0, take (min j 4) (be32_bytes n),
      set_conn fd (c\<lparr>c_inbox := drop (min j 4) (be32_bytes n) @ rest, c_reads := Suc (c_reads c)\<rparr>) w)"
    using usbmuxd_recv_open [OF conn rd, of 4] inbox len by simp
  have "length (take (min j 4) (be32_bytes n)) = min j 4" using len by simp
  then show ?thesis
    using rd4 be32_word_prefix [of "min j 4" n] push_drop_le
    by (simp add: recv_prefix_def IPHONE_E_SUCCESS_def)
qed

theorem recv_prefix_short_read_witness:
  "recv_prefix 3 (empty_world\<lparr>w_conns := [3 \<mapsto> fresh_conn [0, 1, 2, 3, 9] (\<lambda>_. RdChunk 2) (\<lambda>_. 0)]\<rparr>) =
     (IPHONE_E_SUCCESS, 65536,
      set_conn 3 ((fresh_conn [0, 1, 2, 3, 9] (\<lambda>_. RdChunk 2) (\<lambda>_. 0))\<lparr>c_inbox := [2, 3, 9], c_reads := Suc 0\<rparr>)
        (empty_world\<lparr>w_conns := [3 \<mapsto> fresh_conn [0, 1, 2, 3, 9] (\<lambda>_. RdChunk 2) (\<lambda>_. 0)]\<rparr>)) \<and>
   (65536 :: u32) \<le> 66051"
proof -
  have b: "be32_bytes 66051 = [0, 1, 2, 3]" by (simp add: be32_bytes_def)
  show ?thesis
    using recv_prefix_short_read [where fd = 3 and j = 2 and n = 66051 and rest = "[9]"
        and w = "empty_world\<lparr>w_conns := [3 \<mapsto> fresh_conn [0, 1, 2, 3, 9] (\<lambda>_. RdChunk 2) (\<lambda>_. 0)]\<rparr>"
        and c = "fresh_conn [0, 1, 2, 3, 9] (\<lambda>_. RdChunk 2) (\<lambda>_. 0)"] b
    by (simp add: open_conn_def fresh_conn_def)
qed

end
