(* ===== verification/Handshake.thy ===== *)
theory Handshake
  imports Channel
begin

text \<open>
  Handshake and session lifecycle: \<open>mobilesync_new_client\<close>,
  \<open>mobilesync_disconnect\<close> and \<open>mobilesync_free_client\<close> of \<open>src/src/MobileSync.c\<close>
  (lines 29--125). The handshake receives the device's version message, checks that it
  carries two unsigned integers after the \<open>DLMessageVersionExchange\<close> tag and that
  they are 100 and 100, acknowledges with \<open>DLVersionsOk\<close>, and waits for
  \<open>DLMessageDeviceReady\<close>. The variable \<open>ret\<close> of the C function is threaded through
  the phases exactly as the code assigns it: a failed shape or version check does not
  change it, so the function's result is then the status of the last receive.
\<close>

definition MSYNC_VERSION_INT1 :: u64 where "MSYNC_VERSION_INT1 = 100"
definition MSYNC_VERSION_INT2 :: u64 where "MSYNC_VERSION_INT2 = 100"

text \<open>Lines 46--47: the client structure is allocated and its descriptor set.\<close>

definition alloc_client :: "int \<Rightarrow> world \<Rightarrow> client_ptr \<times> world" where
  "alloc_client fd w =
     (w_next_addr w,
      heap_alloc AClient
        (w\<lparr>w_clients := (w_clients w)(w_next_addr w \<mapsto> \<lparr>sfd = fd\<rparr>), w_next_addr := Suc (w_next_addr w)\<rparr>))"

text \<open>Lines 55--68: the two fields after the tag, when both are \<open>PLIST_UINT\<close> nodes.\<close>

definition version_fields :: "plist option \<Rightarrow> (u64 \<times> u64) option" where
  "version_fields array =
     (let msg_node = plist_find_node_by_string array ''DLMessageVersionExchange'';
          ver_1 = plist_get_next_sibling msg_node;
          ver_2 = plist_get_next_sibling ver_1;
          ver_1_type = plist_get_node_type ver_1;
          ver_2_type = plist_get_node_type ver_2
      in if PLIST_UINT = ver_1_type \<and> PLIST_UINT = ver_2_type
         then Some (plist_get_uint_val ver_1 0, plist_get_uint_val ver_2 0)
         else None)"

definition string_pair :: "string \<Rightarrow> string \<Rightarrow> plist" where
  "string_pair a b = plist_add_sub_string_el (plist_add_sub_string_el plist_new_array a) b"

definition slot_value :: "plist option option \<Rightarrow> plist option" where
  "slot_value s = (case s of None \<Rightarrow> None | Some p \<Rightarrow> p)"

subsection \<open>Release\<close>

text \<open>Lines 104--116: the best-effort disconnect message; the send's status is dropped.\<close>

definition mobilesync_disconnect :: "codec \<Rightarrow> client_ptr option \<Rightarrow> world \<Rightarrow> world outcome" where
  "mobilesync_disconnect cd client w =
     (case client of
        None \<Rightarrow> Returns w
      | Some a \<Rightarrow>
          (let array = string_pair ''DLMessageDisconnect'' ''All done, thanks for the memories''
           in outcome_bind (mobilesync_send cd (Some a) (Some array) (heap_alloc APlist w))
                (\<lambda>(_, w1). Returns (plist_free (Some array) w1))))"

text \<open>
  Lines 118--125: disconnect, then close the descriptor and return the close status.
  The client structure itself is not freed.
\<close>

definition mobilesync_free_client ::
  "codec \<Rightarrow> client_ptr option \<Rightarrow> world \<Rightarrow> (iphone_error_t \<times> world) outcome" where
  "mobilesync_free_client cd client w =
     (case client of
        None \<Rightarrow> Returns (IPHONE_E_INVALID_ARG, w)
      | Some a \<Rightarrow>
          outcome_bind (mobilesync_disconnect cd client w)
            (\<lambda>w1. case w_clients w1 a of
                     None \<Rightarrow> Undefined
                   | Some cl \<Rightarrow> Returns (usbmuxd_disconnect (sfd cl) w1)))"

subsection \<open>Creation\<close>

text \<open>Lines 98--101: on any status but success the half-made client is released.\<close>

definition new_client_finish ::
  "codec \<Rightarrow> client_ptr \<Rightarrow> iphone_error_t \<Rightarrow> client_ptr option option \<Rightarrow> world \<Rightarrow>
   (iphone_error_t \<times> client_ptr option option \<times> world) outcome" where
  "new_client_finish cd client_loc ret client w =
     (if IPHONE_E_SUCCESS \<noteq> ret
      then outcome_bind (mobilesync_free_client cd (Some client_loc) w) (\<lambda>(_, w1). Returns (ret, client, w1))
      else Returns (ret, client, w))"

text \<open>
  Lines 76--93: acknowledge the version, then wait for the ready message. The status
  of the send is overwritten by the receive that follows it.
\<close>

definition handshake_ready ::
  "codec \<Rightarrow> client_ptr \<Rightarrow> client_ptr option option \<Rightarrow> world \<Rightarrow>
   (iphone_error_t \<times> client_ptr option option \<times> world) outcome" where
  "handshake_ready cd client_loc client w =
     (let array = string_pair ''DLMessageVersionExchange'' ''DLVersionsOk''
      in outcome_bind (mobilesync_send cd (Some client_loc) (Some array) (heap_alloc APlist w))
           (\<lambda>(_, w1).
              outcome_bind (mobilesync_recv cd (Some client_loc) (Some None) (plist_free (Some array) w1))
                (\<lambda>(ret, slot, w2).
                   (let array2 = slot_value slot;
                        rep_node = plist_find_node_by_string array2 ''DLMessageDeviceReady''
                    in if rep_node \<noteq> []
                       then Returns (IPHONE_E_SUCCESS, Some (Some client_loc), plist_free array2 w2)
                       else Returns (ret, client, plist_free array2 w2)))))"

text \<open>
  Lines 55--101: after the first receive, check the version message; on a match run the
  acknowledgement and ready phase; then release the client unless the status is success.
  A message of the wrong shape is not freed (the \<open>plist_free\<close> of line 70 is inside the
  check).
\<close>

definition handshake_version ::
  "codec \<Rightarrow> client_ptr \<Rightarrow> client_ptr option option \<Rightarrow> iphone_error_t \<Rightarrow> plist option option \<Rightarrow> world \<Rightarrow>
   (iphone_error_t \<times> client_ptr option option \<times> world) outcome" where
  "handshake_version cd client_loc client ret slot w =
     (let array = slot_value slot
      in case version_fields array of
           None \<Rightarrow> new_client_finish cd client_loc ret client w
         | Some (ver_1_val, ver_2_val) \<Rightarrow>
             (let w1 = plist_free array w
              in if ver_1_val = MSYNC_VERSION_INT1 \<and> ver_2_val = MSYNC_VERSION_INT2
                 then outcome_bind (handshake_ready cd client_loc client w1)
                        (\<lambda>(ret', client', w2). new_client_finish cd client_loc ret' client' w2)
                 else new_client_finish cd client_loc ret client w1))"

text \<open>Lines 32--102. The descriptor the code keeps in its local \<open>sfd\<close> is \<open>fd\<close> here.\<close>

definition mobilesync_new_client ::
  "codec \<Rightarrow> iphone_device option \<Rightarrow> int \<Rightarrow> client_ptr option option \<Rightarrow> world \<Rightarrow>
   (iphone_error_t \<times> client_ptr option option \<times> world) outcome" where
  "mobilesync_new_client cd device dst_port client w =
     (case (device, client) of
        (Some dev, Some None) \<Rightarrow>
          if dst_port = 0 then Returns (IPHONE_E_INVALID_ARG, client, w)
          else
            (case usbmuxd_connect (dev_handle dev) dst_port w of
               (fd, w1) \<Rightarrow>
                 if fd < 0 then Returns (IPHONE_E_UNKNOWN_ERROR, client, w1)
                 else
                   (case alloc_client fd w1 of
                      (client_loc, w2) \<Rightarrow>
                        outcome_bind (mobilesync_recv cd (Some client_loc) (Some None) w2)
                          (\<lambda>(ret, slot, w3). handshake_version cd client_loc client ret slot w3)))
      | _ \<Rightarrow> Returns (IPHONE_E_INVALID_ARG, client, w))"

subsection \<open>A device for the examples\<close>

text \<open>
  A device used by the witnesses: it listens on port 5 of handle 1, sends two frames
  whose payloads \<open>demo_codec\<close> decodes to a version message and a ready message, and
  its transport hands over up to 8 bytes per read and accepts every write.
\<close>

definition demo_version_msg :: "u64 \<Rightarrow> u64 \<Rightarrow> plist" where
  "demo_version_msg v1 v2 = PArray [PString ''DLMessageVersionExchange'', PUInt v1, PUInt v2]"

definition demo_codec :: "u64 \<Rightarrow> u64 \<Rightarrow> codec" where
  "demo_codec v1 v2 =
     \<lparr>to_bin = (\<lambda>_. [0]),
      from_bin = (\<lambda>bs. if bs = [1] then Some (demo_version_msg v1 v2)
                       else if bs = [2] then Some (PArray [PString ''DLMessageDeviceReady''])
                       else if bs = [3] then Some (PArray [PString ''DLMessageVersionExchange''])
                       else None)\<rparr>"

definition demo_world :: "usb_conn \<Rightarrow> world" where
  "demo_world c = empty_world\<lparr>w_listen := (\<lambda>h p. if h = 1 \<and> p = 5 then Some c else None)\<rparr>"

lemmas demo_defs = demo_version_msg_def demo_codec_def demo_world_def empty_world_def fresh_conn_def
  version_fields_def plist_cursor_defs string_pair_def MSYNC_VERSION_INT1_def MSYNC_VERSION_INT2_def frame_def

subsection \<open>Evaluation lemmas\<close>

text \<open>
  Each phase of the handshake as a lemma over the world: the ready phase, the connected
  state after \<open>usbmuxd_connect\<close> and the allocation, the first frame, and each branch of
  the version check; the release sequence. The claims below are corollaries.
\<close>

lemma handshake_ready_effect:
  assumes client: "w_clients w a = Some cl" and conn: "open_conn (sfd cl) w = Some c"
    and inbox: "c_inbox c = frame rb @ rest" and len: "length rb < 2 ^ 32"
    and sched: "\<forall>i\<ge>c_reads c. \<exists>k\<ge>4. c_rsched c i = RdChunk k"
    and ack: "length (to_bin cd (string_pair ''DLMessageVersionExchange'' ''DLVersionsOk'')) < 2 ^ 32 - 4"
  shows "\<exists>w' r. handshake_ready cd a client w =
       Returns (IPHONE_E_SUCCESS,
         if plist_find_node_by_string (from_bin cd rb) ''DLMessageDeviceReady'' \<noteq> [] then Some (Some a) else client, w') \<and>
     c_reads c < r \<and>
     open_conn (sfd cl) w' = Some (c\<lparr>c_inbox := rest, c_reads := r, c_writes := Suc (c_writes c),
        c_sent := c_sent c @ (if c_wsched c (c_writes c) = 0
                              then [frame (to_bin cd (string_pair ''DLMessageVersionExchange'' ''DLVersionsOk''))] else [])\<rparr>) \<and>
     w_clients w' = w_clients w \<and> w_heap w' = w_heap w + {#ABinBuf#}"
proof -
  define ack where "ack = string_pair ''DLMessageVersionExchange'' ''DLVersionsOk''"
  define st where "st = c_wsched c (c_writes c)"
  define c1 where "c1 = c\<lparr>c_writes := Suc (c_writes c), c_sent := c_sent c @ (if st = 0 then [frame (to_bin cd ack)] else [])\<rparr>"
  define w1 where "w1 = set_conn (sfd cl) c1 ((heap_alloc APlist w)\<lparr>w_heap := w_heap (heap_alloc APlist w) + {#ABinBuf#},
                  w_log := w_log (heap_alloc APlist w) @ [LogPlist ''mobilesync_send'' (Some ack)]\<rparr>)"
  have send: "mobilesync_send cd (Some a) (Some ack) (heap_alloc APlist w) =
      Returns (if st = 0 then IPHONE_E_SUCCESS else st, w1)"
    using mobilesync_send_effect [of "heap_alloc APlist w" a cl c cd ack] client conn ack
    by (simp add: ack_def w1_def c1_def st_def)
  have c2: "w_clients (plist_free (Some ack) w1) a = Some cl" using client by (simp add: w1_def)
  have o2: "open_conn (sfd cl) (plist_free (Some ack) w1) = Some c1"
    using open_conn_set_conn_open [OF conn] by (simp add: w1_def c1_def)
  obtain k where k: "c_rsched c (c_reads c) = RdChunk k" "4 \<le> k" using sched by blast
  obtain w2 r where recv: "mobilesync_recv cd (Some a) (Some None) (plist_free (Some ack) w1) =
        Returns (IPHONE_E_SUCCESS, Some (from_bin cd rb), w2)"
    and r: "c_reads c1 < r" "open_conn (sfd cl) w2 = Some (c1\<lparr>c_inbox := rest, c_reads := r\<rparr>)"
    and h2: "w_heap w2 = w_heap (plist_free (Some ack) w1) + (if from_bin cd rb = None then {#} else {#APlist#})"
    and cl2: "w_clients w2 = w_clients (plist_free (Some ack) w1)"
  proof -
    have in1: "c_inbox c1 = frame rb @ rest" using inbox by (simp add: c1_def)
    have k1: "c_rsched c1 (c_reads c1) = RdChunk k" using k by (simp add: c1_def)
    have more: "\<forall>i>c_reads c1. \<exists>k>0. c_rsched c1 i = RdChunk k"
      using sched by (simp add: c1_def) (meson less_imp_le_nat order.strict_trans2 zero_less_numeral)
    show thesis
      using mobilesync_recv_frame [OF c2 o2 in1 len k1 k(2) more, of cd] that by (auto simp: c1_def)
  qed
  define found where "found = (plist_find_node_by_string (from_bin cd rb) ''DLMessageDeviceReady'' \<noteq> [])"
  have hr: "handshake_ready cd a client w =
      Returns (IPHONE_E_SUCCESS, if found then Some (Some a) else client, plist_free (from_bin cd rb) w2)"
    unfolding handshake_ready_def Let_def ack_def [symmetric]
    using send recv by (simp add: slot_value_def found_def)
  have "open_conn (sfd cl) (plist_free (from_bin cd rb) w2) = Some (c1\<lparr>c_inbox := rest, c_reads := r\<rparr>)"
    using r(2) by simp
  moreover have "w_clients (plist_free (from_bin cd rb) w2) = w_clients w"
    using cl2 by (simp add: w1_def)
  moreover have "w_heap (plist_free (from_bin cd rb) w2) = w_heap w + {#ABinBuf#}"
    using h2 by (cases "from_bin cd rb") (simp_all add: w1_def world_op_defs)
  ultimately show ?thesis
    using hr r(1) unfolding found_def by (auto simp: c1_def st_def ack_def intro!: exI [of _ r])
qed

lemma connect_alloc:
  assumes "w_listen w h port = Some c0"
  shows "usbmuxd_connect h port w = (w_next_sfd w,
           set_conn (w_next_sfd w) (c0\<lparr>c_open := True\<rparr>) (w\<lparr>w_next_sfd := w_next_sfd w + 1\<rparr>))"
  using assms by (simp add: usbmuxd_connect_def)

lemma alloc_client_facts:
  assumes "alloc_client fd w = (a, w')"
  shows "a = w_next_addr w" "w_clients w' a = Some \<lparr>sfd = fd\<rparr>" "open_conn x w' = open_conn x w"
    "w_heap w' = add_mset AClient (w_heap w)" "w_conns w' = w_conns w"
  using assms by (auto simp: alloc_client_def world_op_defs)

lemma free_client_effect:
  assumes client: "w_clients w a = Some cl" and conn: "open_conn (sfd cl) w = Some c"
    and small: "length (to_bin cd (string_pair ''DLMessageDisconnect'' ''All done, thanks for the memories'')) < 2 ^ 32 - 4"
  shows "mobilesync_free_client cd (Some a) w =
    Returns (0, set_conn (sfd cl) (c\<lparr>c_writes := Suc (c_writes c),
        c_sent := c_sent c @ (if c_wsched c (c_writes c) = 0
          then [frame (to_bin cd (string_pair ''DLMessageDisconnect'' ''All done, thanks for the memories''))] else []),
        c_open := False\<rparr>)
      (w\<lparr>w_heap := w_heap w + {#ABinBuf#},
         w_log := w_log w @ [LogPlist ''mobilesync_send'' (Some (string_pair ''DLMessageDisconnect'' ''All done, thanks for the memories''))]\<rparr>))"
proof -
  define msg where "msg = string_pair ''DLMessageDisconnect'' ''All done, thanks for the memories''"
  have send: "mobilesync_send cd (Some a) (Some msg) (heap_alloc APlist w) =
    Returns (if c_wsched c (c_writes c) = 0 then IPHONE_E_SUCCESS else c_wsched c (c_writes c),
      set_conn (sfd cl) (c\<lparr>c_writes := Suc (c_writes c),
          c_sent := c_sent c @ (if c_wsched c (c_writes c) = 0 then [frame (to_bin cd msg)] else [])\<rparr>)
        ((heap_alloc APlist w)\<lparr>w_heap := w_heap (heap_alloc APlist w) + {#ABinBuf#},
           w_log := w_log (heap_alloc APlist w) @ [LogPlist ''mobilesync_send'' (Some msg)]\<rparr>))"
    using mobilesync_send_effect [of "heap_alloc APlist w" a cl c cd msg] client conn small
    by (simp add: msg_def)
  show ?thesis
    using send client open_conn_SomeD [OF conn]
    by (simp add: mobilesync_free_client_def mobilesync_disconnect_def msg_def [symmetric]
        usbmuxd_disconnect_def world_op_defs)
qed

lemma free_client_closed:
  assumes client: "w_clients w a = Some cl" and closed: "open_conn (sfd cl) w = None"
    and small: "length (to_bin cd (string_pair ''DLMessageDisconnect'' ''All done, thanks for the memories'')) < 2 ^ 32 - 4"
  shows "mobilesync_free_client cd (Some a) w =
    Returns (USBMUXD_EBADF, w\<lparr>w_heap := w_heap w + {#ABinBuf#},
         w_log := w_log w @ [LogPlist ''mobilesync_send'' (Some (string_pair ''DLMessageDisconnect'' ''All done, thanks for the memories''))]\<rparr>)"
proof -
  have nowrap: "\<not> unat (of_nat (length (to_bin cd (string_pair ''DLMessageDisconnect'' ''All done, thanks for the memories''))) + 4 :: u32)
      < unat (of_nat (length (to_bin cd (string_pair ''DLMessageDisconnect'' ''All done, thanks for the memories''))) :: u32) + 4"
    using u32_add4_wraps [of "of_nat (length (to_bin cd (string_pair ''DLMessageDisconnect'' ''All done, thanks for the memories'')))"] small
    by (simp add: unat_of_nat)
  show ?thesis
    using client closed nowrap
    by (simp add: mobilesync_free_client_def mobilesync_disconnect_def mobilesync_send_def usbmuxd_send_def
        usbmuxd_disconnect_def world_op_defs Let_def)
qed

lemma new_client_connected:
  assumes listen: "w_listen w (dev_handle dev) port = Some c0" and port: "port \<noteq> 0"
    and fd: "0 \<le> w_next_sfd w"
  shows "\<exists>W. mobilesync_new_client cd (Some dev) port (Some None) w =
           outcome_bind (mobilesync_recv cd (Some (w_next_addr w)) (Some None) W)
             (\<lambda>(ret, slot, w3). handshake_version cd (w_next_addr w) (Some None) ret slot w3) \<and>
         w_clients W (w_next_addr w) = Some \<lparr>sfd = w_next_sfd w\<rparr> \<and>
         open_conn (w_next_sfd w) W = Some (c0\<lparr>c_open := True\<rparr>) \<and>
         w_heap W = add_mset AClient (w_heap w)"
proof -
  define w1 where "w1 = set_conn (w_next_sfd w) (c0\<lparr>c_open := True\<rparr>) (w\<lparr>w_next_sfd := w_next_sfd w + 1\<rparr>)"
  obtain a W where al: "alloc_client (w_next_sfd w) w1 = (a, W)" by (cases "alloc_client (w_next_sfd w) w1") auto
  note f = alloc_client_facts [OF al]
  have "a = w_next_addr w" using f(1) by (simp add: w1_def set_conn_def)
  then show ?thesis
    using f al connect_alloc [OF listen] port fd
    by (intro exI [of _ W]) (simp add: mobilesync_new_client_def w1_def world_op_defs)
qed

lemma new_client_first_frame:
  assumes listen: "w_listen w (dev_handle dev) port = Some c0" and port: "port \<noteq> 0"
    and fd: "0 \<le> w_next_sfd w"
    and inbox: "c_inbox c0 = frame vb @ rest" and len: "length vb < 2 ^ 32"
    and sched: "\<forall>i\<ge>c_reads c0. \<exists>k\<ge>4. c_rsched c0 i = RdChunk k"
  shows "\<exists>w3 r. mobilesync_new_client cd (Some dev) port (Some None) w =
             handshake_version cd (w_next_addr w) (Some None) IPHONE_E_SUCCESS (Some (from_bin cd vb)) w3 \<and>
           c_reads c0 < r \<and> open_conn (w_next_sfd w) w3 = Some (c0\<lparr>c_open := True, c_inbox := rest, c_reads := r\<rparr>) \<and>
           w_clients w3 (w_next_addr w) = Some \<lparr>sfd = w_next_sfd w\<rparr> \<and>
           w_heap w3 = w_heap w + {#AClient#} + (if from_bin cd vb = None then {#} else {#APlist#})"
proof -
  obtain W where nc: "mobilesync_new_client cd (Some dev) port (Some None) w =
           outcome_bind (mobilesync_recv cd (Some (w_next_addr w)) (Some None) W)
             (\<lambda>(ret, slot, w3). handshake_version cd (w_next_addr w) (Some None) ret slot w3)"
    and cl: "w_clients W (w_next_addr w) = Some \<lparr>sfd = w_next_sfd w\<rparr>"
    and oc: "open_conn (sfd \<lparr>sfd = w_next_sfd w\<rparr>) W = Some (c0\<lparr>c_open := True\<rparr>)"
    and hp: "w_heap W = add_mset AClient (w_heap w)"
    using new_client_connected [OF listen port fd, of cd] by auto
  obtain k where k: "c_rsched (c0\<lparr>c_open := True\<rparr>) (c_reads (c0\<lparr>c_open := True\<rparr>)) = RdChunk k" "4 \<le> k"
    using sched by auto
  have more: "\<forall>i>c_reads (c0\<lparr>c_open := True\<rparr>). \<exists>k>0. c_rsched (c0\<lparr>c_open := True\<rparr>) i = RdChunk k"
    using sched by simp (meson less_imp_le_nat order.strict_trans2 zero_less_numeral)
  obtain w3 r where recv: "mobilesync_recv cd (Some (w_next_addr w)) (Some None) W =
        Returns (IPHONE_E_SUCCESS, Some (from_bin cd vb), w3)"
    and r: "c_reads c0 < r" "open_conn (w_next_sfd w) w3 = Some (c0\<lparr>c_open := True, c_inbox := rest, c_reads := r\<rparr>)"
    and h3: "w_heap w3 = w_heap W + (if from_bin cd vb = None then {#} else {#APlist#})"
    and cl3: "w_clients w3 = w_clients W"
    using mobilesync_recv_frame [OF cl oc _ len k more, of rest cd] inbox by auto
  show ?thesis
    using nc recv r h3 cl3 cl hp by (intro exI [of _ w3] exI [of _ r]) auto
qed

lemma new_client_success_effect:
  assumes listen: "w_listen w (dev_handle dev) port = Some c0" and port: "port \<noteq> 0"
    and fd: "0 \<le> w_next_sfd w"
    and inbox: "c_inbox c0 = frame vb @ frame rb @ rest"
    and lens: "length vb < 2 ^ 32" "length rb < 2 ^ 32"
    and sched: "\<forall>i\<ge>c_reads c0. \<exists>k\<ge>4. c_rsched c0 i = RdChunk k"
    and ack: "length (to_bin cd (string_pair ''DLMessageVersionExchange'' ''DLVersionsOk'')) < 2 ^ 32 - 4"
    and ver: "from_bin cd vb = Some vmsg" "version_fields (Some vmsg) = Some (MSYNC_VERSION_INT1, MSYNC_VERSION_INT2)"
  shows "\<exists>w' r. mobilesync_new_client cd (Some dev) port (Some None) w =
            Returns (IPHONE_E_SUCCESS,
              if plist_find_node_by_string (from_bin cd rb) ''DLMessageDeviceReady'' \<noteq> [] then Some (Some (w_next_addr w))
              else Some None, w') \<and>
          w_clients w' (w_next_addr w) = Some \<lparr>sfd = w_next_sfd w\<rparr> \<and> c_reads c0 < r \<and>
          open_conn (w_next_sfd w) w' = Some (c0\<lparr>c_open := True, c_inbox := rest, c_reads := r,
             c_writes := Suc (c_writes c0),
             c_sent := c_sent c0 @ (if c_wsched c0 (c_writes c0) = 0
                then [frame (to_bin cd (string_pair ''DLMessageVersionExchange'' ''DLVersionsOk''))] else [])\<rparr>) \<and>
          w_heap w' = w_heap w + {#AClient, ABinBuf#}"
proof -
  define a where "a = w_next_addr w"
  obtain w3 r1 where nc: "mobilesync_new_client cd (Some dev) port (Some None) w =
             handshake_version cd a (Some None) IPHONE_E_SUCCESS (Some (Some vmsg)) w3"
    and r1: "c_reads c0 < r1" "open_conn (w_next_sfd w) w3 = Some (c0\<lparr>c_open := True, c_inbox := frame rb @ rest, c_reads := r1\<rparr>)"
    and cl3: "w_clients w3 a = Some \<lparr>sfd = w_next_sfd w\<rparr>"
    and h3: "w_heap w3 = w_heap w + {#AClient#} + {#APlist#}"
    using new_client_first_frame [OF listen port fd _ lens(1) sched, of "frame rb @ rest" cd] inbox ver(1)
    by (auto simp: a_def)
  define c3 where "c3 = c0\<lparr>c_open := True, c_inbox := frame rb @ rest, c_reads := r1\<rparr>"
  have o4: "open_conn (sfd \<lparr>sfd = w_next_sfd w\<rparr>) (plist_free (Some vmsg) w3) = Some c3" using r1(2) by (simp add: c3_def)
  have cl4: "w_clients (plist_free (Some vmsg) w3) a = Some \<lparr>sfd = w_next_sfd w\<rparr>" using cl3 by simp
  have sched3: "\<forall>i\<ge>c_reads c3. \<exists>k\<ge>4. c_rsched c3 i = RdChunk k"
    using sched r1(1) by (simp add: c3_def)
  obtain w5 r where hr: "handshake_ready cd a (Some None) (plist_free (Some vmsg) w3) =
        Returns (IPHONE_E_SUCCESS,
          if plist_find_node_by_string (from_bin cd rb) ''DLMessageDeviceReady'' \<noteq> [] then Some (Some a) else Some None, w5)"
    and r: "c_reads c3 < r"
    and o5: "open_conn (w_next_sfd w) w5 = Some (c3\<lparr>c_inbox := rest, c_reads := r, c_writes := Suc (c_writes c3),
        c_sent := c_sent c3 @ (if c_wsched c3 (c_writes c3) = 0
          then [frame (to_bin cd (string_pair ''DLMessageVersionExchange'' ''DLVersionsOk''))] else [])\<rparr>)"
    and cl5: "w_clients w5 = w_clients (plist_free (Some vmsg) w3)"
    and h5: "w_heap w5 = w_heap (plist_free (Some vmsg) w3) + {#ABinBuf#}"
    using handshake_ready_effect [where client = "Some None" and rest = rest, OF cl4 o4 _ lens(2) sched3 ack]
    by (auto simp: c3_def)
  have "mobilesync_new_client cd (Some dev) port (Some None) w = Returns (IPHONE_E_SUCCESS,
      if plist_find_node_by_string (from_bin cd rb) ''DLMessageDeviceReady'' \<noteq> [] then Some (Some a) else Some None, w5)"
    using nc ver(2) hr by (simp add: handshake_version_def slot_value_def new_client_finish_def)
  then show ?thesis
    using o5 cl5 cl3 h5 h3 r r1(1)
    by (auto simp: a_def c3_def world_op_defs intro!: exI [of _ r])
qed

lemma new_client_version_mismatch:
  assumes listen: "w_listen w (dev_handle dev) port = Some c0" and port: "port \<noteq> 0"
    and fd: "0 \<le> w_next_sfd w"
    and inbox: "c_inbox c0 = frame vb @ rest" and len: "length vb < 2 ^ 32"
    and sched: "\<forall>i\<ge>c_reads c0. \<exists>k\<ge>4. c_rsched c0 i = RdChunk k"
    and ver: "from_bin cd vb = Some vmsg" "version_fields (Some vmsg) = Some (v1, v2)"
    and mism: "\<not> (v1 = MSYNC_VERSION_INT1 \<and> v2 = MSYNC_VERSION_INT2)"
  shows "\<exists>w' r. mobilesync_new_client cd (Some dev) port (Some None) w = Returns (IPHONE_E_SUCCESS, Some None, w') \<and>
           c_reads c0 < r \<and> open_conn (w_next_sfd w) w' = Some (c0\<lparr>c_open := True, c_inbox := rest, c_reads := r\<rparr>) \<and>
           w_heap w' = w_heap w + {#AClient#}"
proof -
  obtain w3 r where nc: "mobilesync_new_client cd (Some dev) port (Some None) w =
             handshake_version cd (w_next_addr w) (Some None) IPHONE_E_SUCCESS (Some (Some vmsg)) w3"
    and r: "c_reads c0 < r" "open_conn (w_next_sfd w) w3 = Some (c0\<lparr>c_open := True, c_inbox := rest, c_reads := r\<rparr>)"
    and h3: "w_heap w3 = w_heap w + {#AClient#} + {#APlist#}"
    using new_client_first_frame [OF listen port fd inbox len sched, of cd] ver(1) by auto
  have "mobilesync_new_client cd (Some dev) port (Some None) w = Returns (IPHONE_E_SUCCESS, Some None, plist_free (Some vmsg) w3)"
    using nc ver(2) mism by (simp add: handshake_version_def slot_value_def new_client_finish_def)
  then show ?thesis
    using r h3 by (auto simp: world_op_defs)
qed

lemma new_client_no_version_tag:
  assumes listen: "w_listen w (dev_handle dev) port = Some c0" and port: "port \<noteq> 0"
    and fd: "0 \<le> w_next_sfd w"
    and inbox: "c_inbox c0 = frame vb @ rest" and len: "length vb < 2 ^ 32"
    and sched: "\<forall>i\<ge>c_reads c0. \<exists>k\<ge>4. c_rsched c0 i = RdChunk k"
    and shape: "version_fields (from_bin cd vb) = None"
  shows "\<exists>w' r. mobilesync_new_client cd (Some dev) port (Some None) w = Returns (IPHONE_E_SUCCESS, Some None, w') \<and>
           c_reads c0 < r \<and> open_conn (w_next_sfd w) w' = Some (c0\<lparr>c_open := True, c_inbox := rest, c_reads := r\<rparr>) \<and>
           w_heap w' = w_heap w + {#AClient#} + (if from_bin cd vb = None then {#} else {#APlist#})"
  using new_client_first_frame [OF listen port fd inbox len sched, of cd] shape
  by (auto simp: handshake_version_def slot_value_def new_client_finish_def)

lemma version_fields_None [simp]: "version_fields None = None"
  by (simp add: version_fields_def plist_cursor_defs)

text \<open>
  The three branches of the version check together, for a device that sends two frames
  and a transport that hands over at least four bytes per read: the status is always
  the receive's success, and a client is stored exactly when the versions match and
  the second message holds the ready tag.
\<close>

lemma new_client_two_frames:
  assumes listen: "w_listen w (dev_handle dev) port = Some c0" and port: "port \<noteq> 0"
    and fd: "0 \<le> w_next_sfd w"
    and inbox: "c_inbox c0 = frame vb @ frame rb @ rest"
    and lens: "length vb < 2 ^ 32" "length rb < 2 ^ 32"
    and sched: "\<forall>i\<ge>c_reads c0. \<exists>k\<ge>4. c_rsched c0 i = RdChunk k"
    and ack: "length (to_bin cd (string_pair ''DLMessageVersionExchange'' ''DLVersionsOk'')) < 2 ^ 32 - 4"
  shows "\<exists>w'. mobilesync_new_client cd (Some dev) port (Some None) w =
            Returns (IPHONE_E_SUCCESS,
              if version_fields (from_bin cd vb) = Some (MSYNC_VERSION_INT1, MSYNC_VERSION_INT2) \<and>
                 plist_find_node_by_string (from_bin cd rb) ''DLMessageDeviceReady'' \<noteq> []
              then Some (Some (w_next_addr w)) else Some None, w')"
proof (cases "version_fields (from_bin cd vb)")
  case None
  then show ?thesis
    using new_client_no_version_tag [OF listen port fd _ lens(1) sched, of "frame rb @ rest" cd] inbox by auto
next
  case (Some v)
  then obtain vmsg where vmsg: "from_bin cd vb = Some vmsg"
    by (cases "from_bin cd vb") auto
  obtain v1 v2 where v: "v = (v1, v2)" by (cases v)
  show ?thesis
  proof (cases "v1 = MSYNC_VERSION_INT1 \<and> v2 = MSYNC_VERSION_INT2")
    case True
    then show ?thesis
      using new_client_success_effect [OF listen port fd inbox lens sched ack vmsg] Some v vmsg by auto
  next
    case False
    then show ?thesis
      using new_client_version_mismatch [OF listen port fd _ lens(1) sched vmsg, of "frame rb @ rest" v1 v2]
        inbox Some v vmsg by auto
  qed
qed

lemma handshake_ready_read_fails:
  assumes client: "w_clients w a = Some cl" and conn: "open_conn (sfd cl) w = Some c"
    and fail: "c_rsched c (c_reads c) = RdFail e" "e \<noteq> IPHONE_E_SUCCESS"
    and ack: "length (to_bin cd (string_pair ''DLMessageVersionExchange'' ''DLVersionsOk'')) < 2 ^ 32 - 4"
  shows "handshake_ready cd a client w =
     Returns (e, client, set_conn (sfd cl) (c\<lparr>c_writes := Suc (c_writes c),
        c_sent := c_sent c @ (if c_wsched c (c_writes c) = 0
                              then [frame (to_bin cd (string_pair ''DLMessageVersionExchange'' ''DLVersionsOk''))] else []),
        c_reads := Suc (c_reads c)\<rparr>)
      (w\<lparr>w_heap := w_heap w + {#ABinBuf#},
         w_log := w_log w @ [LogPlist ''mobilesync_send'' (Some (string_pair ''DLMessageVersionExchange'' ''DLVersionsOk''))]\<rparr>))"
proof -
  define ack where "ack = string_pair ''DLMessageVersionExchange'' ''DLVersionsOk''"
  define c1 where "c1 = c\<lparr>c_writes := Suc (c_writes c),
      c_sent := c_sent c @ (if c_wsched c (c_writes c) = 0 then [frame (to_bin cd ack)] else [])\<rparr>"
  define w1 where "w1 = set_conn (sfd cl) c1 ((heap_alloc APlist w)\<lparr>w_heap := w_heap (heap_alloc APlist w) + {#ABinBuf#},
                  w_log := w_log (heap_alloc APlist w) @ [LogPlist ''mobilesync_send'' (Some ack)]\<rparr>)"
  have send: "mobilesync_send cd (Some a) (Some ack) (heap_alloc APlist w) =
      Returns (if c_wsched c (c_writes c) = 0 then IPHONE_E_SUCCESS else c_wsched c (c_writes c), w1)"
    using mobilesync_send_effect [of "heap_alloc APlist w" a cl c cd ack] client conn ack
    by (simp add: ack_def w1_def c1_def)
  have c2: "w_clients (plist_free (Some ack) w1) a = Some cl" using client by (simp add: w1_def)
  have o2: "open_conn (sfd cl) (plist_free (Some ack) w1) = Some c1"
    using open_conn_set_conn_open [OF conn] by (simp add: w1_def c1_def)
  have recv: "mobilesync_recv cd (Some a) (Some None) (plist_free (Some ack) w1) =
      Returns (e, Some None, set_conn (sfd cl) (c1\<lparr>c_reads := Suc (c_reads c1)\<rparr>) (plist_free (Some ack) w1))"
    using mobilesync_recv_fail_first [OF c2 o2, of e] fail by (simp add: c1_def)
  show ?thesis
    unfolding handshake_ready_def Let_def ack_def [symmetric]
    using send recv
    by (simp add: slot_value_def plist_cursor_defs w1_def c1_def world_op_defs)
qed

lemma new_client_first_read_fails:
  assumes listen: "w_listen w (dev_handle dev) port = Some c0" and port: "port \<noteq> 0"
    and fd: "0 \<le> w_next_sfd w"
    and fail: "c_rsched c0 (c_reads c0) = RdFail e" "e \<noteq> IPHONE_E_SUCCESS"
    and small: "length (to_bin cd (string_pair ''DLMessageDisconnect'' ''All done, thanks for the memories'')) < 2 ^ 32 - 4"
  shows "\<exists>w'. mobilesync_new_client cd (Some dev) port (Some None) w = Returns (e, Some None, w') \<and>
           w_conns w' (w_next_sfd w) = Some (c0\<lparr>c_open := False, c_reads := Suc (c_reads c0),
              c_writes := Suc (c_writes c0),
              c_sent := c_sent c0 @ (if c_wsched c0 (c_writes c0) = 0
                then [frame (to_bin cd (string_pair ''DLMessageDisconnect'' ''All done, thanks for the memories''))] else [])\<rparr>) \<and>
           w_heap w' = w_heap w + {#AClient, ABinBuf#}"
proof -
  obtain W where nc: "mobilesync_new_client cd (Some dev) port (Some None) w =
           outcome_bind (mobilesync_recv cd (Some (w_next_addr w)) (Some None) W)
             (\<lambda>(ret, slot, w3). handshake_version cd (w_next_addr w) (Some None) ret slot w3)"
    and cl: "w_clients W (w_next_addr w) = Some \<lparr>sfd = w_next_sfd w\<rparr>"
    and oc: "open_conn (sfd \<lparr>sfd = w_next_sfd w\<rparr>) W = Some (c0\<lparr>c_open := True\<rparr>)"
    and hp: "w_heap W = add_mset AClient (w_heap w)"
    using new_client_connected [OF listen port fd, of cd] by auto
  define W3 where "W3 = set_conn (w_next_sfd w) (c0\<lparr>c_open := True, c_reads := Suc (c_reads c0)\<rparr>) W"
  have recv: "mobilesync_recv cd (Some (w_next_addr w)) (Some None) W = Returns (e, Some None, W3)"
    using mobilesync_recv_fail_first [OF cl oc _ fail(2)] fail(1) by (simp add: W3_def)
  have cl3: "w_clients W3 (w_next_addr w) = Some \<lparr>sfd = w_next_sfd w\<rparr>" using cl by (simp add: W3_def)
  have oc3: "open_conn (sfd \<lparr>sfd = w_next_sfd w\<rparr>) W3 = Some (c0\<lparr>c_open := True, c_reads := Suc (c_reads c0)\<rparr>)"
    using open_conn_set_conn_open [OF oc] by (simp add: W3_def)
  show ?thesis
    using nc recv free_client_effect [OF cl3 oc3 small] fail(2) hp
    by (simp add: handshake_version_def slot_value_def new_client_finish_def W3_def set_conn_def)
qed
subsection \<open>Properties\<close>

text \<open>
  C3. The handshake succeeds: when the device answers on the port with a version
  message carrying 100 and 100 and then a message containing \<open>DLMessageDeviceReady\<close>,
  \<open>mobilesync_new_client\<close> returns success, stores the new client (which holds the
  connection's descriptor) in \<open>*client\<close>, leaves the connection open with the bytes
  after the two frames unread, and has written the one acknowledgement frame (when the
  transport accepted it).
\<close>

theorem new_client_handshake_succeeds:
  assumes "w_listen w (dev_handle dev) port = Some dc" and "port \<noteq> 0" and "0 \<le> w_next_sfd w"
    and "c_inbox dc = frame vb @ frame rb @ rest"
    and "length vb < 2 ^ 32" and "length rb < 2 ^ 32"
    and "\<forall>i\<ge>c_reads dc. \<exists>k\<ge>4. c_rsched dc i = RdChunk k"
    and "length (to_bin cd (string_pair ''DLMessageVersionExchange'' ''DLVersionsOk'')) < 2 ^ 32 - 4"
    and "from_bin cd vb = Some vmsg" and "version_fields (Some vmsg) = Some (MSYNC_VERSION_INT1, MSYNC_VERSION_INT2)"
    and "from_bin cd rb = Some rmsg" and "plist_find_node_by_string (Some rmsg) ''DLMessageDeviceReady'' \<noteq> []"
  shows "\<exists>w' c'. mobilesync_new_client cd (Some dev) port (Some None) w =
            Returns (IPHONE_E_SUCCESS, Some (Some (w_next_addr w)), w') \<and>
          w_clients w' (w_next_addr w) = Some \<lparr>sfd = w_next_sfd w\<rparr> \<and>
          open_conn (w_next_sfd w) w' = Some c' \<and> c_inbox c' = rest \<and>
          c_sent c' = c_sent dc @ (if c_wsched dc (c_writes dc) = 0 then [frame (to_bin cd (string_pair ''DLMessageVersionExchange'' ''DLVersionsOk''))] else [])"
  using new_client_success_effect [OF assms(1-10)] assms(11,12) by (fastforce simp: plist_find_node_by_string_def)

theorem new_client_handshake_succeeds_witness:
  "\<exists>w' c'. mobilesync_new_client (demo_codec 100 100) (Some \<lparr>dev_handle = 1\<rparr>) 5 (Some None)
       (demo_world (fresh_conn (frame [1] @ frame [2]) (\<lambda>_. RdChunk 8) (\<lambda>_. 0))) =
     Returns (IPHONE_E_SUCCESS, Some (Some 0), w') \<and> w_clients w' 0 = Some \<lparr>sfd = 3\<rparr> \<and>
     open_conn 3 w' = Some c' \<and> c_inbox c' = [] \<and> c_sent c' = [frame [0]]"
  using new_client_handshake_succeeds [where cd = "demo_codec 100 100" and dev = "\<lparr>dev_handle = 1\<rparr>" and port = 5
      and w = "demo_world (fresh_conn (frame [1] @ frame [2]) (\<lambda>_. RdChunk 8) (\<lambda>_. 0))"
      and dc = "fresh_conn (frame [1] @ frame [2]) (\<lambda>_. RdChunk 8) (\<lambda>_. 0)"
      and vb = "[1]" and rb = "[2]" and rest = "[]" and vmsg = "demo_version_msg 100 100"
      and rmsg = "PArray [PString ''DLMessageDeviceReady'']"]
  by (simp add: demo_defs)

text \<open>
  C4. A version mismatch is not reported: when the device's version message carries
  unsigned integers other than 100 and 100, \<open>mobilesync_new_client\<close> returns
  \<open>IPHONE_E_SUCCESS\<close> (the status of the receive) without setting \<open>*client\<close>; it
  sends nothing, leaves the connection open and the client structure allocated. The
  spec requires a protocol error and the closing of the session.
\<close>

theorem new_client_version_mismatch_unreported:
  assumes "w_listen w (dev_handle dev) port = Some dc" and "port \<noteq> 0" and "0 \<le> w_next_sfd w"
    and "c_inbox dc = frame vb @ rest" and "length vb < 2 ^ 32"
    and "\<forall>i\<ge>c_reads dc. \<exists>k\<ge>4. c_rsched dc i = RdChunk k"
    and "from_bin cd vb = Some vmsg" and "version_fields (Some vmsg) = Some (major, minor)"
    and "\<not> (major = MSYNC_VERSION_INT1 \<and> minor = MSYNC_VERSION_INT2)"
  shows "\<exists>w' c'. mobilesync_new_client cd (Some dev) port (Some None) w = Returns (IPHONE_E_SUCCESS, Some None, w') \<and>
           open_conn (w_next_sfd w) w' = Some c' \<and> c_sent c' = c_sent dc \<and> AClient \<in># w_heap w'"
  using new_client_version_mismatch [OF assms] by fastforce

theorem new_client_version_mismatch_unreported_witness:
  "\<exists>w' c'. mobilesync_new_client (demo_codec 99 100) (Some \<lparr>dev_handle = 1\<rparr>) 5 (Some None) (demo_world (fresh_conn (frame [1] @ frame [2]) (\<lambda>_. RdChunk 8) (\<lambda>_. 0))) =
     Returns (IPHONE_E_SUCCESS, Some None, w') \<and> open_conn 3 w' = Some c' \<and> c_sent c' = [] \<and> AClient \<in># w_heap w'"
  using new_client_version_mismatch_unreported [where cd = "demo_codec 99 100" and dev = "\<lparr>dev_handle = 1\<rparr>"
      and port = 5 and w = "demo_world (fresh_conn (frame [1] @ frame [2]) (\<lambda>_. RdChunk 8) (\<lambda>_. 0))" and dc = "fresh_conn (frame [1] @ frame [2]) (\<lambda>_. RdChunk 8) (\<lambda>_. 0)"
      and vb = "[1]" and rest = "frame [2]" and vmsg = "demo_version_msg 99 100" and major = 99 and minor = 100]
  by (simp add: demo_defs)

text \<open>
  C5. A message without the version fields is not reported either: when the first
  message has no \<open>DLMessageVersionExchange\<close> string followed by two unsigned integers
  (or does not decode), \<open>mobilesync_new_client\<close> returns \<open>IPHONE_E_SUCCESS\<close> without
  a client and without sending the acknowledgement, the connection stays open, and the
  decoded message is never freed.
\<close>

theorem new_client_missing_tag_unreported:
  assumes "w_listen w (dev_handle dev) port = Some dc" and "port \<noteq> 0" and "0 \<le> w_next_sfd w"
    and "c_inbox dc = frame vb @ rest" and "length vb < 2 ^ 32"
    and "\<forall>i\<ge>c_reads dc. \<exists>k\<ge>4. c_rsched dc i = RdChunk k"
    and "version_fields (from_bin cd vb) = None"
  shows "\<exists>w' c'. mobilesync_new_client cd (Some dev) port (Some None) w = Returns (IPHONE_E_SUCCESS, Some None, w') \<and>
           open_conn (w_next_sfd w) w' = Some c' \<and> c_sent c' = c_sent dc \<and>
           w_heap w' = w_heap w + {#AClient#} + (if from_bin cd vb = None then {#} else {#APlist#})"
  using new_client_no_version_tag [OF assms] by fastforce

theorem new_client_missing_tag_unreported_witness:
  "\<exists>w' c'. mobilesync_new_client (demo_codec 100 100) (Some \<lparr>dev_handle = 1\<rparr>) 5 (Some None)
       (demo_world (fresh_conn (frame [3]) (\<lambda>_. RdChunk 8) (\<lambda>_. 0))) =
     Returns (IPHONE_E_SUCCESS, Some None, w') \<and> open_conn 3 w' = Some c' \<and> c_sent c' = [] \<and>
     w_heap w' = {#AClient, APlist#}"
  using new_client_missing_tag_unreported [where cd = "demo_codec 100 100" and dev = "\<lparr>dev_handle = 1\<rparr>"
      and port = 5 and w = "demo_world (fresh_conn (frame [3]) (\<lambda>_. RdChunk 8) (\<lambda>_. 0))"
      and dc = "fresh_conn (frame [3]) (\<lambda>_. RdChunk 8) (\<lambda>_. 0)" and vb = "[3]" and rest = "[]"]
  by (simp add: demo_defs add_mset_commute)

text \<open>
  C6. A transport failure during the handshake releases the session: when the first
  read fails with status \<open>e\<close>, \<open>mobilesync_new_client\<close> returns \<open>e\<close> without a
  client, after one attempt to send the disconnect frame and the closing of the
  connection.
\<close>

theorem new_client_read_error_releases:
  assumes "w_listen w (dev_handle dev) port = Some dc" and "port \<noteq> 0" and "0 \<le> w_next_sfd w"
    and "c_rsched dc (c_reads dc) = RdFail e" and "e \<noteq> IPHONE_E_SUCCESS"
    and "length (to_bin cd (string_pair ''DLMessageDisconnect'' ''All done, thanks for the memories'')) < 2 ^ 32 - 4"
  shows "\<exists>w' c'. mobilesync_new_client cd (Some dev) port (Some None) w = Returns (e, Some None, w') \<and>
           w_conns w' (w_next_sfd w) = Some c' \<and> \<not> c_open c' \<and> c_writes c' = Suc (c_writes dc) \<and>
           c_sent c' = c_sent dc @ (if c_wsched dc (c_writes dc) = 0 then [frame (to_bin cd (string_pair ''DLMessageDisconnect'' ''All done, thanks for the memories''))] else [])"
  using new_client_first_read_fails [OF assms] by fastforce

theorem new_client_read_error_releases_witness:
  "\<exists>w' c'. mobilesync_new_client (demo_codec 100 100) (Some \<lparr>dev_handle = 1\<rparr>) 5 (Some None)
       (demo_world (fresh_conn [] (\<lambda>_. RdFail (-5)) (\<lambda>_. 0))) = Returns (-5, Some None, w') \<and>
     w_conns w' 3 = Some c' \<and> \<not> c_open c' \<and> c_writes c' = 1 \<and> c_sent c' = [frame [0]]"
  using new_client_read_error_releases [where cd = "demo_codec 100 100" and dev = "\<lparr>dev_handle = 1\<rparr>"
      and port = 5 and w = "demo_world (fresh_conn [] (\<lambda>_. RdFail (-5)) (\<lambda>_. 0))"
      and dc = "fresh_conn [] (\<lambda>_. RdFail (-5)) (\<lambda>_. 0)" and e = "-5"]
  by (simp add: demo_defs IPHONE_E_SUCCESS_def)

text \<open>
  C7. Releasing a client sends the disconnect frame and then closes: on a live client
  with an open connection, \<open>mobilesync_free_client\<close> makes exactly one write attempt,
  of the frame of \<open>["DLMessageDisconnect", "All done, thanks for the memories"]\<close>,
  closes the connection whether or not the write succeeded, and returns the close
  status 0.
\<close>

theorem free_client_disconnects_then_closes:
  assumes "w_clients w a = Some cl" and "open_conn (sfd cl) w = Some c"
    and "length (to_bin cd (string_pair ''DLMessageDisconnect'' ''All done, thanks for the memories'')) < 2 ^ 32 - 4"
  shows "\<exists>w' c'. mobilesync_free_client cd (Some a) w = Returns (0, w') \<and>
           w_conns w' (sfd cl) = Some c' \<and> \<not> c_open c' \<and> c_writes c' = Suc (c_writes c) \<and>
           c_sent c' = c_sent c @ (if c_wsched c (c_writes c) = 0 then [frame (to_bin cd (string_pair ''DLMessageDisconnect'' ''All done, thanks for the memories''))] else [])"
  using free_client_effect [OF assms] by (simp add: set_conn_def)

theorem free_client_disconnects_then_closes_witness:
  "\<exists>w' c'. mobilesync_free_client (demo_codec 100 100) (Some 0)
       (empty_world\<lparr>w_conns := [3 \<mapsto> fresh_conn [] (\<lambda>_. RdChunk 1) (\<lambda>_. -1)], w_clients := [0 \<mapsto> \<lparr>sfd = 3\<rparr>]\<rparr>) =
     Returns (0, w') \<and> w_conns w' 3 = Some c' \<and> \<not> c_open c' \<and> c_writes c' = 1 \<and> c_sent c' = []"
  using free_client_disconnects_then_closes [where cd = "demo_codec 100 100" and a = 0 and cl = "\<lparr>sfd = 3\<rparr>"
      and w = "empty_world\<lparr>w_conns := [3 \<mapsto> fresh_conn [] (\<lambda>_. RdChunk 1) (\<lambda>_. -1)], w_clients := [0 \<mapsto> \<lparr>sfd = 3\<rparr>]\<rparr>"
      and c = "fresh_conn [] (\<lambda>_. RdChunk 1) (\<lambda>_. -1)"]
  by (simp add: demo_defs open_conn_def)

text \<open>
  C8. The entry points reject NULL arguments without any effect: \<open>mobilesync_free_client\<close>
  of NULL, \<open>mobilesync_recv\<close> with a NULL client, a NULL slot or a slot already
  holding a plist, \<open>mobilesync_send\<close> with a NULL client or plist, and
  \<open>mobilesync_new_client\<close> with a NULL device, port 0, a NULL or filled client slot
  all return \<open>IPHONE_E_INVALID_ARG\<close> and leave the world unchanged.
\<close>

theorem entry_points_reject_null:
  "mobilesync_free_client cd None w = Returns (IPHONE_E_INVALID_ARG, w) \<and>
   (client = None \<or> slot = None \<or> slot = Some (Some p) \<longrightarrow>
      mobilesync_recv cd client slot w = Returns (IPHONE_E_INVALID_ARG, slot, w)) \<and>
   (client = None \<or> msg = None \<longrightarrow> mobilesync_send cd client msg w = Returns (IPHONE_E_INVALID_ARG, w)) \<and>
   (device = None \<or> port = 0 \<or> out = None \<or> out = Some (Some a) \<longrightarrow>
      mobilesync_new_client cd device port out w = Returns (IPHONE_E_INVALID_ARG, out, w))"
  by (auto simp: mobilesync_free_client_def mobilesync_recv_def mobilesync_send_def mobilesync_new_client_def
      split: option.splits)

theorem entry_points_reject_null_witness:
  "mobilesync_free_client (demo_codec 100 100) None empty_world = Returns (IPHONE_E_INVALID_ARG, empty_world) \<and>
   mobilesync_recv (demo_codec 100 100) (Some 0) (Some (Some (PBoolean True))) empty_world =
     Returns (IPHONE_E_INVALID_ARG, Some (Some (PBoolean True)), empty_world) \<and>
   mobilesync_send (demo_codec 100 100) (Some 0) None empty_world = Returns (IPHONE_E_INVALID_ARG, empty_world) \<and>
   mobilesync_new_client (demo_codec 100 100) (Some \<lparr>dev_handle = 1\<rparr>) 0 (Some None) empty_world =
     Returns (IPHONE_E_INVALID_ARG, Some None, empty_world)"
  using entry_points_reject_null [where cd = "demo_codec 100 100" and w = empty_world and client = "Some 0"
      and slot = "Some (Some (PBoolean True))" and p = "PBoolean True" and msg = "None" and device = "Some \<lparr>dev_handle = 1\<rparr>"
      and port = 0 and out = "Some None"]
  by simp

text \<open>
  C17. A failed connection is reported as an unknown error: when the device does not
  accept the port, \<open>mobilesync_new_client\<close> returns \<open>IPHONE_E_UNKNOWN_ERROR\<close>,
  leaves the slot empty and the world unchanged. The spec asks for a connection error;
  the code's status does not tell it apart from the other unknown failures.
\<close>

theorem new_client_connect_failure:
  assumes "w_listen w (dev_handle dev) port = None" and "port \<noteq> 0"
  shows "mobilesync_new_client cd (Some dev) port (Some None) w = Returns (IPHONE_E_UNKNOWN_ERROR, Some None, w)"
  using assms by (simp add: mobilesync_new_client_def usbmuxd_connect_def)

theorem new_client_connect_failure_witness:
  "mobilesync_new_client (demo_codec 100 100) (Some \<lparr>dev_handle = 1\<rparr>) 6 (Some None)
     (demo_world (fresh_conn [] (\<lambda>_. RdChunk 8) (\<lambda>_. 0))) =
   Returns (IPHONE_E_UNKNOWN_ERROR, Some None, demo_world (fresh_conn [] (\<lambda>_. RdChunk 8) (\<lambda>_. 0)))"
  using new_client_connect_failure [where cd = "demo_codec 100 100" and dev = "\<lparr>dev_handle = 1\<rparr>" and port = 6
      and w = "demo_world (fresh_conn [] (\<lambda>_. RdChunk 8) (\<lambda>_. 0))"]
  by (simp add: demo_defs)

text \<open>
  C18. Releasing a client twice is not caught and frees nothing: the first
  \<open>mobilesync_free_client\<close> closes the connection and returns 0; the second finds
  the client structure still in place (line 124 never frees it), attempts the
  disconnect send on the closed descriptor, and returns the transport's \<open>EBADF\<close>. The
  connection is not touched again, the client structure survives both calls, and each
  call leaks one encoding buffer.
\<close>

theorem free_client_twice:
  assumes "w_clients w a = Some cl" and "open_conn (sfd cl) w = Some c"
    and "length (to_bin cd (string_pair ''DLMessageDisconnect'' ''All done, thanks for the memories'')) < 2 ^ 32 - 4"
  shows "\<exists>w1 w2. mobilesync_free_client cd (Some a) w = Returns (0, w1) \<and>
           mobilesync_free_client cd (Some a) w1 = Returns (USBMUXD_EBADF, w2) \<and>
           w_conns w2 = w_conns w1 \<and> w_clients w2 = w_clients w \<and>
           w_heap w2 = w_heap w + {#ABinBuf, ABinBuf#}"
proof -
  note first = free_client_effect [OF assms]
  define w1 where "w1 = set_conn (sfd cl) (c\<lparr>c_writes := Suc (c_writes c),
        c_sent := c_sent c @ (if c_wsched c (c_writes c) = 0
          then [frame (to_bin cd (string_pair ''DLMessageDisconnect'' ''All done, thanks for the memories''))] else []),
        c_open := False\<rparr>)
      (w\<lparr>w_heap := w_heap w + {#ABinBuf#},
         w_log := w_log w @ [LogPlist ''mobilesync_send'' (Some (string_pair ''DLMessageDisconnect'' ''All done, thanks for the memories''))]\<rparr>)"
  have cl1: "w_clients w1 a = Some cl" using assms(1) by (simp add: w1_def set_conn_def)
  have closed: "open_conn (sfd cl) w1 = None" by (simp add: w1_def)
  define w2 where "w2 = w1\<lparr>w_heap := w_heap w1 + {#ABinBuf#},
         w_log := w_log w1 @ [LogPlist ''mobilesync_send'' (Some (string_pair ''DLMessageDisconnect'' ''All done, thanks for the memories''))]\<rparr>"
  have second: "mobilesync_free_client cd (Some a) w1 = Returns (USBMUXD_EBADF, w2)"
    unfolding w2_def by (rule free_client_closed [OF cl1 closed assms(3)])
  have "mobilesync_free_client cd (Some a) w = Returns (0, w1)" using first by (simp only: w1_def)
  moreover have "w_heap w1 = w_heap w + {#ABinBuf#}" "w_clients w1 = w_clients w"
    by (simp_all add: w1_def set_conn_def)
  ultimately show ?thesis
    using second by (intro exI [of _ w1] exI [of _ w2]) (simp add: w2_def)
qed

theorem free_client_twice_witness:
  "\<exists>w1 w2. mobilesync_free_client (demo_codec 100 100) (Some 0)
       (empty_world\<lparr>w_conns := [3 \<mapsto> fresh_conn [] (\<lambda>_. RdChunk 1) (\<lambda>_. 0)], w_clients := [0 \<mapsto> \<lparr>sfd = 3\<rparr>]\<rparr>) =
     Returns (0, w1) \<and>
     mobilesync_free_client (demo_codec 100 100) (Some 0) w1 = Returns (USBMUXD_EBADF, w2) \<and>
     w_conns w2 = w_conns w1 \<and> w_clients w2 = [0 \<mapsto> \<lparr>sfd = 3\<rparr>] \<and> w_heap w2 = {#ABinBuf, ABinBuf#}"
  using free_client_twice [where cd = "demo_codec 100 100" and a = 0 and cl = "\<lparr>sfd = 3\<rparr>"
      and w = "empty_world\<lparr>w_conns := [3 \<mapsto> fresh_conn [] (\<lambda>_. RdChunk 1) (\<lambda>_. 0)], w_clients := [0 \<mapsto> \<lparr>sfd = 3\<rparr>]\<rparr>"
      and c = "fresh_conn [] (\<lambda>_. RdChunk 1) (\<lambda>_. 0)"]
  by (simp add: demo_defs open_conn_def)

text \<open>
  C28. A transport failure while waiting for the ready message releases the session:
  when the version message arrives in two reads and matches, and the next read fails
  with status \<open>e\<close>, \<open>mobilesync_new_client\<close> returns \<open>e\<close> without a client,
  after two write attempts (the acknowledgement and the disconnect message) and the
  closing of the connection, as the spec's \<open>Failed\<close> state requires.
\<close>

theorem new_client_ready_read_error_releases:
  assumes listen: "w_listen w (dev_handle dev) port = Some dc" and port: "port \<noteq> 0" and fd: "0 \<le> w_next_sfd w"
    and inbox: "c_inbox dc = frame vb @ rest" and len: "length vb < 2 ^ 32" and nonempty: "vb \<noteq> []"
    and first: "c_rsched dc (c_reads dc) = RdChunk n" "4 \<le> n"
    and second: "c_rsched dc (Suc (c_reads dc)) = RdChunk k" "length vb \<le> k"
    and fail: "c_rsched dc (Suc (Suc (c_reads dc))) = RdFail e" "e \<noteq> IPHONE_E_SUCCESS"
    and ack: "length (to_bin cd (string_pair ''DLMessageVersionExchange'' ''DLVersionsOk'')) < 2 ^ 32 - 4"
    and disc: "length (to_bin cd (string_pair ''DLMessageDisconnect'' ''All done, thanks for the memories'')) < 2 ^ 32 - 4"
    and ver: "from_bin cd vb = Some vmsg" "version_fields (Some vmsg) = Some (MSYNC_VERSION_INT1, MSYNC_VERSION_INT2)"
  shows "\<exists>w' c'. mobilesync_new_client cd (Some dev) port (Some None) w = Returns (e, Some None, w') \<and>
           w_conns w' (w_next_sfd w) = Some c' \<and> \<not> c_open c' \<and>
           c_writes c' = c_writes dc + 2 \<and> c_reads c' = c_reads dc + 3"
proof -
  define a where "a = w_next_addr w"
  obtain W where nc: "mobilesync_new_client cd (Some dev) port (Some None) w =
           outcome_bind (mobilesync_recv cd (Some a) (Some None) W)
             (\<lambda>(ret, slot, w3). handshake_version cd a (Some None) ret slot w3)"
    and cl: "w_clients W a = Some \<lparr>sfd = w_next_sfd w\<rparr>"
    and oc: "open_conn (sfd \<lparr>sfd = w_next_sfd w\<rparr>) W = Some (dc\<lparr>c_open := True\<rparr>)"
    using new_client_connected [OF listen port fd, of cd] by (auto simp: a_def)
  obtain w3 where recv: "mobilesync_recv cd (Some a) (Some None) W = Returns (IPHONE_E_SUCCESS, Some (Some vmsg), w3)"
    and oc3: "open_conn (sfd \<lparr>sfd = w_next_sfd w\<rparr>) w3 =
                Some (dc\<lparr>c_open := True, c_inbox := rest, c_reads := Suc (Suc (c_reads dc))\<rparr>)"
    and cl3: "w_clients w3 = w_clients W"
    using mobilesync_recv_frame_two_reads [OF cl oc _ len nonempty _ first(2) _ second(2), of rest cd] inbox first(1) second(1) ver(1)
    by auto
  define c3 where "c3 = dc\<lparr>c_open := True, c_inbox := rest, c_reads := Suc (Suc (c_reads dc))\<rparr>"
  have cl4: "w_clients (plist_free (Some vmsg) w3) a = Some \<lparr>sfd = w_next_sfd w\<rparr>" using cl cl3 by simp
  have oc4: "open_conn (sfd \<lparr>sfd = w_next_sfd w\<rparr>) (plist_free (Some vmsg) w3) = Some c3" using oc3 by (simp add: c3_def)
  have hr: "handshake_ready cd a (Some None) (plist_free (Some vmsg) w3) =
     Returns (e, Some None, set_conn (w_next_sfd w) (c3\<lparr>c_writes := Suc (c_writes c3),
        c_sent := c_sent c3 @ (if c_wsched c3 (c_writes c3) = 0
                              then [frame (to_bin cd (string_pair ''DLMessageVersionExchange'' ''DLVersionsOk''))] else []),
        c_reads := Suc (c_reads c3)\<rparr>)
      ((plist_free (Some vmsg) w3)\<lparr>w_heap := w_heap (plist_free (Some vmsg) w3) + {#ABinBuf#},
         w_log := w_log (plist_free (Some vmsg) w3) @
           [LogPlist ''mobilesync_send'' (Some (string_pair ''DLMessageVersionExchange'' ''DLVersionsOk''))]\<rparr>))"
    (is "_ = Returns (e, Some None, ?w5)")
    using handshake_ready_read_fails [OF cl4 oc4 _ fail(2) ack, of "Some None"] fail(1) by (simp add: c3_def)
  have cl5: "w_clients ?w5 a = Some \<lparr>sfd = w_next_sfd w\<rparr>" using cl4 by (simp add: set_conn_def)
  have oc5: "open_conn (sfd \<lparr>sfd = w_next_sfd w\<rparr>) ?w5 = Some (c3\<lparr>c_writes := Suc (c_writes c3),
        c_sent := c_sent c3 @ (if c_wsched c3 (c_writes c3) = 0
                              then [frame (to_bin cd (string_pair ''DLMessageVersionExchange'' ''DLVersionsOk''))] else []),
        c_reads := Suc (c_reads c3)\<rparr>)"
    by (simp add: c3_def)
  show ?thesis
    using nc recv ver(2) hr free_client_effect [OF cl5 oc5 disc] fail(2)
    by (simp add: handshake_version_def slot_value_def new_client_finish_def set_conn_def c3_def)
qed

theorem new_client_ready_read_error_releases_witness:
  "\<exists>w' c'. mobilesync_new_client (demo_codec 100 100) (Some \<lparr>dev_handle = 1\<rparr>) 5 (Some None)
       (demo_world (fresh_conn (frame [1]) (\<lambda>i. if i < 2 then RdChunk 8 else RdFail (-5)) (\<lambda>_. 0))) =
     Returns (-5, Some None, w') \<and> w_conns w' 3 = Some c' \<and> \<not> c_open c' \<and> c_writes c' = Suc (Suc 0) \<and> c_reads c' = 3"
  using new_client_ready_read_error_releases [where cd = "demo_codec 100 100" and dev = "\<lparr>dev_handle = 1\<rparr>"
      and port = 5 and w = "demo_world (fresh_conn (frame [1]) (\<lambda>i. if i < 2 then RdChunk 8 else RdFail (-5)) (\<lambda>_. 0))"
      and dc = "fresh_conn (frame [1]) (\<lambda>i. if i < 2 then RdChunk 8 else RdFail (-5)) (\<lambda>_. 0)"
      and vb = "[1]" and rest = "[]" and n = 8 and k = 8 and e = "-5" and vmsg = "demo_version_msg 100 100"]
  by (simp add: demo_defs IPHONE_E_SUCCESS_def)

text \<open>
  C31. Release always completes and leaves the transport closed: for any live client
  structure, whatever the state of its connection (open or already closed) and however
  the transport answers the disconnect message, \<open>mobilesync_free_client\<close> returns,
  and afterwards the client's descriptor names no open connection. The spec requires
  release to close the session even if the notification fails.
\<close>

theorem release_always_closes:
  assumes client: "w_clients w a = Some cl"
    and small: "length (to_bin cd (string_pair ''DLMessageDisconnect'' ''All done, thanks for the memories'')) < 2 ^ 32 - 4"
  shows "\<exists>r w'. mobilesync_free_client cd (Some a) w = Returns (r, w') \<and> open_conn (sfd cl) w' = None \<and>
           w_clients w' = w_clients w"
proof (cases "open_conn (sfd cl) w")
  case None
  then show ?thesis using free_client_closed [OF client None small] by (simp add: open_conn_def)
next
  case (Some c)
  then show ?thesis using free_client_effect [OF client Some small] by (simp add: set_conn_def open_conn_def)
qed

theorem release_always_closes_witness:
  "\<exists>r w'. mobilesync_free_client (demo_codec 100 100) (Some 0)
       (empty_world\<lparr>w_conns := [3 \<mapsto> fresh_conn [] (\<lambda>_. RdChunk 1) (\<lambda>_. -1)], w_clients := [0 \<mapsto> \<lparr>sfd = 3\<rparr>]\<rparr>) =
     Returns (r, w') \<and> open_conn 3 w' = None \<and> w_clients w' = [0 \<mapsto> \<lparr>sfd = 3\<rparr>]"
  using release_always_closes [where cd = "demo_codec 100 100" and a = 0 and cl = "\<lparr>sfd = 3\<rparr>"
      and w = "empty_world\<lparr>w_conns := [3 \<mapsto> fresh_conn [] (\<lambda>_. RdChunk 1) (\<lambda>_. -1)], w_clients := [0 \<mapsto> \<lparr>sfd = 3\<rparr>]\<rparr>"]
  by (simp add: demo_defs)

text \<open>
  C33. A ready message that does not decode or lacks \<open>DLMessageDeviceReady\<close> leaks
  the session (lines 83--98): after the matching versions and the acknowledgement,
  \<open>mobilesync_new_client\<close> returns \<open>IPHONE_E_SUCCESS\<close> with the slot empty, yet the
  status being success it never calls \<open>mobilesync_free_client\<close>: the connection stays
  open with the frames consumed and the acknowledgement written, and the client
  structure stays allocated and registered, unreachable by the caller.
\<close>

theorem new_client_ready_missing_leaks:
  assumes "w_listen w (dev_handle dev) port = Some dc" and "port \<noteq> 0" and "0 \<le> w_next_sfd w"
    and "c_inbox dc = frame vb @ frame rb @ rest"
    and "length vb < 2 ^ 32" "length rb < 2 ^ 32"
    and "\<forall>i\<ge>c_reads dc. \<exists>k\<ge>4. c_rsched dc i = RdChunk k"
    and "length (to_bin cd (string_pair ''DLMessageVersionExchange'' ''DLVersionsOk'')) < 2 ^ 32 - 4"
    and "from_bin cd vb = Some vmsg" "version_fields (Some vmsg) = Some (MSYNC_VERSION_INT1, MSYNC_VERSION_INT2)"
    and no_ready: "plist_find_node_by_string (from_bin cd rb) ''DLMessageDeviceReady'' = []"
  shows "\<exists>w' c'. mobilesync_new_client cd (Some dev) port (Some None) w = Returns (IPHONE_E_SUCCESS, Some None, w') \<and>
           open_conn (w_next_sfd w) w' = Some c' \<and> c_inbox c' = rest \<and> c_writes c' = Suc (c_writes dc) \<and>
           w_clients w' (w_next_addr w) = Some \<lparr>sfd = w_next_sfd w\<rparr> \<and> AClient \<in># w_heap w'"
  using new_client_success_effect [OF assms(1-10)] no_ready by fastforce

theorem new_client_ready_missing_leaks_witness:
  "\<exists>w' c'. mobilesync_new_client (demo_codec 100 100) (Some \<lparr>dev_handle = 1\<rparr>) 5 (Some None)
      (demo_world (fresh_conn (frame [1] @ frame [9]) (\<lambda>_. RdChunk 8) (\<lambda>_. 0))) = Returns (IPHONE_E_SUCCESS, Some None, w') \<and>
     open_conn 3 w' = Some c' \<and> c_inbox c' = [] \<and> c_writes c' = 1 \<and>
     w_clients w' 0 = Some \<lparr>sfd = 3\<rparr> \<and> AClient \<in># w_heap w'"
  using new_client_ready_missing_leaks [where cd = "demo_codec 100 100" and dev = "\<lparr>dev_handle = 1\<rparr>"
      and port = 5 and w = "demo_world (fresh_conn (frame [1] @ frame [9]) (\<lambda>_. RdChunk 8) (\<lambda>_. 0))"
      and dc = "fresh_conn (frame [1] @ frame [9]) (\<lambda>_. RdChunk 8) (\<lambda>_. 0)"
      and vb = "[1]" and rb = "[9]" and rest = "[]" and vmsg = "demo_version_msg 100 100"]
  by (simp add: demo_defs)

end
