(* ===== verification/Session.thy ===== *)
theory Session
  imports Handshake
begin

text \<open>
  The session invariant of the spec's section 3: a non-NULL client handle names an
  open transport connection. The channel operations and the handshake never close a
  connection and never remove a client structure (\<open>conns_kept\<close>); only
  \<open>usbmuxd_disconnect\<close>, called by \<open>mobilesync_free_client\<close>, closes. These lemmas
  hold in every world, for every read and write schedule and every codec.
\<close>

definition conns_kept :: "world \<Rightarrow> world \<Rightarrow> bool" where
  "conns_kept w w' \<longleftrightarrow>
     w_clients w' = w_clients w \<and> (\<forall>fd. open_conn fd w \<noteq> None \<longrightarrow> open_conn fd w' \<noteq> None)"

text \<open>
  Several clients on one world. \<open>conns_only fd\<close> relates two worlds that differ at most
  in the connection with descriptor \<open>fd\<close> (and in the heap and the log). An
  application's step is one call of the API for one client, \<open>client_op\<close>; a schedule
  is a list of steps of any clients, run in order by \<open>run_ops\<close>, which collects the
  statuses.
\<close>

definition conns_only :: "int \<Rightarrow> world \<Rightarrow> world \<Rightarrow> bool" where
  "conns_only fd w w' \<longleftrightarrow> w_clients w' = w_clients w \<and> (\<forall>fd'. fd' \<noteq> fd \<longrightarrow> w_conns w' fd' = w_conns w fd')"

datatype client_op = OpRecv | OpSend plist | OpFree

fun run_op :: "codec \<Rightarrow> client_ptr \<Rightarrow> client_op \<Rightarrow> world \<Rightarrow> (iphone_error_t \<times> world) outcome" where
  "run_op cd a OpRecv w = outcome_bind (mobilesync_recv cd (Some a) (Some None) w) (\<lambda>(ret, _, w'). Returns (ret, w'))"
| "run_op cd a (OpSend m) w = mobilesync_send cd (Some a) (Some m) w"
| "run_op cd a OpFree w = mobilesync_free_client cd (Some a) w"

fun run_ops :: "codec \<Rightarrow> (client_ptr \<times> client_op) list \<Rightarrow> world \<Rightarrow> (iphone_error_t list \<times> world) outcome" where
  "run_ops cd [] w = Returns ([], w)"
| "run_ops cd ((a, op) # ops) w =
     outcome_bind (run_op cd a op w)
       (\<lambda>(r, w1). outcome_bind (run_ops cd ops w1) (\<lambda>(rs, w2). Returns (r # rs, w2)))"

named_theorems kept_intros

lemma conns_kept_refl [simp, kept_intros]: "conns_kept w w"
  by (simp add: conns_kept_def)

lemma conns_kept_trans: "conns_kept w1 w2 \<Longrightarrow> conns_kept w2 w3 \<Longrightarrow> conns_kept w1 w3"
  by (simp add: conns_kept_def)

text \<open>The heap, plist, XML and log operations touch neither connections nor clients.\<close>

lemma conns_kept_ops_right [simp]:
  "conns_kept w (heap_alloc a w') = conns_kept w w'" "conns_kept w (heap_free a w') = conns_kept w w'"
  "conns_kept w (plist_free p w') = conns_kept w w'" "conns_kept w (plist_to_xml p w') = conns_kept w w'"
  "conns_kept w (xml_free p w') = conns_kept w w'" "conns_kept w (log_dbg_msg f p w') = conns_kept w w'"
  by (simp_all add: conns_kept_def)

lemma conns_kept_ops_left [simp]:
  "conns_kept (heap_alloc a w) w' = conns_kept w w'" "conns_kept (heap_free a w) w' = conns_kept w w'"
  "conns_kept (plist_free p w) w' = conns_kept w w'" "conns_kept (plist_to_xml p w) w' = conns_kept w w'"
  "conns_kept (xml_free p w) w' = conns_kept w w'" "conns_kept (log_dbg_msg f p w) w' = conns_kept w w'"
  by (simp_all add: conns_kept_def)

lemma conns_kept_set_conn [kept_intros]:
  "open_conn fd w = Some c \<Longrightarrow> c_open c' = c_open c \<Longrightarrow> conns_kept w (set_conn fd c' w)"
  by (auto simp: conns_kept_def dest: open_conn_SomeD)

lemma usbmuxd_recv_kept: "usbmuxd_recv fd n w = (r, bs, w') \<Longrightarrow> conns_kept w w'"
  by (auto simp: usbmuxd_recv_def Let_def intro: kept_intros split: option.splits rd_event.splits)

lemma usbmuxd_send_kept: "usbmuxd_send fd bs w = (r, w') \<Longrightarrow> conns_kept w w'"
  by (auto simp: usbmuxd_send_def Let_def intro: kept_intros split: option.splits if_splits)

lemma recv_prefix_kept: "recv_prefix fd w = (r, len, w') \<Longrightarrow> conns_kept w w'"
  by (auto simp: recv_prefix_def intro: usbmuxd_recv_kept split: prod.splits)

text \<open>
  Any relation between worlds that every read on the loop's descriptor establishes, and
  that is reflexive and transitive, holds between the states before and after the loop.
\<close>

lemma recv_loop_world:
  assumes step: "\<And>w n r bs w'. usbmuxd_recv fd n w = (r, bs, w') \<Longrightarrow> R w w'"
    and refl: "\<And>w. R w w" and trans: "\<And>w1 w2 w3. R w1 w2 \<Longrightarrow> R w2 w3 \<Longrightarrow> R w1 w3"
    and loop: "recv_loop fd datalen received ret buf w = Some (ret', r', buf', w')"
  shows "R w w'"
  by (rule recv_loop_invariant [where I = "\<lambda>_ _. R w", OF _ loop]) (blast intro: trans step refl)+

lemma recv_loop_kept:
  "recv_loop fd datalen received ret buf w = Some (ret', r', buf', w') \<Longrightarrow> conns_kept w w'"
  by (rule recv_loop_world [where R = conns_kept]) (auto intro: usbmuxd_recv_kept conns_kept_trans)

subsection \<open>Isolation of clients\<close>

lemma conns_only_refl [simp]: "conns_only fd w w"
  by (simp add: conns_only_def)

lemma conns_only_trans: "conns_only fd w1 w2 \<Longrightarrow> conns_only fd w2 w3 \<Longrightarrow> conns_only fd w1 w3"
  by (simp add: conns_only_def)

lemma conns_only_ops_right [simp]:
  "conns_only fd w (heap_alloc a w') = conns_only fd w w'" "conns_only fd w (heap_free a w') = conns_only fd w w'"
  "conns_only fd w (plist_free p w') = conns_only fd w w'" "conns_only fd w (plist_to_xml p w') = conns_only fd w w'"
  "conns_only fd w (xml_free p w') = conns_only fd w w'" "conns_only fd w (log_dbg_msg f p w') = conns_only fd w w'"
  by (simp_all add: conns_only_def)

lemma conns_only_ops_left [simp]:
  "conns_only fd (heap_alloc a w) w' = conns_only fd w w'" "conns_only fd (heap_free a w) w' = conns_only fd w w'"
  "conns_only fd (plist_free p w) w' = conns_only fd w w'" "conns_only fd (plist_to_xml p w) w' = conns_only fd w w'"
  "conns_only fd (xml_free p w) w' = conns_only fd w w'" "conns_only fd (log_dbg_msg f p w) w' = conns_only fd w w'"
  by (simp_all add: conns_only_def)

lemma conns_only_set_conn [simp]: "conns_only fd w (set_conn fd c w)"
  by (simp add: conns_only_def set_conn_def)

lemma usbmuxd_only:
  "usbmuxd_recv fd n w = (r, bs, w') \<Longrightarrow> conns_only fd w w'"
  "usbmuxd_send fd data w = (r, w') \<Longrightarrow> conns_only fd w w'"
  "usbmuxd_disconnect fd w = (r, w') \<Longrightarrow> conns_only fd w w'"
  by (auto simp: usbmuxd_recv_def usbmuxd_send_def usbmuxd_disconnect_def Let_def
      split: option.splits rd_event.splits if_splits)

lemma recv_loop_only:
  "recv_loop fd datalen received ret buf w = Some (ret', r', buf', w') \<Longrightarrow> conns_only fd w w'"
  by (rule recv_loop_world [where R = "conns_only fd"]) (auto intro: usbmuxd_only(1) conns_only_trans)

lemma mobilesync_recv_only:
  assumes "mobilesync_recv cd (Some a) slot w = Returns (r, s, w')" and "w_clients w a = Some cl"
  shows "conns_only (sfd cl) w w'"
proof (cases "slot = Some None")
  case True
  obtain ret len w1 where pre: "recv_prefix (sfd cl) w = (ret, len, w1)" by (cases "recv_prefix (sfd cl) w") auto
  have "conns_only (sfd cl) w w1" using pre by (auto simp: recv_prefix_def intro: usbmuxd_only(1) split: prod.splits)
  then show ?thesis
    using assms True pre
    by (auto simp: mobilesync_recv_def Let_def split: if_splits dest!: recv_loop_only intro: conns_only_trans)
next
  case False
  with assms show ?thesis by (auto simp: mobilesync_recv_def split: option.splits)
qed

lemma mobilesync_send_only:
  "mobilesync_send cd (Some a) msg w = Returns (r, w') \<Longrightarrow> w_clients w a = Some cl \<Longrightarrow> conns_only (sfd cl) w w'"
  by (auto simp: mobilesync_send_def Let_def split: option.splits prod.splits if_splits dest!: usbmuxd_only(2))

lemma free_client_only:
  assumes "mobilesync_free_client cd (Some a) w = Returns (r, w')" and "w_clients w a = Some cl"
  shows "conns_only (sfd cl) w w'"
  using assms
  by (auto simp: mobilesync_free_client_def mobilesync_disconnect_def Let_def conns_only_def
      dest!: mobilesync_send_only usbmuxd_only(3))

lemma run_op_only:
  "run_op cd a op w = Returns (r, w') \<Longrightarrow> w_clients w a = Some cl \<Longrightarrow> conns_only (sfd cl) w w'"
  by (cases op) (auto dest: mobilesync_recv_only mobilesync_send_only free_client_only)

lemma mobilesync_recv_kept:
  assumes "mobilesync_recv cd client slot w = Returns (r, s, w')"
  shows "conns_kept w w'"
proof (cases "client \<noteq> None \<and> slot = Some None")
  case True
  then obtain a where a: "client = Some a" "slot = Some None" by auto
  with assms obtain cl where cl: "w_clients w a = Some cl"
    by (cases "w_clients w a") (simp_all add: mobilesync_recv_def)
  obtain ret len w1 where pre: "recv_prefix (sfd cl) w = (ret, len, w1)" by (cases "recv_prefix (sfd cl) w") auto
  show ?thesis
    using assms a cl pre recv_prefix_kept [OF pre]
    by (auto simp: mobilesync_recv_def Let_def split: if_splits dest!: recv_loop_kept intro: conns_kept_trans)
next
  case False
  with assms show ?thesis by (auto simp: mobilesync_recv_def split: option.splits)
qed

lemma mobilesync_send_kept:
  assumes "mobilesync_send cd client msg w = Returns (r, w')"
  shows "conns_kept w w'"
  using assms
  by (auto simp: mobilesync_send_def Let_def split: option.splits prod.splits if_splits
      dest!: usbmuxd_send_kept)

subsection \<open>The handshake\<close>

lemma handshake_ready_kept:
  assumes "handshake_ready cd a client w = Returns (r, c', w')"
  shows "conns_kept w w' \<and> (c' = client \<or> c' = Some (Some a) \<and> r = IPHONE_E_SUCCESS)"
  using assms
  by (auto simp: handshake_ready_def Let_def split: if_splits
      dest!: mobilesync_send_kept mobilesync_recv_kept intro: conns_kept_trans)

lemma new_client_finish_result:
  assumes "new_client_finish cd a ret client w = Returns (r, c', w')"
  shows "c' = client \<and> r = ret \<and> (ret = IPHONE_E_SUCCESS \<longrightarrow> w' = w)"
  using assms by (auto simp: new_client_finish_def split: if_splits)

lemma handshake_version_client:
  assumes "handshake_version cd a (Some None) ret slot w = Returns (r, Some (Some x), w')"
  shows "x = a \<and> r = IPHONE_E_SUCCESS \<and> conns_kept w w'"
  using assms
  by (auto simp: handshake_version_def Let_def split: option.splits if_splits
      dest!: new_client_finish_result handshake_ready_kept)

lemma new_client_guards:
  assumes "mobilesync_new_client cd dev port (Some None) w = Returns (r, Some (Some a), w')"
  obtains d c0 where "dev = Some d" "port \<noteq> 0" "w_listen w (dev_handle d) port = Some c0" "0 \<le> w_next_sfd w"
  using assms
  by (cases dev; cases "w_listen w (dev_handle (the dev)) port")
     (auto simp: mobilesync_new_client_def usbmuxd_connect_def split: if_splits)

subsection \<open>Properties\<close>

text \<open>
  C22. A client handle always names a live session: in every world, whatever the
  device sends and whatever the transport does, when \<open>mobilesync_new_client\<close> called
  with an empty slot stores a client there, it returns success, the client is the
  structure it allocated, holding the descriptor \<open>usbmuxd_connect\<close> returned, and
  that connection is open.
\<close>

theorem new_client_handle_live:
  assumes "mobilesync_new_client cd dev port (Some None) w = Returns (r, Some (Some a), w')"
  shows "r = IPHONE_E_SUCCESS \<and> a = w_next_addr w \<and> w_clients w' a = Some \<lparr>sfd = w_next_sfd w\<rparr> \<and>
         open_conn (w_next_sfd w) w' \<noteq> None"
proof -
  obtain d c0 where d: "dev = Some d" "port \<noteq> 0" "w_listen w (dev_handle d) port = Some c0" "0 \<le> w_next_sfd w"
    using new_client_guards [OF assms] by blast
  obtain W where nc: "mobilesync_new_client cd (Some d) port (Some None) w =
           outcome_bind (mobilesync_recv cd (Some (w_next_addr w)) (Some None) W)
             (\<lambda>(ret, slot, w3). handshake_version cd (w_next_addr w) (Some None) ret slot w3)"
    and cl: "w_clients W (w_next_addr w) = Some \<lparr>sfd = w_next_sfd w\<rparr>"
    and oc: "open_conn (w_next_sfd w) W = Some (c0\<lparr>c_open := True\<rparr>)"
    using new_client_connected [OF d(3) d(2) d(4), of cd] by blast
  obtain ret slot w3 where recv: "mobilesync_recv cd (Some (w_next_addr w)) (Some None) W = Returns (ret, slot, w3)"
    and hv: "handshake_version cd (w_next_addr w) (Some None) ret slot w3 = Returns (r, Some (Some a), w')"
    using assms nc d(1) by auto
  have "conns_kept W w'"
    using mobilesync_recv_kept [OF recv] handshake_version_client [OF hv] by (blast intro: conns_kept_trans)
  then show ?thesis
    using handshake_version_client [OF hv] cl oc by (auto simp: conns_kept_def)
qed

theorem new_client_handle_live_witness:
  "\<exists>w'. mobilesync_new_client (demo_codec 100 100) (Some \<lparr>dev_handle = 1\<rparr>) 5 (Some None)
       (demo_world (fresh_conn (frame [1] @ frame [2]) (\<lambda>_. RdChunk 8) (\<lambda>_. 0))) =
     Returns (IPHONE_E_SUCCESS, Some (Some 0), w') \<and> w_clients w' 0 = Some \<lparr>sfd = 3\<rparr> \<and> open_conn 3 w' \<noteq> None"
proof -
  have l: "w_listen (demo_world (fresh_conn (frame [1] @ frame [2]) (\<lambda>_. RdChunk 8) (\<lambda>_. 0))) (dev_handle \<lparr>dev_handle = 1\<rparr>) 5
      = Some (fresh_conn (frame [1] @ frame [2]) (\<lambda>_. RdChunk 8) (\<lambda>_. 0))"
    by (simp add: demo_world_def)
  obtain w' where run: "mobilesync_new_client (demo_codec 100 100) (Some \<lparr>dev_handle = 1\<rparr>) 5 (Some None)
       (demo_world (fresh_conn (frame [1] @ frame [2]) (\<lambda>_. RdChunk 8) (\<lambda>_. 0))) =
     Returns (IPHONE_E_SUCCESS, Some (Some 0), w')"
    using new_client_success_effect [OF l, where cd = "demo_codec 100 100"
        and vb = "[1]" and rb = "[2]" and rest = "[]" and vmsg = "demo_version_msg 100 100"]
    by (simp add: demo_defs) blast
  then show ?thesis
    using new_client_handle_live [OF run] by (simp add: demo_defs)
qed

text \<open>
  C26. A whole session leaks: after a successful handshake and the release of the
  client, the connection is closed but the heap holds three more blocks than before,
  the client structure (never freed by \<open>mobilesync_free_client\<close>) and the two binary
  encodings made by \<open>plist_to_bin\<close> for the acknowledgement and the disconnect
  message (never freed by \<open>mobilesync_send\<close>). The spec releases every buffer before
  the call that made it returns, and the session's resources at release.
\<close>

theorem session_lifecycle_leaks:
  assumes "w_listen w (dev_handle dev) port = Some dc" and "port \<noteq> 0" and "0 \<le> w_next_sfd w"
    and "c_inbox dc = frame vb @ frame rb @ rest"
    and "length vb < 2 ^ 32" and "length rb < 2 ^ 32"
    and "\<forall>i\<ge>c_reads dc. \<exists>k\<ge>4. c_rsched dc i = RdChunk k"
    and "length (to_bin cd (string_pair ''DLMessageVersionExchange'' ''DLVersionsOk'')) < 2 ^ 32 - 4"
    and "from_bin cd vb = Some vmsg" and "version_fields (Some vmsg) = Some (MSYNC_VERSION_INT1, MSYNC_VERSION_INT2)"
    and "plist_find_node_by_string (from_bin cd rb) ''DLMessageDeviceReady'' \<noteq> []"
    and "length (to_bin cd (string_pair ''DLMessageDisconnect'' ''All done, thanks for the memories'')) < 2 ^ 32 - 4"
  shows "\<exists>w1 w2 c2. mobilesync_new_client cd (Some dev) port (Some None) w =
            Returns (IPHONE_E_SUCCESS, Some (Some (w_next_addr w)), w1) \<and>
          mobilesync_free_client cd (Some (w_next_addr w)) w1 = Returns (0, w2) \<and>
          w_conns w2 (w_next_sfd w) = Some c2 \<and> \<not> c_open c2 \<and>
          w_heap w2 = w_heap w + {#AClient, ABinBuf, ABinBuf#}"
proof -
  obtain w1 r where nc: "mobilesync_new_client cd (Some dev) port (Some None) w =
            Returns (IPHONE_E_SUCCESS, Some (Some (w_next_addr w)), w1)"
    and cl: "w_clients w1 (w_next_addr w) = Some \<lparr>sfd = w_next_sfd w\<rparr>"
    and oc: "open_conn (w_next_sfd w) w1 = Some (dc\<lparr>c_open := True, c_inbox := rest, c_reads := r,
             c_writes := Suc (c_writes dc),
             c_sent := c_sent dc @ (if c_wsched dc (c_writes dc) = 0
                then [frame (to_bin cd (string_pair ''DLMessageVersionExchange'' ''DLVersionsOk''))] else [])\<rparr>)"
    and hp: "w_heap w1 = w_heap w + {#AClient, ABinBuf#}"
    using new_client_success_effect [OF assms(1-10)] assms(11) by auto
  have oc': "open_conn (sfd \<lparr>sfd = w_next_sfd w\<rparr>) w1 = Some (dc\<lparr>c_open := True, c_inbox := rest, c_reads := r,
             c_writes := Suc (c_writes dc),
             c_sent := c_sent dc @ (if c_wsched dc (c_writes dc) = 0
                then [frame (to_bin cd (string_pair ''DLMessageVersionExchange'' ''DLVersionsOk''))] else [])\<rparr>)"
    using oc by simp
  show ?thesis
    using nc free_client_effect [OF cl oc' assms(12)] hp
    by (auto simp: set_conn_def add_mset_commute)
qed

theorem session_lifecycle_leaks_witness:
  "\<exists>w1 w2 c2. mobilesync_new_client (demo_codec 100 100) (Some \<lparr>dev_handle = 1\<rparr>) 5 (Some None)
       (demo_world (fresh_conn (frame [1] @ frame [2]) (\<lambda>_. RdChunk 8) (\<lambda>_. 0))) =
     Returns (IPHONE_E_SUCCESS, Some (Some 0), w1) \<and>
     mobilesync_free_client (demo_codec 100 100) (Some 0) w1 = Returns (0, w2) \<and>
     w_conns w2 3 = Some c2 \<and> \<not> c_open c2 \<and> w_heap w2 = {#AClient, ABinBuf, ABinBuf#}"
proof -
  have l: "w_listen (demo_world (fresh_conn (frame [1] @ frame [2]) (\<lambda>_. RdChunk 8) (\<lambda>_. 0))) (dev_handle \<lparr>dev_handle = 1\<rparr>) 5
      = Some (fresh_conn (frame [1] @ frame [2]) (\<lambda>_. RdChunk 8) (\<lambda>_. 0))"
    by (simp add: demo_world_def)
  show ?thesis
    using session_lifecycle_leaks [OF l, where cd = "demo_codec 100 100"
        and vb = "[1]" and rb = "[2]" and rest = "[]" and vmsg = "demo_version_msg 100 100"]
    by (simp add: demo_defs)
qed

text \<open>
  C27. Clients do not interfere: in any schedule of receives, sends and releases made
  through clients whose descriptors differ from \<open>fd\<close>, the connection with
  descriptor \<open>fd\<close> is left exactly as it was (its unread bytes, its read and write
  counters, what was written on it, whether it is open), and no client structure
  changes.
\<close>

theorem clients_isolated:
  assumes "run_ops cd ops w = Returns (rs, w')"
    and "\<forall>(a, op)\<in>set ops. \<exists>cl. w_clients w a = Some cl \<and> sfd cl \<noteq> fd"
  shows "w_conns w' fd = w_conns w fd \<and> w_clients w' = w_clients w"
  using assms
proof (induction ops arbitrary: w rs)
  case (Cons step ops)
  obtain a op where step: "step = (a, op)" by (cases step)
  with Cons.prems(1) obtain r w1 rs' where op: "run_op cd a op w = Returns (r, w1)"
    and rest: "run_ops cd ops w1 = Returns (rs', w')"
    by auto
  obtain cl where cl: "w_clients w a = Some cl" "sfd cl \<noteq> fd" using Cons.prems(2) step by auto
  have only: "conns_only (sfd cl) w w1" by (rule run_op_only [OF op cl(1)])
  then have "\<forall>(a, op)\<in>set ops. \<exists>cl. w_clients w1 a = Some cl \<and> sfd cl \<noteq> fd"
    using Cons.prems(2) by (auto simp: conns_only_def)
  from Cons.IH [OF rest this] only cl(2) show ?case by (simp add: conns_only_def)
qed simp

theorem clients_isolated_witness:
  "\<exists>rs w'. run_ops (demo_codec 100 100) [(0, OpSend (PBoolean True)), (0, OpFree)]
       (empty_world\<lparr>w_conns := [3 \<mapsto> fresh_conn [] (\<lambda>_. RdChunk 8) (\<lambda>_. 0), 4 \<mapsto> fresh_conn [1] (\<lambda>_. RdChunk 8) (\<lambda>_. 0)],
                    w_clients := [0 \<mapsto> \<lparr>sfd = 3\<rparr>, 1 \<mapsto> \<lparr>sfd = 4\<rparr>]\<rparr>) = Returns (rs, w') \<and>
     w_conns w' 4 = Some (fresh_conn [1] (\<lambda>_. RdChunk 8) (\<lambda>_. 0))"
proof -
  define W where "W = empty_world\<lparr>w_conns := [3 \<mapsto> fresh_conn [] (\<lambda>_. RdChunk 8) (\<lambda>_. 0), 4 \<mapsto> fresh_conn [1] (\<lambda>_. RdChunk 8) (\<lambda>_. 0)],
                    w_clients := [0 \<mapsto> \<lparr>sfd = 3\<rparr>, 1 \<mapsto> \<lparr>sfd = 4\<rparr>]\<rparr>"
  have "\<exists>rs w'. run_ops (demo_codec 100 100) [(0, OpSend (PBoolean True)), (0, OpFree)] W = Returns (rs, w')"
    by (simp add: W_def demo_defs mobilesync_send_def mobilesync_free_client_def mobilesync_disconnect_def
        usbmuxd_send_def usbmuxd_disconnect_def world_op_defs Let_def)
  then obtain rs w' where run: "run_ops (demo_codec 100 100) [(0, OpSend (PBoolean True)), (0, OpFree)] W = Returns (rs, w')"
    by blast
  have "w_conns w' 4 = w_conns W 4 \<and> w_clients w' = w_clients W"
    using clients_isolated [OF run, where fd = 4] by (simp add: W_def)
  then show ?thesis using run by (auto simp: W_def)
qed

end
