(* ===== verification/Wellformed.thy ===== *)
theory Wellformed
  imports Session
begin

text \<open>
  The well-formedness of a world, the precondition of the cleanup theorem of
  \<open>Resources\<close>: every client structure names an existing connection, no two client
  structures share a descriptor, every connection's descriptor and every client's
  address lies below the next one to be handed out. Calls that change connections
  only in place (\<open>calls_stable\<close>), and the application as an inductive step relation
  (\<open>api_step\<close>: a client creation, or one call through one client).
\<close>

definition wf_world :: "world \<Rightarrow> bool" where
  "wf_world w \<longleftrightarrow>
     (\<forall>a cl. w_clients w a = Some cl \<longrightarrow> w_conns w (sfd cl) \<noteq> None \<and> a < w_next_addr w) \<and>
     (\<forall>a b cla clb. w_clients w a = Some cla \<longrightarrow> w_clients w b = Some clb \<longrightarrow> sfd cla = sfd clb \<longrightarrow> a = b) \<and>
     (\<forall>fd. w_conns w fd \<noteq> None \<longrightarrow> fd < w_next_sfd w)"

text \<open>
  \<open>calls_stable w w'\<close>: the call changed connections only in place: the same descriptors
  are in use, the client structures and both counters are unchanged.
\<close>

definition calls_stable :: "world \<Rightarrow> world \<Rightarrow> bool" where
  "calls_stable w w' \<longleftrightarrow>
     w_clients w' = w_clients w \<and> w_next_sfd w' = w_next_sfd w \<and> w_next_addr w' = w_next_addr w \<and>
     (\<forall>fd. (w_conns w' fd = None) = (w_conns w fd = None))"

inductive api_step :: "codec \<Rightarrow> world \<Rightarrow> world \<Rightarrow> bool" for cd where
  new: "mobilesync_new_client cd (Some dev) port (Some None) w = Returns (r, c, w') \<Longrightarrow> api_step cd w w'"
| op: "run_op cd a op w = Returns (r, w') \<Longrightarrow> api_step cd w w'"

inductive_cases api_stepE: "api_step cd w w'"

subsection \<open>Stable calls\<close>

lemma stable_refl [simp]: "calls_stable w w"
  by (simp add: calls_stable_def)

lemma stable_trans: "calls_stable w1 w2 \<Longrightarrow> calls_stable w2 w3 \<Longrightarrow> calls_stable w1 w3"
  by (simp add: calls_stable_def)

lemma stable_ops [simp]:
  "calls_stable w (heap_alloc a w') = calls_stable w w'" "calls_stable w (heap_free a w') = calls_stable w w'"
  "calls_stable w (plist_free p w') = calls_stable w w'" "calls_stable w (plist_to_xml p w') = calls_stable w w'"
  "calls_stable w (xml_free p w') = calls_stable w w'" "calls_stable w (log_dbg_msg f p w') = calls_stable w w'"
  "calls_stable (heap_alloc a w) w' = calls_stable w w'" "calls_stable (heap_free a w) w' = calls_stable w w'"
  "calls_stable (plist_free p w) w' = calls_stable w w'" "calls_stable (plist_to_xml p w) w' = calls_stable w w'"
  "calls_stable (xml_free p w) w' = calls_stable w w'" "calls_stable (log_dbg_msg f p w) w' = calls_stable w w'"
  by (simp_all add: calls_stable_def world_op_defs split: option.splits)

lemma stable_set_conn: "open_conn fd w = Some c \<Longrightarrow> calls_stable w (set_conn fd c' w)"
  by (auto simp: calls_stable_def set_conn_def dest!: open_conn_SomeD)

lemma usbmuxd_stable:
  "usbmuxd_recv fd n w = (r, bs, w') \<Longrightarrow> calls_stable w w'"
  "usbmuxd_send fd data w = (r, w') \<Longrightarrow> calls_stable w w'"
  "usbmuxd_disconnect fd w = (r, w') \<Longrightarrow> calls_stable w w'"
  by (auto simp: usbmuxd_recv_def usbmuxd_send_def usbmuxd_disconnect_def Let_def intro: stable_set_conn
      split: option.splits rd_event.splits if_splits)

lemma mobilesync_recv_stable:
  assumes "mobilesync_recv cd client slot w = Returns (r, s, w')"
  shows "calls_stable w w'"
proof (cases "client \<noteq> None \<and> slot = Some None")
  case True
  then obtain a where a: "client = Some a" "slot = Some None" by auto
  with assms obtain cl where cl: "w_clients w a = Some cl"
    by (cases "w_clients w a") (simp_all add: mobilesync_recv_def)
  obtain ret len w1 where pre: "recv_prefix (sfd cl) w = (ret, len, w1)" by (cases "recv_prefix (sfd cl) w") auto
  have st1: "calls_stable w w1" using pre by (auto simp: recv_prefix_def intro: usbmuxd_stable(1) split: prod.splits)
  have loop: "calls_stable w2 w3" if "recv_loop (sfd cl) l 0 ret [] w2 = Some (x, y, z, w3)" for l w2 x y z w3
    by (rule recv_loop_world [where R = calls_stable, OF _ _ _ that]) (auto intro: usbmuxd_stable(1) stable_trans)
  show ?thesis
    using assms a cl pre st1
    by (auto simp: mobilesync_recv_def Let_def split: if_splits dest!: loop; meson stable_trans)
next
  case False
  with assms show ?thesis by (auto simp: mobilesync_recv_def split: option.splits)
qed

lemma mobilesync_send_stable: "mobilesync_send cd client msg w = Returns (r, w') \<Longrightarrow> calls_stable w w'"
  by (auto simp: mobilesync_send_def Let_def split: option.splits prod.splits if_splits dest!: usbmuxd_stable(2))

lemma free_client_stable: "mobilesync_free_client cd client w = Returns (r, w') \<Longrightarrow> calls_stable w w'"
  by (auto simp: mobilesync_free_client_def mobilesync_disconnect_def Let_def split: option.splits
      dest!: mobilesync_send_stable usbmuxd_stable(3); meson stable_trans)

lemma run_op_stable: "run_op cd a op w = Returns (r, w') \<Longrightarrow> calls_stable w w'"
  by (cases op) (auto dest: mobilesync_recv_stable mobilesync_send_stable free_client_stable)

lemma handshake_ready_stable: "handshake_ready cd a client w = Returns (r, c, w') \<Longrightarrow> calls_stable w w'"
  by (auto simp: handshake_ready_def Let_def split: if_splits
      dest!: mobilesync_send_stable mobilesync_recv_stable intro: stable_trans)

lemma new_client_finish_stable: "new_client_finish cd a ret client w = Returns (r, c, w') \<Longrightarrow> calls_stable w w'"
  by (auto simp: new_client_finish_def split: if_splits dest!: free_client_stable)

lemma handshake_version_stable:
  "handshake_version cd a client ret slot w = Returns (r, c, w') \<Longrightarrow> calls_stable w w'"
  by (auto simp: handshake_version_def Let_def split: option.splits if_splits
      dest!: handshake_ready_stable new_client_finish_stable; meson stable_trans)

text \<open>A run for the examples: one successful \<open>mobilesync_new_client\<close> on the demo device.\<close>

lemma demo_api_run:
  "\<exists>w1. (api_step (demo_codec 100 100))\<^sup>*\<^sup>* (demo_world (fresh_conn (frame [1] @ frame [2]) (\<lambda>_. RdChunk 8) (\<lambda>_. 0))) w1 \<and>
        w_clients w1 0 = Some \<lparr>sfd = 3\<rparr>"
proof -
  have l: "w_listen (demo_world (fresh_conn (frame [1] @ frame [2]) (\<lambda>_. RdChunk 8) (\<lambda>_. 0))) (dev_handle \<lparr>dev_handle = 1\<rparr>) 5
      = Some (fresh_conn (frame [1] @ frame [2]) (\<lambda>_. RdChunk 8) (\<lambda>_. 0))"
    by (simp add: demo_world_def)
  obtain w1 where run: "mobilesync_new_client (demo_codec 100 100) (Some \<lparr>dev_handle = 1\<rparr>) 5 (Some None)
       (demo_world (fresh_conn (frame [1] @ frame [2]) (\<lambda>_. RdChunk 8) (\<lambda>_. 0))) =
     Returns (IPHONE_E_SUCCESS, Some (Some 0), w1)" and cl: "w_clients w1 0 = Some \<lparr>sfd = 3\<rparr>"
    using new_client_success_effect [OF l, where cd = "demo_codec 100 100"
        and vb = "[1]" and rb = "[2]" and rest = "[]" and vmsg = "demo_version_msg 100 100"]
    by (auto simp: demo_defs)
  show ?thesis using api_step.new [OF run] cl by blast
qed

end
