(* ===== verification/Resources.thy ===== *)
theory Resources
  imports Wellformed
begin

text \<open>
  Heap accounting across calls. The scratch blocks are the ones each call allocates
  for its own use: the receive buffer of \<open>mobilesync_recv\<close> (line 145, freed at
  lines 153 and 159), the XML text made for the log (lines 163 and 165, and the same
  in \<open>mobilesync_send\<close>), and the outgoing frame buffer of \<open>mobilesync_send\<close>. Every
  call returns with the same scratch blocks it found, on every path, so no sequence of
  API calls accumulates them; the blocks that do accumulate (client structures,
  encoding buffers) are the subject of \<open>Session.session_lifecycle_leaks\<close>.

  Connections as resources: every failing \<open>mobilesync_new_client\<close> closes the
  connection it opened (the release of lines 97--98 on every failure path), and a new
  client never touches the connection of another descriptor.
\<close>

definition scratch :: "alloc \<Rightarrow> bool" where
  "scratch a \<longleftrightarrow> a = ARecvBuf \<or> a = AXml \<or> a = AQueryBuf"

definition scratch_blocks :: "world \<Rightarrow> alloc multiset" where
  "scratch_blocks w = filter_mset scratch (w_heap w)"

text \<open>
  The blocks a call does not hand over or leave behind: every kind but the decoded
  plist returned to the caller (\<open>APlist\<close>) and the encoding buffer \<open>plist_to_bin\<close>
  makes (\<open>ABinBuf\<close>). They contain the scratch blocks and the client structures.
\<close>

definition kept :: "alloc \<Rightarrow> bool" where
  "kept a \<longleftrightarrow> a \<noteq> APlist \<and> a \<noteq> ABinBuf"

definition call_blocks :: "world \<Rightarrow> alloc multiset" where
  "call_blocks w = filter_mset kept (w_heap w)"

text \<open>
  Client addresses are fresh: \<open>malloc\<close> never returns the address of a live block, and
  client structures are never freed, so every address handed out lies below the next one.
\<close>

definition addr_fresh :: "world \<Rightarrow> bool" where
  "addr_fresh w \<longleftrightarrow> finite (dom (w_clients w)) \<and> (\<forall>a\<in>dom (w_clients w). a < w_next_addr w)"

subsection \<open>Each operation keeps its blocks\<close>

lemma blocks_heap_ops [simp]:
  "call_blocks (heap_alloc a w) = (if kept a then add_mset a (call_blocks w) else call_blocks w)"
  "call_blocks (heap_free a w) = (if kept a then call_blocks w - {#a#} else call_blocks w)"
  by (simp_all add: call_blocks_def heap_alloc_def heap_free_def)

lemma blocks_world_ops [simp]:
  "call_blocks (log_dbg_msg f p w) = call_blocks w"
  "call_blocks (set_conn fd c w) = call_blocks w"
  by (simp_all add: call_blocks_def log_dbg_msg_def set_conn_def)

lemma blocks_plist_free [simp]: "call_blocks (plist_free p w) = call_blocks w"
  by (simp add: plist_free_def kept_def split: option.splits)

lemma blocks_xml_logged [simp]:
  "call_blocks (xml_free p (log_dbg_msg f p (plist_to_xml p w))) = call_blocks w"
  by (simp add: xml_free_def plist_to_xml_def kept_def split: option.splits)

lemma usbmuxd_heap:
  "usbmuxd_recv fd n w = (r, bs, w') \<Longrightarrow> w_heap w' = w_heap w"
  "usbmuxd_send fd data w = (r, w') \<Longrightarrow> w_heap w' = w_heap w"
  "usbmuxd_disconnect fd w = (r, w') \<Longrightarrow> w_heap w' = w_heap w"
  "usbmuxd_connect h port w = (fd, w') \<Longrightarrow> w_heap w' = w_heap w"
  by (auto simp: usbmuxd_recv_def usbmuxd_send_def usbmuxd_disconnect_def usbmuxd_connect_def set_conn_def Let_def
      split: option.splits rd_event.splits if_splits)

lemma blocks_heap_eq: "w_heap w' = w_heap w \<Longrightarrow> call_blocks w' = call_blocks w"
  by (simp add: call_blocks_def)

lemma recv_loop_heap: "recv_loop fd datalen received ret buf w = Some (ret', r', buf', w') \<Longrightarrow> w_heap w' = w_heap w"
  by (rule recv_loop_world [where R = "\<lambda>w w'. w_heap w' = w_heap w"]) (auto dest: usbmuxd_heap(1))

lemma recv_prefix_heap: "recv_prefix fd w = (ret, len, w') \<Longrightarrow> w_heap w' = w_heap w"
  by (auto simp: recv_prefix_def dest: usbmuxd_heap(1) split: prod.splits)

lemma mobilesync_recv_blocks:
  assumes "mobilesync_recv cd client slot w = Returns (r, s, w')"
  shows "call_blocks w' = call_blocks w"
proof (cases "client \<noteq> None \<and> slot = Some None")
  case True
  then obtain a where a: "client = Some a" "slot = Some None" by auto
  with assms obtain cl where cl: "w_clients w a = Some cl"
    by (cases "w_clients w a") (simp_all add: mobilesync_recv_def)
  obtain ret len w1 where pre: "recv_prefix (sfd cl) w = (ret, len, w1)" by (cases "recv_prefix (sfd cl) w") auto
  have h1: "w_heap w1 = w_heap w" by (rule recv_prefix_heap [OF pre])
  show ?thesis
    using assms a cl pre blocks_heap_eq [OF h1]
    by (auto simp: mobilesync_recv_def Let_def kept_def split: if_splits
        dest!: recv_loop_heap blocks_heap_eq)
next
  case False
  with assms show ?thesis by (auto simp: mobilesync_recv_def split: option.splits)
qed

lemma mobilesync_send_blocks: "mobilesync_send cd client msg w = Returns (r, w') \<Longrightarrow> call_blocks w' = call_blocks w"
  by (auto simp: mobilesync_send_def Let_def kept_def split: option.splits prod.splits if_splits
      dest!: usbmuxd_heap(2) blocks_heap_eq)

lemma free_client_blocks: "mobilesync_free_client cd client w = Returns (r, w') \<Longrightarrow> call_blocks w' = call_blocks w"
  by (auto simp: mobilesync_free_client_def mobilesync_disconnect_def Let_def kept_def split: option.splits
      dest!: mobilesync_send_blocks usbmuxd_heap(3) blocks_heap_eq)

lemma run_op_blocks: "run_op cd a op w = Returns (r, w') \<Longrightarrow> call_blocks w' = call_blocks w"
  by (cases op) (auto dest: mobilesync_recv_blocks mobilesync_send_blocks free_client_blocks)

lemma handshake_ready_blocks: "handshake_ready cd a client w = Returns (r, c, w') \<Longrightarrow> call_blocks w' = call_blocks w"
  by (auto simp: handshake_ready_def Let_def kept_def split: if_splits
      dest!: mobilesync_send_blocks mobilesync_recv_blocks)

lemma new_client_finish_blocks: "new_client_finish cd a ret client w = Returns (r, c, w') \<Longrightarrow> call_blocks w' = call_blocks w"
  by (auto simp: new_client_finish_def split: if_splits dest!: free_client_blocks)

lemma handshake_version_blocks:
  "handshake_version cd a client ret slot w = Returns (r, c, w') \<Longrightarrow> call_blocks w' = call_blocks w"
  by (auto simp: handshake_version_def Let_def split: option.splits if_splits
      dest!: handshake_ready_blocks new_client_finish_blocks)

lemma alloc_client_blocks:
  "alloc_client fd w = (a, w') \<Longrightarrow> call_blocks w' = add_mset AClient (call_blocks w)"
  by (auto simp: alloc_client_def kept_def) (simp add: call_blocks_def)

text \<open>
  A client creation either leaves the client structures, the next address and the kept
  blocks as they were (invalid arguments, failed connect), or registers one new
  structure at the next address and adds exactly its block.
\<close>

lemma new_client_blocks:
  assumes run: "mobilesync_new_client cd dev port out w = Returns (r, c, w')"
  shows "(w_clients w' = w_clients w \<and> w_next_addr w' = w_next_addr w \<and> call_blocks w' = call_blocks w) \<or>
         (w_clients w' = (w_clients w)(w_next_addr w \<mapsto> \<lparr>sfd = w_next_sfd w\<rparr>) \<and>
          w_next_addr w' = Suc (w_next_addr w) \<and> call_blocks w' = add_mset AClient (call_blocks w))"
proof (cases "\<exists>d c0. dev = Some d \<and> out = Some None \<and> port \<noteq> 0 \<and> w_listen w (dev_handle d) port = Some c0 \<and> 0 \<le> w_next_sfd w")
  case True
  then obtain d c0 where d: "dev = Some d" "out = Some None" "port \<noteq> 0" "w_listen w (dev_handle d) port = Some c0" "0 \<le> w_next_sfd w"
    by blast
  define w1 where "w1 = set_conn (w_next_sfd w) (c0\<lparr>c_open := True\<rparr>) (w\<lparr>w_next_sfd := w_next_sfd w + 1\<rparr>)"
  obtain a w2 where al: "alloc_client (w_next_sfd w) w1 = (a, w2)" by (cases "alloc_client (w_next_sfd w) w1") auto
  have a2: "a = w_next_addr w" "w_clients w2 = (w_clients w)(w_next_addr w \<mapsto> \<lparr>sfd = w_next_sfd w\<rparr>)"
    "w_next_addr w2 = Suc (w_next_addr w)"
    using al by (auto simp: alloc_client_def heap_alloc_def w1_def set_conn_def)
  have b2: "call_blocks w2 = add_mset AClient (call_blocks w)"
    using alloc_client_blocks [OF al] by (simp add: w1_def call_blocks_def set_conn_def)
  from run d al obtain ret slot w3 where
      recv: "mobilesync_recv cd (Some a) (Some None) w2 = Returns (ret, slot, w3)"
      and hv: "handshake_version cd a (Some None) ret slot w3 = Returns (r, c, w')"
    by (auto simp: mobilesync_new_client_def usbmuxd_connect_def w1_def split: prod.splits)
  have "calls_stable w2 w'"
    using stable_trans [OF mobilesync_recv_stable [OF recv] handshake_version_stable [OF hv]] .
  moreover have "call_blocks w' = call_blocks w2"
    using handshake_version_blocks [OF hv] mobilesync_recv_blocks [OF recv] by simp
  ultimately show ?thesis using a2 b2 by (simp add: calls_stable_def)
next
  case False
  from False run show ?thesis
    by (cases dev; cases out; auto simp: mobilesync_new_client_def usbmuxd_connect_def set_conn_def call_blocks_def
        split: option.splits if_splits)
qed

lemma api_step_blocks:
  assumes step: "api_step cd w w'"
  shows "(w_clients w' = w_clients w \<and> w_next_addr w' = w_next_addr w \<and> call_blocks w' = call_blocks w) \<or>
         (w_clients w' = (w_clients w)(w_next_addr w \<mapsto> \<lparr>sfd = w_next_sfd w\<rparr>) \<and>
          w_next_addr w' = Suc (w_next_addr w) \<and> call_blocks w' = add_mset AClient (call_blocks w))"
  using step
proof (cases rule: api_step.cases)
  case (new dev port r c)
  then show ?thesis using new_client_blocks by blast
next
  case (op a op r)
  then show ?thesis using run_op_stable [OF op(1)] run_op_blocks [OF op(1)] by (simp add: calls_stable_def)
qed

lemma scratch_of_kept: "scratch_blocks w = filter_mset scratch (call_blocks w)"
proof -
  have "(\<lambda>x. kept x \<and> scratch x) = scratch" by (auto simp: kept_def scratch_def)
  then show ?thesis by (simp add: scratch_blocks_def call_blocks_def filter_filter_mset)
qed

lemma api_step_scratch: "api_step cd w w' \<Longrightarrow> scratch_blocks w' = scratch_blocks w"
  by (drule api_step_blocks) (auto simp: scratch_of_kept scratch_def)

lemma api_step_addr_fresh:
  assumes step: "api_step cd w w'" and fresh: "addr_fresh w"
  shows "addr_fresh w' \<and> dom (w_clients w) \<subseteq> dom (w_clients w') \<and>
         count (w_heap w') AClient + card (dom (w_clients w)) = count (w_heap w) AClient + card (dom (w_clients w'))"
proof -
  have cnt: "count (w_heap v) AClient = count (call_blocks v) AClient" for v
    by (simp add: call_blocks_def kept_def)
  have notin: "w_next_addr w \<notin> dom (w_clients w)" using fresh by (auto simp: addr_fresh_def)
  from api_step_blocks [OF step] show ?thesis
  proof (elim disjE conjE)
    assume "w_clients w' = w_clients w" "w_next_addr w' = w_next_addr w" "call_blocks w' = call_blocks w"
    then show ?thesis using fresh cnt [of w] cnt [of w'] by (simp add: addr_fresh_def)
  next
    assume cl: "w_clients w' = (w_clients w)(w_next_addr w \<mapsto> \<lparr>sfd = w_next_sfd w\<rparr>)"
      and nx: "w_next_addr w' = Suc (w_next_addr w)"
      and bl: "call_blocks w' = add_mset AClient (call_blocks w)"
    have "card (dom (w_clients w')) = Suc (card (dom (w_clients w)))"
      using fresh notin cl by (simp add: addr_fresh_def)
    moreover have "count (w_heap w') AClient = Suc (count (w_heap w) AClient)"
      using bl cnt [of w] cnt [of w'] by simp
    moreover have "addr_fresh w'"
      using fresh cl nx by (auto simp: addr_fresh_def less_Suc_eq)
    ultimately show ?thesis using cl by auto
  qed
qed

subsection \<open>Release on failure and locality of the handshake\<close>

lemma usbmuxd_disconnect_closes: "usbmuxd_disconnect fd w = (r, w') \<Longrightarrow> open_conn fd w' = None"
  by (auto simp: usbmuxd_disconnect_def open_conn_def set_conn_def split: option.splits if_splits)

lemma free_client_closes:
  assumes "mobilesync_free_client cd (Some a) w = Returns (r, w')" and "w_clients w a = Some cl"
  shows "open_conn (sfd cl) w' = None"
  using assms
  by (auto simp: mobilesync_free_client_def mobilesync_disconnect_def Let_def split: option.splits
      dest!: mobilesync_send_stable usbmuxd_disconnect_closes) (auto simp: calls_stable_def)

lemma new_client_finish_closes:
  assumes "new_client_finish cd a ret client w = Returns (r, c, w')" and "r \<noteq> IPHONE_E_SUCCESS"
    and "w_clients w a = Some cl"
  shows "open_conn (sfd cl) w' = None \<and> c = client"
  using assms by (auto simp: new_client_finish_def split: if_splits dest: free_client_closes)

lemma handshake_version_closes:
  assumes run: "handshake_version cd a client ret slot w = Returns (r, c, w')" and err: "r \<noteq> IPHONE_E_SUCCESS"
    and cl: "w_clients w a = Some cl"
  shows "open_conn (sfd cl) w' = None \<and> c = client"
proof (cases "version_fields (slot_value slot)")
  case None
  then show ?thesis using run err cl by (auto simp: handshake_version_def dest: new_client_finish_closes)
next
  case (Some v)
  obtain v1 v2 where v: "v = (v1, v2)" by (cases v)
  define w1 where "w1 = plist_free (slot_value slot) w"
  have cl1: "w_clients w1 a = Some cl" using cl by (simp add: w1_def plist_free_def heap_free_def split: option.splits)
  show ?thesis
  proof (cases "v1 = MSYNC_VERSION_INT1 \<and> v2 = MSYNC_VERSION_INT2")
    case True
    with run Some v obtain r' c' w2 where
        hr: "handshake_ready cd a client w1 = Returns (r', c', w2)"
        and fin: "new_client_finish cd a r' c' w2 = Returns (r, c, w')"
      by (auto simp: handshake_version_def Let_def w1_def)
    have r': "r' = r" using new_client_finish_result [OF fin] by simp
    have c': "c' = client" using handshake_ready_kept [OF hr] r' err by auto
    have "w_clients w2 a = Some cl" using handshake_ready_stable [OF hr] cl1 by (simp add: calls_stable_def)
    then show ?thesis using new_client_finish_closes [OF fin err] c' by simp
  next
    case False
    with run Some v have "new_client_finish cd a ret client w1 = Returns (r, c, w')"
      by (auto simp: handshake_version_def Let_def w1_def)
    then show ?thesis using new_client_finish_closes err cl1 by blast
  qed
qed

lemma handshake_ready_only:
  assumes run: "handshake_ready cd a client w = Returns (r, c, w')" and cl: "w_clients w a = Some cl"
  shows "conns_only (sfd cl) w w'"
proof -
  define ack where "ack = string_pair ''DLMessageVersionExchange'' ''DLVersionsOk''"
  from run obtain s w1 ret slot w2 where
      send: "mobilesync_send cd (Some a) (Some ack) (heap_alloc APlist w) = Returns (s, w1)"
      and recv: "mobilesync_recv cd (Some a) (Some None) (plist_free (Some ack) w1) = Returns (ret, slot, w2)"
      and fin: "w' = plist_free (slot_value slot) w2"
    by (auto simp: handshake_ready_def Let_def ack_def split: if_splits)
  have o1: "conns_only (sfd cl) w w1"
    using mobilesync_send_only [OF send] cl by simp
  then have "w_clients (plist_free (Some ack) w1) a = Some cl" using cl by (simp add: conns_only_def plist_free_def heap_free_def)
  then have "conns_only (sfd cl) w1 w2" using mobilesync_recv_only [OF recv] by simp
  with o1 fin show ?thesis by (auto intro: conns_only_trans)
qed

lemma new_client_finish_only:
  "new_client_finish cd a ret client w = Returns (r, c, w') \<Longrightarrow> w_clients w a = Some cl \<Longrightarrow> conns_only (sfd cl) w w'"
  by (auto simp: new_client_finish_def split: if_splits dest: free_client_only)

lemma handshake_version_only:
  assumes run: "handshake_version cd a client ret slot w = Returns (r, c, w')" and cl: "w_clients w a = Some cl"
  shows "conns_only (sfd cl) w w'"
proof (cases "version_fields (slot_value slot)")
  case None
  then show ?thesis using run cl by (auto simp: handshake_version_def dest: new_client_finish_only)
next
  case (Some v)
  obtain v1 v2 where v: "v = (v1, v2)" by (cases v)
  define w1 where "w1 = plist_free (slot_value slot) w"
  have cl1: "w_clients w1 a = Some cl" using cl by (simp add: w1_def plist_free_def heap_free_def split: option.splits)
  show ?thesis
  proof (cases "v1 = MSYNC_VERSION_INT1 \<and> v2 = MSYNC_VERSION_INT2")
    case True
    with run Some v obtain r' c' w2 where
        hr: "handshake_ready cd a client w1 = Returns (r', c', w2)"
        and fin: "new_client_finish cd a r' c' w2 = Returns (r, c, w')"
      by (auto simp: handshake_version_def Let_def w1_def)
    have o2: "conns_only (sfd cl) w1 w2" by (rule handshake_ready_only [OF hr cl1])
    then have "w_clients w2 a = Some cl" using cl1 by (simp add: conns_only_def)
    then show ?thesis using new_client_finish_only [OF fin] o2 by (auto simp: w1_def intro: conns_only_trans)
  next
    case False
    with run Some v have "new_client_finish cd a ret client w1 = Returns (r, c, w')"
      by (auto simp: handshake_version_def Let_def w1_def)
    then have "conns_only (sfd cl) w1 w'" using new_client_finish_only cl1 by blast
    then show ?thesis by (simp add: w1_def)
  qed
qed

subsection \<open>Properties\<close>

text \<open>
  C29. Client structures are never freed and never allocated twice: over any sequence
  of API calls from a world whose client addresses are fresh, no client structure
  disappears, and the heap gains exactly one client block for each structure
  registered. Each \<open>mobilesync_new_client\<close> past its guards allocates one structure
  (lines 46--47) whatever the handshake does, and no call frees one (the release of
  lines 118--125 closes the descriptor only). Addresses are fresh because \<open>malloc\<close>
  never returns a live block and these blocks are never freed.
\<close>

theorem api_run_clients_accounted:
  assumes run: "(api_step cd)\<^sup>*\<^sup>* w0 w" and fresh: "addr_fresh w0"
  shows "dom (w_clients w0) \<subseteq> dom (w_clients w) \<and>
         count (w_heap w) AClient + card (dom (w_clients w0)) = count (w_heap w0) AClient + card (dom (w_clients w))"
proof -
  have "addr_fresh w \<and> dom (w_clients w0) \<subseteq> dom (w_clients w) \<and>
        count (w_heap w) AClient + card (dom (w_clients w0)) = count (w_heap w0) AClient + card (dom (w_clients w))"
    using run
  proof (induction rule: rtranclp_induct)
    case base
    then show ?case using fresh by simp
  next
    case (step v v')
    then have IH: "addr_fresh v" "dom (w_clients w0) \<subseteq> dom (w_clients v)"
      "count (w_heap v) AClient + card (dom (w_clients w0)) = count (w_heap w0) AClient + card (dom (w_clients v))"
      by blast+
    have "addr_fresh v'" "dom (w_clients v) \<subseteq> dom (w_clients v')"
      "count (w_heap v') AClient + card (dom (w_clients v)) = count (w_heap v) AClient + card (dom (w_clients v'))"
      using api_step_addr_fresh [OF step.hyps(2) IH(1)] by blast+
    with IH show ?case by auto
  qed
  then show ?thesis by blast
qed

theorem api_run_clients_accounted_witness:
  "\<exists>w1. (api_step (demo_codec 100 100))\<^sup>*\<^sup>* (demo_world (fresh_conn (frame [1] @ frame [2]) (\<lambda>_. RdChunk 8) (\<lambda>_. 0))) w1 \<and>
        w_clients w1 0 = Some \<lparr>sfd = 3\<rparr> \<and> count (w_heap w1) AClient = card (dom (w_clients w1))"
proof -
  obtain w1 where steps: "(api_step (demo_codec 100 100))\<^sup>*\<^sup>* (demo_world (fresh_conn (frame [1] @ frame [2]) (\<lambda>_. RdChunk 8) (\<lambda>_. 0))) w1"
    and cl: "w_clients w1 0 = Some \<lparr>sfd = 3\<rparr>"
    using demo_api_run by blast
  have fresh: "addr_fresh (demo_world (fresh_conn (frame [1] @ frame [2]) (\<lambda>_. RdChunk 8) (\<lambda>_. 0)))"
    by (simp add: addr_fresh_def demo_world_def empty_world_def)
  have "count (w_heap w1) AClient = card (dom (w_clients w1))"
    using api_run_clients_accounted [OF steps fresh] by (simp add: demo_world_def empty_world_def)
  with steps cl show ?thesis by blast
qed

text \<open>
  C35. No API sequence leaks a scratch block: in every world reached by any sequence
  of \<open>mobilesync_new_client\<close>, receive, send and release calls, the receive buffers,
  XML texts and frame buffers on the heap are exactly those of the initial world,
  whatever the transport answers and whichever error path each call takes.
\<close>

theorem api_run_frees_scratch:
  assumes "(api_step cd)\<^sup>*\<^sup>* w0 w"
  shows "scratch_blocks w = scratch_blocks w0"
  using assms by (induction rule: rtranclp_induct) (auto dest: api_step_scratch)

theorem api_run_frees_scratch_witness:
  "\<exists>w1. (api_step (demo_codec 100 100))\<^sup>*\<^sup>* (demo_world (fresh_conn (frame [1] @ frame [2]) (\<lambda>_. RdChunk 8) (\<lambda>_. 0))) w1 \<and>
        w_clients w1 0 = Some \<lparr>sfd = 3\<rparr> \<and> scratch_blocks w1 = {#}"
proof -
  obtain w1 where steps: "(api_step (demo_codec 100 100))\<^sup>*\<^sup>* (demo_world (fresh_conn (frame [1] @ frame [2]) (\<lambda>_. RdChunk 8) (\<lambda>_. 0))) w1"
    and cl: "w_clients w1 0 = Some \<lparr>sfd = 3\<rparr>"
    using demo_api_run by blast
  have "scratch_blocks (demo_world (fresh_conn (frame [1] @ frame [2]) (\<lambda>_. RdChunk 8) (\<lambda>_. 0))) = {#}"
    by (simp add: scratch_blocks_def demo_world_def empty_world_def)
  then have "scratch_blocks w1 = {#}" using api_run_frees_scratch [OF steps] by simp
  with steps cl show ?thesis by blast
qed

text \<open>
  C37. Every failure of \<open>mobilesync_new_client\<close> releases what it opened: in a
  well-formed world, whenever the call returns a status other than success, the
  descriptor it would have connected names no open connection afterwards and the
  output slot is unchanged; this holds on each failure path of lines 32--102 (invalid
  arguments, failed connect, failed reads, failed acknowledgement before a failed read).
\<close>

theorem new_client_failure_cleanup:
  assumes wf: "wf_world w" and fd: "0 \<le> w_next_sfd w"
    and run: "mobilesync_new_client cd dev port out w = Returns (r, c, w')" and err: "r \<noteq> IPHONE_E_SUCCESS"
  shows "open_conn (w_next_sfd w) w' = None \<and> c = out"
proof (cases "\<exists>d c0. dev = Some d \<and> out = Some None \<and> port \<noteq> 0 \<and> w_listen w (dev_handle d) port = Some c0")
  case True
  then obtain d c0 where d: "dev = Some d" "out = Some None" "port \<noteq> 0" "w_listen w (dev_handle d) port = Some c0"
    by blast
  define w1 where "w1 = set_conn (w_next_sfd w) (c0\<lparr>c_open := True\<rparr>) (w\<lparr>w_next_sfd := w_next_sfd w + 1\<rparr>)"
  obtain a w2 where al: "alloc_client (w_next_sfd w) w1 = (a, w2)" by (cases "alloc_client (w_next_sfd w) w1") auto
  have cl2: "w_clients w2 a = Some \<lparr>sfd = w_next_sfd w\<rparr>" using al by (auto simp: alloc_client_def heap_alloc_def)
  from run d fd al obtain ret slot w3 where
      recv: "mobilesync_recv cd (Some a) (Some None) w2 = Returns (ret, slot, w3)"
      and hv: "handshake_version cd a (Some None) ret slot w3 = Returns (r, c, w')"
    by (auto simp: mobilesync_new_client_def usbmuxd_connect_def w1_def split: prod.splits)
  have cl3: "w_clients w3 a = Some \<lparr>sfd = w_next_sfd w\<rparr>"
    using mobilesync_recv_stable [OF recv] cl2 by (simp add: calls_stable_def)
  show ?thesis using handshake_version_closes [OF hv err cl3] d by simp
next
  case False
  have none: "open_conn (w_next_sfd w) w = None"
    using wf by (auto simp: wf_world_def open_conn_def split: option.splits)
  from False run show ?thesis
    using none by (cases dev; cases out; auto simp: mobilesync_new_client_def usbmuxd_connect_def split: option.splits if_splits)
qed

theorem new_client_failure_cleanup_witness:
  "\<exists>w'. mobilesync_new_client (demo_codec 100 100) (Some \<lparr>dev_handle = 1\<rparr>) 5 (Some None)
          (demo_world (fresh_conn [] (\<lambda>_. RdFail (-5)) (\<lambda>_. 0))) = Returns (-5, Some None, w') \<and>
        open_conn 3 w' = None"
proof -
  have l: "w_listen (demo_world (fresh_conn [] (\<lambda>_. RdFail (-5)) (\<lambda>_. 0))) (dev_handle \<lparr>dev_handle = 1\<rparr>) 5
      = Some (fresh_conn [] (\<lambda>_. RdFail (-5)) (\<lambda>_. 0))"
    by (simp add: demo_world_def)
  obtain w' where run: "mobilesync_new_client (demo_codec 100 100) (Some \<lparr>dev_handle = 1\<rparr>) 5 (Some None)
          (demo_world (fresh_conn [] (\<lambda>_. RdFail (-5)) (\<lambda>_. 0))) = Returns (-5, Some None, w')"
    using new_client_first_read_fails [OF l, where cd = "demo_codec 100 100" and e = "-5"]
    by (auto simp: demo_defs IPHONE_E_SUCCESS_def)
  have wf: "wf_world (demo_world (fresh_conn [] (\<lambda>_. RdFail (-5)) (\<lambda>_. 0)))"
    by (simp add: wf_world_def demo_defs)
  have "open_conn 3 w' = None"
    using new_client_failure_cleanup [OF wf _ run] by (simp add: demo_defs IPHONE_E_SUCCESS_def)
  with run show ?thesis by blast
qed

text \<open>
  C38. A second session on the same device leaves the first alone: whatever the
  device and the transport do, \<open>mobilesync_new_client\<close> changes the connection
  table only at the descriptor it connects, so every other connection, open or
  closed, is exactly as before.
\<close>

theorem new_client_other_conns:
  assumes run: "mobilesync_new_client cd dev port out w = Returns (r, c, w')" and other: "fd \<noteq> w_next_sfd w"
  shows "w_conns w' fd = w_conns w fd"
proof (cases "\<exists>d c0. dev = Some d \<and> out = Some None \<and> port \<noteq> 0 \<and> w_listen w (dev_handle d) port = Some c0 \<and> 0 \<le> w_next_sfd w")
  case True
  then obtain d c0 where d: "dev = Some d" "out = Some None" "port \<noteq> 0" "w_listen w (dev_handle d) port = Some c0" "0 \<le> w_next_sfd w"
    by blast
  define w1 where "w1 = set_conn (w_next_sfd w) (c0\<lparr>c_open := True\<rparr>) (w\<lparr>w_next_sfd := w_next_sfd w + 1\<rparr>)"
  obtain a w2 where al: "alloc_client (w_next_sfd w) w1 = (a, w2)" by (cases "alloc_client (w_next_sfd w) w1") auto
  have cl2: "w_clients w2 a = Some \<lparr>sfd = w_next_sfd w\<rparr>" and c2: "w_conns w2 fd = w_conns w fd"
    using al other by (auto simp: alloc_client_def heap_alloc_def w1_def set_conn_def)
  from run d al obtain ret slot w3 where
      recv: "mobilesync_recv cd (Some a) (Some None) w2 = Returns (ret, slot, w3)"
      and hv: "handshake_version cd a (Some None) ret slot w3 = Returns (r, c, w')"
    by (auto simp: mobilesync_new_client_def usbmuxd_connect_def w1_def split: prod.splits)
  have o3: "conns_only (w_next_sfd w) w2 w3" using mobilesync_recv_only [OF recv cl2] by simp
  then have "w_clients w3 a = Some \<lparr>sfd = w_next_sfd w\<rparr>" using cl2 by (simp add: conns_only_def)
  then have "conns_only (w_next_sfd w) w3 w'" using handshake_version_only [OF hv] by simp
  with o3 c2 other show ?thesis by (simp add: conns_only_def)
next
  case False
  from False run show ?thesis
    using other by (cases dev; cases out; auto simp: mobilesync_new_client_def usbmuxd_connect_def set_conn_def split: option.splits if_splits)
qed

theorem new_client_other_conns_witness:
  "\<exists>r c w'. mobilesync_new_client (demo_codec 100 100) (Some \<lparr>dev_handle = 1\<rparr>) 5 (Some None)
       ((demo_world (fresh_conn (frame [1] @ frame [2]) (\<lambda>_. RdChunk 8) (\<lambda>_. 0)))
          \<lparr>w_conns := [3 \<mapsto> fresh_conn [9] (\<lambda>_. RdChunk 1) (\<lambda>_. 0)], w_next_sfd := 4\<rparr>) = Returns (r, c, w') \<and>
     w_conns w' 3 = Some (fresh_conn [9] (\<lambda>_. RdChunk 1) (\<lambda>_. 0))"
proof -
  have l: "w_listen ((demo_world (fresh_conn (frame [1] @ frame [2]) (\<lambda>_. RdChunk 8) (\<lambda>_. 0)))
          \<lparr>w_conns := [3 \<mapsto> fresh_conn [9] (\<lambda>_. RdChunk 1) (\<lambda>_. 0)], w_next_sfd := 4\<rparr>) (dev_handle \<lparr>dev_handle = 1\<rparr>) 5
      = Some (fresh_conn (frame [1] @ frame [2]) (\<lambda>_. RdChunk 8) (\<lambda>_. 0))"
    by (simp add: demo_world_def)
  obtain r c w' where run: "mobilesync_new_client (demo_codec 100 100) (Some \<lparr>dev_handle = 1\<rparr>) 5 (Some None)
       ((demo_world (fresh_conn (frame [1] @ frame [2]) (\<lambda>_. RdChunk 8) (\<lambda>_. 0)))
          \<lparr>w_conns := [3 \<mapsto> fresh_conn [9] (\<lambda>_. RdChunk 1) (\<lambda>_. 0)], w_next_sfd := 4\<rparr>) = Returns (r, c, w')"
    using new_client_success_effect [OF l, where cd = "demo_codec 100 100"
        and vb = "[1]" and rb = "[2]" and rest = "[]" and vmsg = "demo_version_msg 100 100"]
    by (auto simp: demo_defs)
  have "w_conns w' 3 = Some (fresh_conn [9] (\<lambda>_. RdChunk 1) (\<lambda>_. 0))"
    using new_client_other_conns [OF run, of 3] by simp
  with run show ?thesis by blast
qed

end
