(* ===== verification/Protocol.thy ===== *)
theory Protocol
  imports Plist
begin

text \<open>
  The handshake as the spec describes it (section 4.2): a linear state machine from
  \<open>Connecting\<close> through \<open>AwaitingVersion\<close>, \<open>VersionCheck\<close>, \<open>SendingAck\<close> and
  \<open>AwaitingReady\<close> to one of the terminal states \<open>Ready\<close> or \<open>Failed\<close>, the latter
  with the error kind of section 7. The behaviour of the peer and of the transport is a
  record of observations: whether the transport opens, what the first read yields (a
  read failure, a message of the wrong shape, or the two version numbers), whether the
  acknowledgement is written, and what the second read yields. This is the abstract
  specification the code's handshake is compared with in \<open>Spec2Isabelle\<close>; it is
  independent of the code.
\<close>

datatype hs_error = ConnectionError | TransportError | ProtocolError

datatype hs_state =
    Connecting | AwaitingVersion | VersionCheck u64 u64 | SendingAck | AwaitingReady
  | Ready | Failed hs_error

record hs_peer =
  pr_open :: bool
  pr_version :: "(u64 \<times> u64) option option"
  pr_ack :: bool
  pr_ready :: "bool option"

text \<open>The negotiated version of the spec, \<open>major = 100, minor = 100\<close>.\<close>

definition spec_version :: "u64 \<times> u64" where "spec_version = (100, 100)"

text \<open>
  The version message as the spec's \<open>AwaitingVersion\<close> state expects it: an array whose
  first element is the tag string, followed by exactly two unsigned integers.
\<close>

definition spec_version_msg :: "plist \<Rightarrow> (u64 \<times> u64) option" where
  "spec_version_msg m =
     (case m of
        PArray [PString tag, PUInt major, PUInt minor] \<Rightarrow>
          if tag = ''DLMessageVersionExchange'' then Some (major, minor) else None
      | _ \<Rightarrow> None)"

inductive hs_step :: "hs_peer \<Rightarrow> hs_state \<Rightarrow> hs_state \<Rightarrow> bool" for p where
  connect_ok: "pr_open p \<Longrightarrow> hs_step p Connecting AwaitingVersion"
| connect_fail: "\<not> pr_open p \<Longrightarrow> hs_step p Connecting (Failed ConnectionError)"
| version_read_fail: "pr_version p = None \<Longrightarrow> hs_step p AwaitingVersion (Failed TransportError)"
| version_bad_shape: "pr_version p = Some None \<Longrightarrow> hs_step p AwaitingVersion (Failed ProtocolError)"
| version_shape_ok: "pr_version p = Some (Some (major, minor)) \<Longrightarrow> hs_step p AwaitingVersion (VersionCheck major minor)"
| version_match: "(major, minor) = spec_version \<Longrightarrow> hs_step p (VersionCheck major minor) SendingAck"
| version_mismatch: "(major, minor) \<noteq> spec_version \<Longrightarrow> hs_step p (VersionCheck major minor) (Failed ProtocolError)"
| ack_sent: "pr_ack p \<Longrightarrow> hs_step p SendingAck AwaitingReady"
| ack_fail: "\<not> pr_ack p \<Longrightarrow> hs_step p SendingAck (Failed TransportError)"
| ready_read_fail: "pr_ready p = None \<Longrightarrow> hs_step p AwaitingReady (Failed TransportError)"
| ready_absent: "pr_ready p = Some False \<Longrightarrow> hs_step p AwaitingReady (Failed ProtocolError)"
| ready_present: "pr_ready p = Some True \<Longrightarrow> hs_step p AwaitingReady Ready"

inductive_cases hs_step_ConnectingE: "hs_step p Connecting t"
inductive_cases hs_step_AwaitingVersionE: "hs_step p AwaitingVersion t"
inductive_cases hs_step_VersionCheckE: "hs_step p (VersionCheck major minor) t"
inductive_cases hs_step_SendingAckE: "hs_step p SendingAck t"
inductive_cases hs_step_AwaitingReadyE: "hs_step p AwaitingReady t"
inductive_cases hs_step_ReadyE [elim!]: "hs_step p Ready t"
inductive_cases hs_step_FailedE [elim!]: "hs_step p (Failed e) t"

lemmas hs_step_elims =
  hs_step_ConnectingE hs_step_AwaitingVersionE hs_step_VersionCheckE hs_step_SendingAckE hs_step_AwaitingReadyE

text \<open>The machine as a function: the successor of a state, \<open>None\<close> for a terminal one.\<close>

fun hs_next :: "hs_peer \<Rightarrow> hs_state \<Rightarrow> hs_state option" where
  "hs_next p Connecting = Some (if pr_open p then AwaitingVersion else Failed ConnectionError)"
| "hs_next p AwaitingVersion =
     Some (case pr_version p of
             None \<Rightarrow> Failed TransportError
           | Some None \<Rightarrow> Failed ProtocolError
           | Some (Some (major, minor)) \<Rightarrow> VersionCheck major minor)"
| "hs_next p (VersionCheck major minor) =
     Some (if (major, minor) = spec_version then SendingAck else Failed ProtocolError)"
| "hs_next p SendingAck = Some (if pr_ack p then AwaitingReady else Failed TransportError)"
| "hs_next p AwaitingReady =
     Some (case pr_ready p of
             None \<Rightarrow> Failed TransportError
           | Some False \<Rightarrow> Failed ProtocolError
           | Some True \<Rightarrow> Ready)"
| "hs_next p Ready = None"
| "hs_next p (Failed e) = None"

text \<open>Running the machine for at most \<open>n\<close> steps.\<close>

fun hs_run :: "hs_peer \<Rightarrow> nat \<Rightarrow> hs_state \<Rightarrow> hs_state" where
  "hs_run p 0 s = s"
| "hs_run p (Suc n) s = (case hs_next p s of None \<Rightarrow> s | Some t \<Rightarrow> hs_run p n t)"

text \<open>
  What the peer must do for the handshake to end in \<open>Ready\<close>, read off the
  states the machine passes through: \<open>hs_knows p s\<close> is what reaching \<open>s\<close> proves
  about the peer.
\<close>

fun hs_knows :: "hs_peer \<Rightarrow> hs_state \<Rightarrow> bool" where
  "hs_knows p Connecting = True"
| "hs_knows p AwaitingVersion = pr_open p"
| "hs_knows p (VersionCheck major minor) = (pr_open p \<and> pr_version p = Some (Some (major, minor)))"
| "hs_knows p SendingAck = (pr_open p \<and> pr_version p = Some (Some spec_version))"
| "hs_knows p AwaitingReady = (pr_open p \<and> pr_version p = Some (Some spec_version) \<and> pr_ack p)"
| "hs_knows p Ready = (pr_open p \<and> pr_version p = Some (Some spec_version) \<and> pr_ack p \<and> pr_ready p = Some True)"
| "hs_knows p (Failed e) = True"

text \<open>The terminal state the handshake ends in: every run is at most five steps long.\<close>

definition hs_outcome :: "hs_peer \<Rightarrow> hs_state" where
  "hs_outcome p = hs_run p 5 Connecting"

subsection \<open>Lemmas\<close>

lemma hs_step_iff: "hs_step p s t \<longleftrightarrow> hs_next p s = Some t"
proof
  show "hs_step p s t \<Longrightarrow> hs_next p s = Some t"
    by (induction rule: hs_step.induct) auto
  show "hs_next p s = Some t \<Longrightarrow> hs_step p s t"
    by (cases s) (auto intro: hs_step.intros split: if_splits option.splits bool.splits)
qed

lemma hs_step_deterministic: "hs_step p s t \<Longrightarrow> hs_step p s t' \<Longrightarrow> t = t'"
  by (simp add: hs_step_iff)

lemma hs_run_reaches: "(hs_step p)\<^sup>*\<^sup>* s (hs_run p n s)"
proof (induction n arbitrary: s)
  case (Suc n)
  show ?case
  proof (cases "hs_next p s")
    case (Some t)
    then have "hs_step p s t" by (simp add: hs_step_iff)
    with Suc.IH [of t] Some show ?thesis by (simp add: converse_rtranclp_into_rtranclp)
  qed simp
qed simp

lemma hs_knows_step: "hs_step p s t \<Longrightarrow> hs_knows p s \<Longrightarrow> hs_knows p t"
  by (induction rule: hs_step.induct) auto

lemma hs_knows_reachable: "(hs_step p)\<^sup>*\<^sup>* Connecting s \<Longrightarrow> hs_knows p s"
  by (induction rule: rtranclp_induct) (auto dest: hs_knows_step)

lemma hs_terminal_final: "hs_next p s = None \<Longrightarrow> (hs_step p)\<^sup>*\<^sup>* s t \<Longrightarrow> t = s"
  by (erule converse_rtranclpE) (auto simp: hs_step_iff)

lemma hs_star_terminal:
  assumes "(hs_step p)\<^sup>*\<^sup>* s t1" and "(hs_step p)\<^sup>*\<^sup>* s t2" and "hs_next p t2 = None"
  shows "(hs_step p)\<^sup>*\<^sup>* t1 t2"
  using assms
proof (induction arbitrary: t2 rule: converse_rtranclp_induct)
  case (step s u)
  show ?case
  proof (cases "t2 = s")
    case True
    with step.prems(2) step.hyps(1) show ?thesis by (simp add: hs_step_iff)
  next
    case False
    then obtain u' where "hs_step p s u'" "(hs_step p)\<^sup>*\<^sup>* u' t2"
      using step.prems(1) by (metis converse_rtranclpE)
    moreover from this(1) step.hyps(1) have "u' = u" by (simp add: hs_step_iff)
    ultimately show ?thesis using step.IH step.prems(2) by blast
  qed
qed simp

lemma hs_terminal_unique:
  "(hs_step p)\<^sup>*\<^sup>* s t1 \<Longrightarrow> hs_next p t1 = None \<Longrightarrow> (hs_step p)\<^sup>*\<^sup>* s t2 \<Longrightarrow> hs_next p t2 = None \<Longrightarrow> t1 = t2"
  using hs_star_terminal hs_terminal_final by metis

lemma hs_outcome_terminal: "hs_next p (hs_outcome p) = None"
  by (simp add: hs_outcome_def eval_nat_numeral split: option.splits bool.splits)

lemma hs_outcome_iff:
  "(hs_step p)\<^sup>*\<^sup>* Connecting t \<and> hs_next p t = None \<longleftrightarrow> t = hs_outcome p"
  using hs_terminal_unique [of p Connecting t "hs_outcome p"] hs_outcome_terminal [of p]
    hs_run_reaches [of p Connecting 5]
  by (auto simp: hs_outcome_def)

lemma hs_reaches_Ready:
  "(hs_step p)\<^sup>*\<^sup>* Connecting Ready \<longleftrightarrow> hs_knows p Ready"
proof
  assume "hs_knows p Ready"
  then have "pr_open p" "pr_version p = Some (Some (100, 100))" "pr_ack p" "pr_ready p = Some True"
    by (simp_all add: spec_version_def)
  then have "hs_step p Connecting AwaitingVersion" "hs_step p AwaitingVersion (VersionCheck 100 100)"
    "hs_step p (VersionCheck 100 100) SendingAck" "hs_step p SendingAck AwaitingReady"
    "hs_step p AwaitingReady Ready"
    by (auto intro: hs_step.intros simp: spec_version_def)
  then show "(hs_step p)\<^sup>*\<^sup>* Connecting Ready"
    by (meson converse_rtranclp_into_rtranclp rtranclp.rtrancl_refl)
qed (rule hs_knows_reachable)

lemma hs_outcome_Ready: "hs_outcome p = Ready \<longleftrightarrow> hs_knows p Ready"
  using hs_outcome_iff [of p Ready] hs_reaches_Ready [of p] by auto

end
