(* ===== verification/Codec.thy ===== *)
theory Codec
  imports Plist
begin

text \<open>
  A concrete binary codec that meets the contract of the spec's section 4.3, so that
  the interface \<open>codec\<close> of \<open>Plist\<close> has an inhabitant on which the round-trip law
  is proved and the channel's theorems can be run end to end. It is a tag-length-free
  encoding: each node is a tag byte followed by its contents, and every sequence
  (the bytes of a string or data node, the digits of an integer, the children of a
  container) is written as elements each preceded by the byte 1 and closed by the
  byte 0, so no length field bounds the size of a message. It is not libplist's
  \<open>bplist00\<close> format, which the repository does not contain; the decoder is total,
  with fuel bounded by the length of its input, and rejects every buffer that is not
  exactly one encoded node.
\<close>

definition byte_of_char :: "char \<Rightarrow> byte" where
  "byte_of_char c = of_nat (of_char c)"

definition char_of_byte :: "byte \<Rightarrow> char" where
  "char_of_byte b = char_of (unat b)"

text \<open>An unsigned integer as its base-256 digits, least significant first.\<close>

fun nat_digits :: "nat \<Rightarrow> byte list" where
  "nat_digits n = (if n < 256 then [of_nat n] else of_nat (n mod 256) # nat_digits (n div 256))"

declare nat_digits.simps [simp del]

definition digits_nat :: "byte list \<Rightarrow> nat" where
  "digits_nat ds = foldr (\<lambda>d acc. unat d + 256 * acc) ds 0"

definition enc_bytes :: "byte list \<Rightarrow> byte list" where
  "enc_bytes d = concat (map (\<lambda>b. [1, b]) d) @ [0]"

fun dec_bytes :: "byte list \<Rightarrow> (byte list \<times> byte list) option" where
  "dec_bytes [] = None"
| "dec_bytes [t] = (if t = 0 then Some ([], []) else None)"
| "dec_bytes (t # b # r) =
     (if t = 0 then Some ([], b # r)
      else if t = 1 then (case dec_bytes r of None \<Rightarrow> None | Some (bs, r') \<Rightarrow> Some (b # bs, r'))
      else None)"

fun plist_enc :: "plist \<Rightarrow> byte list" where
  "plist_enc (PBoolean b) = [0, if b then 1 else 0]"
| "plist_enc (PUInt n) = 1 # enc_bytes (nat_digits (unat n))"
| "plist_enc (PString s) = 2 # enc_bytes (map byte_of_char s)"
| "plist_enc (PKey s) = 3 # enc_bytes (map byte_of_char s)"
| "plist_enc (PData d) = 4 # enc_bytes d"
| "plist_enc (PArray xs) = 5 # concat (map (\<lambda>x. 1 # plist_enc x) xs) @ [0]"
| "plist_enc (PDict xs) = 6 # concat (map (\<lambda>x. 1 # plist_enc x) xs) @ [0]"

abbreviation items_enc :: "plist list \<Rightarrow> byte list" where
  "items_enc xs \<equiv> concat (map (\<lambda>x. 1 # plist_enc x) xs) @ [0]"

text \<open>
  The decoder: \<open>dec_node f bs\<close> reads one node from the front of \<open>bs\<close> and returns it
  with the rest; \<open>dec_items\<close> reads the children of a container. The fuel \<open>f\<close>
  bounds the nesting and the number of children; the length of the input is enough.
\<close>

fun dec_node :: "nat \<Rightarrow> byte list \<Rightarrow> (plist \<times> byte list) option"
and dec_items :: "nat \<Rightarrow> byte list \<Rightarrow> (plist list \<times> byte list) option" where
  "dec_node 0 bs = None"
| "dec_node (Suc f) bs =
     (case bs of
        [] \<Rightarrow> None
      | t # r \<Rightarrow>
          if t = 0 then (case r of [] \<Rightarrow> None | b # r' \<Rightarrow> Some (PBoolean (b \<noteq> 0), r'))
          else if t = 1 then map_option (\<lambda>(ds, r'). (PUInt (of_nat (digits_nat ds)), r')) (dec_bytes r)
          else if t = 2 then map_option (\<lambda>(cs, r'). (PString (map char_of_byte cs), r')) (dec_bytes r)
          else if t = 3 then map_option (\<lambda>(cs, r'). (PKey (map char_of_byte cs), r')) (dec_bytes r)
          else if t = 4 then map_option (\<lambda>(d, r'). (PData d, r')) (dec_bytes r)
          else if t = 5 then map_option (\<lambda>(xs, r'). (PArray xs, r')) (dec_items f r)
          else if t = 6 then map_option (\<lambda>(xs, r'). (PDict xs, r')) (dec_items f r)
          else None)"
| "dec_items 0 bs = None"
| "dec_items (Suc f) bs =
     (case bs of
        [] \<Rightarrow> None
      | t # r \<Rightarrow>
          if t = 0 then Some ([], r)
          else if t = 1 then
            (case dec_node f r of
               None \<Rightarrow> None
             | Some (x, r') \<Rightarrow>
                 (case dec_items f r' of None \<Rightarrow> None | Some (xs, r'') \<Rightarrow> Some (x # xs, r'')))
          else None)"

definition tlv_from_bin :: "byte list \<Rightarrow> plist option" where
  "tlv_from_bin bs = (case dec_node (length bs) bs of Some (m, []) \<Rightarrow> Some m | _ \<Rightarrow> None)"

definition tlv_codec :: codec where
  "tlv_codec = \<lparr>to_bin = plist_enc, from_bin = tlv_from_bin\<rparr>"

subsection \<open>Round trip\<close>

lemma char_of_byte_of_char [simp]: "char_of_byte (byte_of_char c) = c"
  by (simp add: char_of_byte_def byte_of_char_def unat_of_nat)

lemma map_char_of_byte [simp]: "map (char_of_byte \<circ> byte_of_char) s = s"
  by (induction s) simp_all

lemma digits_nat_nat_digits [simp]: "digits_nat (nat_digits n) = n"
proof (induction n rule: nat_digits.induct)
  case (1 n)
  then show ?case
    by (cases "n < 256") (simp_all add: nat_digits.simps digits_nat_def unat_of_nat)
qed

lemma dec_bytes_enc_bytes [simp]: "dec_bytes (enc_bytes d @ r) = Some (d, r)"
proof (induction d)
  case Nil
  then show ?case by (cases r) (simp_all add: enc_bytes_def)
next
  case (Cons b d)
  then show ?case by (simp add: enc_bytes_def)
qed

lemma dec_items_enc:
  assumes "\<forall>x\<in>set xs. \<forall>f r. length (plist_enc x) \<le> f \<longrightarrow> dec_node f (plist_enc x @ r) = Some (x, r)"
    and "length (items_enc xs) \<le> f"
  shows "dec_items f (items_enc xs @ r) = Some (xs, r)"
  using assms
proof (induction xs arbitrary: f)
  case Nil
  then show ?case by (cases f) simp_all
next
  case (Cons x xs)
  then obtain f' where f: "f = Suc f'" by (cases f) auto
  with Cons.prems have "dec_node f' (plist_enc x @ items_enc xs @ r) = Some (x, items_enc xs @ r)"
    by auto
  moreover have "dec_items f' (items_enc xs @ r) = Some (xs, r)"
    using Cons f by simp
  ultimately show ?case by (simp add: f)
qed

lemma plist_enc_Cons: "\<exists>t bs. plist_enc x = t # bs"
  by (cases x) auto

lemma dec_node_enc: "length (plist_enc x) \<le> f \<Longrightarrow> dec_node f (plist_enc x @ r) = Some (x, r)"
proof (induction x arbitrary: f r)
  case (PArray xs)
  then obtain f' where "f = Suc f'" by (cases f) auto
  with PArray show ?case using dec_items_enc [of xs f' r] by auto
next
  case (PDict xs)
  then obtain f' where "f = Suc f'" by (cases f) auto
  with PDict show ?case using dec_items_enc [of xs f' r] by auto
qed (auto dest!: Suc_le_D)

lemma tlv_codec_roundtrip: "codec_roundtrip tlv_codec"
  using dec_node_enc [of _ _ "[]"] by (simp add: codec_roundtrip_def tlv_codec_def tlv_from_bin_def)

end
