(* ===== verification/Spec2Isabelle.thy ===== *)
theory Spec2Isabelle
  imports Resources Protocol Codec
begin

text \<open>
  \<^bold>\<open>A verification model of the MobileSync client\<close> (\<open>src/src/MobileSync.c\<close>).

  \<^bold>\<open>The program.\<close> The file implements the host side of the MobileSync service
  of libiphone: a client opens a usbmuxd connection to a port of the device, agrees on
  the protocol version, then exchanges binary-plist messages, each framed by a 4-byte
  big-endian length. Three parts interact:
  \<^item> the Framed Channel, \<open>mobilesync_recv\<close> and \<open>mobilesync_send\<close>: length-prefixed
    frames over the transport, a receive loop that accumulates short reads;
  \<^item> the Handshake and Session Lifecycle, \<open>mobilesync_new_client\<close>,
    \<open>mobilesync_disconnect\<close>, \<open>mobilesync_free_client\<close>: version exchange through
    the channel, the disconnect message and the closing of the descriptor;
  \<^item> the external collaborators the code only calls: usbmuxd (connect, recv, send,
    disconnect), libplist (the node tree, find/sibling/type accessors, the binary and
    XML codecs) and the debug log.

  \<^bold>\<open>The theories.\<close>
  \<^item> \<open>Prelude\<close>: machine types (\<open>byte\<close>, \<open>u32\<close>, \<open>u64\<close> words), the outcome of a
    C call (\<open>Returns\<close>, \<open>Diverges\<close> for a call that blocks forever, \<open>Undefined\<close> for
    undefined behaviour), the byte order of \<open>htonl\<close>/\<open>ntohl\<close> as the four bytes in
    memory (\<open>be32_bytes\<close>, \<open>be32_word\<close>) and shared word and list lemmas.
  \<^item> \<open>Plist\<close>: the plist node tree and the libplist calls of the handshake; a
    \<open>plist_t\<close> pointing into a tree is a cursor, the node and its following siblings.
    The binary codec is an interface, the record \<open>codec\<close>, with its round-trip law
    \<open>codec_roundtrip\<close>: the channel's theorems hold for any codec.
  \<^item> \<open>Transport\<close>: the world record (usbmuxd connections by descriptor, the
    heap blocks the module owns as a multiset, the client structures, the log) and the
    usbmuxd calls. A connection's reads follow a schedule that fixes the size of each
    read or its failure, so short reads, zero-byte reads and errors are all states the
    theorems quantify over.
  \<^item> \<open>Channel\<close>: \<open>recv_prefix\<close> (lines 140--143), \<open>recv_loop\<close> (148--151, a
    \<open>partial_function (option)\<close>), \<open>mobilesync_recv\<close> (134--168),
    \<open>send_query\<close> and \<open>mobilesync_send\<close> (180--208).
  \<^item> \<open>Handshake\<close>: \<open>alloc_client\<close>, \<open>version_fields\<close>, \<open>handshake_ready\<close>,
    \<open>new_client_finish\<close>, \<open>mobilesync_new_client\<close> (29--102),
    \<open>mobilesync_disconnect\<close> (104--116), \<open>mobilesync_free_client\<close> (118--125).
  \<^item> \<open>Session\<close>: the session invariant over all worlds: no channel or handshake
    operation closes a connection or removes a client structure (\<open>conns_kept\<close>), so a
    client handed out by \<open>mobilesync_new_client\<close> always names an open connection.
    Several clients on one world: a step of the API for one client (\<open>client_op\<close>,
    \<open>run_op\<close>), schedules of steps of any clients (\<open>run_ops\<close>), and the fact that
    a step touches no other descriptor (\<open>conns_only\<close>). The heap balance of a
    whole session.
  \<^item> \<open>Wellformed\<close>: the well-formedness of a world (\<open>wf_world\<close>: every client
    structure names an existing connection, no two share a descriptor, descriptors and
    addresses in use lie below the next ones), calls that change connections only in
    place (\<open>calls_stable\<close>), and the application as an \<open>inductive\<close> step relation
    \<open>api_step\<close> (a client creation or one call for one client).
  \<^item> \<open>Resources\<close>: the scratch heap blocks (receive buffer, log XML text, frame
    buffer; \<open>scratch_blocks\<close>) that every call frees on every path, so that no run of
    \<open>api_step\<close> accumulates them; the release of the connection on every reported
    failure of \<open>mobilesync_new_client\<close>, and the locality of a client creation (only
    its own descriptor changes); the accounting of client structures over every run
    (\<open>call_blocks\<close>: the blocks a call neither hands over nor leaves behind).
  \<^item> \<open>Protocol\<close>: the spec's handshake (section 4.2) as an \<open>inductive\<close> step
    relation \<open>hs_step\<close> over the states \<open>Connecting\<close> \<dots> \<open>Ready\<close>/\<open>Failed\<close>,
    driven by a record of the peer's observable behaviour; its executable form
    \<open>hs_next\<close>/\<open>hs_run\<close>, determinism, the five-step bound \<open>hs_outcome\<close>, and the
    characterisation of \<open>Ready\<close> by rule induction (\<open>hs_knows\<close>).
  \<^item> \<open>Codec\<close>: a concrete self-delimiting binary codec (\<open>tlv_codec\<close>, not libplist's
    format) with a total decoder whose fuel is the input length, and the proof of the
    round-trip law for it; it instantiates the codec interface in the end-to-end theorems.
  \<^item> this theory: the abstraction of a device scenario into the spec machine's
    observations (\<open>scenario_peer\<close>), the refinement theorem, the send/receive round
    trip, and application sessions of several messages (\<open>send_all\<close>, \<open>recv_n\<close>).

  \<^bold>\<open>What is proved.\<close>
  \<^item> Framed Channel (\<open>Channel\<close>): the receive loop keeps its buffer length equal
    to its \<open>uint32_t\<close> counter and below the announced length (no wrap). It returns
    when every read makes progress and the device has sent the bytes. It blocks forever
    (the model's \<open>None\<close>) when the device stops short, since the code has no timeout.
    A frame whose prefix arrives in one read is reassembled from payload reads of any
    size, and the bytes after it are left unread. A prefix split across reads is
    misread: a first read of \<open>j < 4\<close> bytes yields the length with its low
    \<open>8 (4 - j)\<close> bits cleared. An empty frame is accepted after the single read of its prefix. A
    transport handing over \<open>k \<ge> 4\<close> bytes per read delivers \<open>N\<close> payload bytes in
    exactly \<open>1 + \<lceil>N / k\<rceil>\<close> reads. A failed read frees the buffer; one in the middle
    of a payload leaves the bytes already read consumed. Whatever the transport does,
    a receive never consumes bytes past its own frame, and successful reads of zero
    bytes are retried without loss. A decode failure is reported as success (the
    reassembly theorem holds for every codec, a rejecting one included).
    A send writes exactly one frame, the big-endian length and the encoding. Its
    32-bit size computation makes \<open>malloc(length + 4)\<close> too small for encodings of
    \<open>2^32 - 4\<close> bytes or more; the model returns \<open>Undefined\<close> there. It leaks the
    encoding buffer.
  \<^item> Handshake (\<open>Handshake\<close>): success on the well-behaved device; on a wrong
    version or a missing tag the status is success without a client, and the session
    is neither closed nor freed, and the same holds for a ready message that does not
    decode or lacks its tag; a failed read, of the version message or of the
    ready message, releases the session; a failed
    connect is an unknown error; release sends one disconnect frame and then closes,
    a second release returns \<open>EBADF\<close>, and the client structure is never freed;
    NULL arguments are rejected without effect.
  \<^item> Across components (here and in \<open>Session\<close>):
    \<^item> on every scenario where the device sends two frames and the
      acknowledgement is written, the code stores a client exactly when the spec's
      machine ends in \<open>Ready\<close>, and its status is success in every case;
    \<^item> a failed acknowledgement write, which the spec treats as \<open>Failed\<close>, still
      gives a client;
    \<^item> a message sent is received intact, and a list of messages is received in
      order;
    \<^item> every client handed out names an open connection;
    \<^item> the version check accepts every message of the spec's shape with the same
      values, and also messages the spec rejects (the tag not first, extra elements);
    \<^item> a whole session (create, release) leaks the client structure and one
      encoding buffer per send;
    \<^item> in any schedule of several clients, the steps of one client leave the
      connections of the others unchanged;
    \<^item> over any sequence of API calls no client structure is freed or allocated
      twice: the heap holds exactly one client block per structure created
      (\<open>Resources\<close>);
    \<^item> the shift-or \<open>ntohl\<close> and the memory bytes of \<open>htonl\<close> agree with the
      positional base-256 value (equivalence, \<open>Channel\<close>);
    \<^item> release always returns and leaves the descriptor closed (\<open>Handshake\<close>).
    \<^item> every API run frees all scratch blocks; every reported failure of
      \<open>mobilesync_new_client\<close> closes its connection and leaves the slot empty; a
      new client changes no other connection (\<open>Resources\<close>).
    \<^item> a failed write loses only its own frame: later sends still reach the wire in
      order, and the log records every message sent or not.

  \<^bold>\<open>Bounds and fuel.\<close> Read sizes are fixed by the connection's read schedule.
  The theorems that need the prefix in one read assume reads of at least four bytes.
  Lengths are assumed below \<open>2^32\<close> where they pass through \<open>uint32_t\<close>, and below
  \<open>2^32 - 4\<close> for the send. The receive loop has no fuel: it is a
  \<open>partial_function (option)\<close>, and its termination is proved from the progress of
  the reads by induction on the bytes still missing. The spec machine needs at most five
  steps. The codec's decoder uses the input length as fuel, which is enough because
  every step consumes a byte.

  \<^bold>\<open>Plan.\<close> Every line of \<open>MobileSync.c\<close> that is code is now mapped to a
  definition. What remains is depth rather than breadth: freeing a block that was
  never allocated is not modelled as undefined behaviour (\<open>heap_free\<close> of an
  absent block does nothing); the model's frees all match an allocation of the same
  call, which the scratch-block invariant of \<open>Resources\<close> makes precise.

  \<^bold>\<open>Not modelled.\<close> The XML text of the log (only which message is logged), the
  contents of the binary plist format (the codec is an interface), allocation failure
  of \<open>malloc\<close>, and concurrency (the spec declares the client single-threaded).
  Device discovery is outside the file (the device handle is an input), and the log
  sink is an external call whose text is not modelled. The transport and libplist are
  external: they are modelled from their contracts, which is why their components are
  partly modelled.
\<close>

subsection \<open>Sessions of several messages\<close>

text \<open>
  An application's use of the channel: \<open>send_all\<close> sends a list of messages in order
  and stops at the first failed send; \<open>recv_n\<close> receives \<open>n\<close> messages in order and
  stops at the first failed receive, returning the messages received so far.
\<close>

fun send_all :: "codec \<Rightarrow> client_ptr \<Rightarrow> plist list \<Rightarrow> world \<Rightarrow> (iphone_error_t \<times> world) outcome" where
  "send_all cd a [] w = Returns (IPHONE_E_SUCCESS, w)"
| "send_all cd a (m # ms) w =
     outcome_bind (mobilesync_send cd (Some a) (Some m) w)
       (\<lambda>(ret, w1). if ret = IPHONE_E_SUCCESS then send_all cd a ms w1 else Returns (ret, w1))"

fun recv_n :: "codec \<Rightarrow> client_ptr \<Rightarrow> nat \<Rightarrow> world \<Rightarrow> (iphone_error_t \<times> plist option list \<times> world) outcome" where
  "recv_n cd a 0 w = Returns (IPHONE_E_SUCCESS, [], w)"
| "recv_n cd a (Suc n) w =
     outcome_bind (mobilesync_recv cd (Some a) (Some None) w)
       (\<lambda>(ret, slot, w1). if ret = IPHONE_E_SUCCESS
          then outcome_bind (recv_n cd a n w1) (\<lambda>(ret', ps, w2). Returns (ret', slot_value slot # ps, w2))
          else Returns (ret, [], w1))"

subsection \<open>The code's handshake against the spec's state machine\<close>

text \<open>
  The abstraction of a device scenario into the observations of the spec's machine:
  the transport opens, the first frame's decoding gives the version fields (or the
  wrong shape), the acknowledgement write succeeds when the transport's first write
  status is 0, and the second frame's decoding holds the ready tag or not.
\<close>

definition scenario_peer :: "codec \<Rightarrow> usb_conn \<Rightarrow> byte list \<Rightarrow> byte list \<Rightarrow> hs_peer" where
  "scenario_peer cd dc vb rb =
     \<lparr>pr_open = True,
      pr_version = Some (version_fields (from_bin cd vb)),
      pr_ack = (c_wsched dc (c_writes dc) = 0),
      pr_ready = Some (plist_find_node_by_string (from_bin cd rb) ''DLMessageDeviceReady'' \<noteq> [])\<rparr>"

lemma msync_version_spec: "(MSYNC_VERSION_INT1, MSYNC_VERSION_INT2) = spec_version"
  by (simp add: MSYNC_VERSION_INT1_def MSYNC_VERSION_INT2_def spec_version_def)

lemma scenario_peer_Ready:
  "hs_outcome (scenario_peer cd dc vb rb) = Ready \<longleftrightarrow>
     version_fields (from_bin cd vb) = Some (MSYNC_VERSION_INT1, MSYNC_VERSION_INT2) \<and>
     plist_find_node_by_string (from_bin cd rb) ''DLMessageDeviceReady'' \<noteq> [] \<and>
     c_wsched dc (c_writes dc) = 0"
  by (auto simp: hs_outcome_Ready scenario_peer_def msync_version_spec)

text \<open>
  C19. On the success path the code refines the spec's handshake: for a device that
  sends two frames over a transport that hands over at least four bytes per read and
  accepts the acknowledgement, \<open>mobilesync_new_client\<close> stores a client exactly
  when the spec's state machine, run on the same observations, ends in \<open>Ready\<close>.
  Its status is success in every case, including those where the machine ends in
  \<open>Failed\<close>.
\<close>

theorem new_client_refines_handshake:
  assumes "w_listen w (dev_handle dev) port = Some dc" and "port \<noteq> 0" and "0 \<le> w_next_sfd w"
    and "c_inbox dc = frame vb @ frame rb @ rest"
    and "length vb < 2 ^ 32" and "length rb < 2 ^ 32"
    and "\<forall>i\<ge>c_reads dc. \<exists>k\<ge>4. c_rsched dc i = RdChunk k"
    and "length (to_bin cd (string_pair ''DLMessageVersionExchange'' ''DLVersionsOk'')) < 2 ^ 32 - 4"
    and "c_wsched dc (c_writes dc) = 0"
  shows "\<exists>w'. mobilesync_new_client cd (Some dev) port (Some None) w =
            Returns (IPHONE_E_SUCCESS,
              if hs_outcome (scenario_peer cd dc vb rb) = Ready then Some (Some (w_next_addr w)) else Some None, w')"
  using new_client_two_frames [OF assms(1-8)] assms(9) by (simp add: scenario_peer_Ready)

theorem new_client_refines_handshake_witness:
  "\<exists>w'. mobilesync_new_client (demo_codec 100 100) (Some \<lparr>dev_handle = 1\<rparr>) 5 (Some None)
       (demo_world (fresh_conn (frame [1] @ frame [2]) (\<lambda>_. RdChunk 8) (\<lambda>_. 0))) =
     Returns (IPHONE_E_SUCCESS, Some (Some 0), w')"
  using new_client_refines_handshake [where cd = "demo_codec 100 100" and dev = "\<lparr>dev_handle = 1\<rparr>" and port = 5
      and w = "demo_world (fresh_conn (frame [1] @ frame [2]) (\<lambda>_. RdChunk 8) (\<lambda>_. 0))"
      and dc = "fresh_conn (frame [1] @ frame [2]) (\<lambda>_. RdChunk 8) (\<lambda>_. 0)"
      and vb = "[1]" and rb = "[2]" and rest = "[]"]
  by (simp add: demo_defs scenario_peer_Ready)

text \<open>
  C20. A rejected acknowledgement is ignored: when the versions match and the device
  sends the ready message but the transport fails the \<open>DLVersionsOk\<close> write, the
  spec's machine ends in \<open>Failed TransportError\<close>, yet \<open>mobilesync_new_client\<close>
  returns success with a client (the send's status at line 80 is overwritten by the
  receive that follows).
\<close>

theorem new_client_ignores_ack_failure:
  assumes "w_listen w (dev_handle dev) port = Some dc" and "port \<noteq> 0" and "0 \<le> w_next_sfd w"
    and "c_inbox dc = frame vb @ frame rb @ rest"
    and "length vb < 2 ^ 32" and "length rb < 2 ^ 32"
    and "\<forall>i\<ge>c_reads dc. \<exists>k\<ge>4. c_rsched dc i = RdChunk k"
    and "length (to_bin cd (string_pair ''DLMessageVersionExchange'' ''DLVersionsOk'')) < 2 ^ 32 - 4"
    and "version_fields (from_bin cd vb) = Some (MSYNC_VERSION_INT1, MSYNC_VERSION_INT2)"
    and "plist_find_node_by_string (from_bin cd rb) ''DLMessageDeviceReady'' \<noteq> []"
    and "c_wsched dc (c_writes dc) \<noteq> 0"
  shows "hs_outcome (scenario_peer cd dc vb rb) = Failed TransportError \<and>
         (\<exists>w'. mobilesync_new_client cd (Some dev) port (Some None) w =
            Returns (IPHONE_E_SUCCESS, Some (Some (w_next_addr w)), w'))"
proof
  show "hs_outcome (scenario_peer cd dc vb rb) = Failed TransportError"
    using assms(9-11) by (simp add: hs_outcome_def scenario_peer_def msync_version_spec spec_version_def eval_nat_numeral)
  show "\<exists>w'. mobilesync_new_client cd (Some dev) port (Some None) w =
            Returns (IPHONE_E_SUCCESS, Some (Some (w_next_addr w)), w')"
    using new_client_two_frames [OF assms(1-8)] assms(9,10) by simp
qed

theorem new_client_ignores_ack_failure_witness:
  "hs_outcome (scenario_peer (demo_codec 100 100) (fresh_conn (frame [1] @ frame [2]) (\<lambda>_. RdChunk 8) (\<lambda>_. -1)) [1] [2])
     = Failed TransportError \<and>
   (\<exists>w'. mobilesync_new_client (demo_codec 100 100) (Some \<lparr>dev_handle = 1\<rparr>) 5 (Some None)
       (demo_world (fresh_conn (frame [1] @ frame [2]) (\<lambda>_. RdChunk 8) (\<lambda>_. -1))) =
     Returns (IPHONE_E_SUCCESS, Some (Some 0), w'))"
  using new_client_ignores_ack_failure [where cd = "demo_codec 100 100" and dev = "\<lparr>dev_handle = 1\<rparr>" and port = 5
      and w = "demo_world (fresh_conn (frame [1] @ frame [2]) (\<lambda>_. RdChunk 8) (\<lambda>_. -1))"
      and dc = "fresh_conn (frame [1] @ frame [2]) (\<lambda>_. RdChunk 8) (\<lambda>_. -1)"
      and vb = "[1]" and rb = "[2]" and rest = "[]"]
  by (simp add: demo_defs)

subsection \<open>One message across the channel\<close>

text \<open>
  C21. What one client sends, a peer receives intact: for a codec that satisfies the
  round-trip law, \<open>mobilesync_send\<close> of a message \<open>m\<close> whose encoding fits the
  32-bit length appends exactly one frame to the wire; a peer whose inbox starts with
  that frame, read in pieces of any positive size after a first read of at least four
  bytes, gets \<open>m\<close> back from \<open>mobilesync_recv\<close>, and the bytes after the frame stay
  unread.
\<close>

theorem send_recv_roundtrip:
  assumes "codec_roundtrip cd"
    and "w_clients w a = Some cl" and "open_conn (sfd cl) w = Some c"
    and "length (to_bin cd m) < 2 ^ 32 - 4" and "c_wsched c (c_writes c) = 0"
    and "w_clients v b = Some cl'" and "open_conn (sfd cl') v = Some d"
    and "c_inbox d = frame (to_bin cd m) @ rest"
    and "c_rsched d (c_reads d) = RdChunk n" and "4 \<le> n"
    and "\<forall>i>c_reads d. \<exists>k>0. c_rsched d i = RdChunk k"
  shows "\<exists>w1 c1 v'. mobilesync_send cd (Some a) (Some m) w = Returns (IPHONE_E_SUCCESS, w1) \<and>
           w_conns w1 (sfd cl) = Some c1 \<and> c_sent c1 = c_sent c @ [frame (to_bin cd m)] \<and>
           mobilesync_recv cd (Some b) (Some None) v = Returns (IPHONE_E_SUCCESS, Some (Some m), v') \<and>
           (\<exists>k. open_conn (sfd cl') v' = Some (d\<lparr>c_inbox := rest, c_reads := k\<rparr>))"
proof -
  have dec: "from_bin cd (to_bin cd m) = Some m" using assms(1) by (simp add: codec_roundtrip_def)
  have len: "length (to_bin cd m) < 2 ^ 32" using assms(4) by simp
  obtain v' where recv: "mobilesync_recv cd (Some b) (Some None) v = Returns (IPHONE_E_SUCCESS, Some (Some m), v')"
    and k: "\<exists>k. c_reads d < k \<and> open_conn (sfd cl') v' = Some (d\<lparr>c_inbox := rest, c_reads := k\<rparr>)"
    using mobilesync_recv_frame [OF assms(6,7,8) len assms(9,10,11), of cd] dec by auto
  show ?thesis
    using mobilesync_send_effect [OF assms(2,3,4)] assms(5) recv k
    by (auto simp: set_conn_def IPHONE_E_SUCCESS_def)
qed

theorem send_recv_roundtrip_witness:
  "\<exists>w1 c1 v'. mobilesync_send tlv_codec (Some 0) (Some (PArray [PBoolean True]))
        (empty_world\<lparr>w_conns := [3 \<mapsto> fresh_conn [] (\<lambda>_. RdChunk 1) (\<lambda>_. 0)], w_clients := [0 \<mapsto> \<lparr>sfd = 3\<rparr>]\<rparr>) =
        Returns (IPHONE_E_SUCCESS, w1) \<and>
      w_conns w1 3 = Some c1 \<and> c_sent c1 = [[0, 0, 0, 5, 5, 1, 0, 1, 0]] \<and>
      mobilesync_recv tlv_codec (Some 0) (Some None)
        (empty_world\<lparr>w_conns := [4 \<mapsto> fresh_conn [0, 0, 0, 5, 5, 1, 0, 1, 0] (\<lambda>_. RdChunk 4) (\<lambda>_. 0)],
                     w_clients := [0 \<mapsto> \<lparr>sfd = 4\<rparr>]\<rparr>) =
        Returns (IPHONE_E_SUCCESS, Some (Some (PArray [PBoolean True])), v') \<and>
      (\<exists>k. open_conn 4 v' = Some (fresh_conn [] (\<lambda>_. RdChunk 4) (\<lambda>_. 0)\<lparr>c_reads := k\<rparr>))"
  using send_recv_roundtrip [where cd = tlv_codec and m = "PArray [PBoolean True]" and a = 0 and cl = "\<lparr>sfd = 3\<rparr>"
      and w = "empty_world\<lparr>w_conns := [3 \<mapsto> fresh_conn [] (\<lambda>_. RdChunk 1) (\<lambda>_. 0)], w_clients := [0 \<mapsto> \<lparr>sfd = 3\<rparr>]\<rparr>"
      and c = "fresh_conn [] (\<lambda>_. RdChunk 1) (\<lambda>_. 0)" and b = 0 and cl' = "\<lparr>sfd = 4\<rparr>"
      and v = "empty_world\<lparr>w_conns := [4 \<mapsto> fresh_conn [0, 0, 0, 5, 5, 1, 0, 1, 0] (\<lambda>_. RdChunk 4) (\<lambda>_. 0)],
                     w_clients := [0 \<mapsto> \<lparr>sfd = 4\<rparr>]\<rparr>"
      and d = "fresh_conn [0, 0, 0, 5, 5, 1, 0, 1, 0] (\<lambda>_. RdChunk 4) (\<lambda>_. 0)" and rest = "[]" and n = 4]
    tlv_codec_roundtrip
  by (simp add: tlv_codec_def fresh_conn_def open_conn_def frame_def be32_bytes_def)

subsection \<open>Order of messages\<close>

lemma run_sends_effect:
  assumes client: "w_clients w a = Some cl" and conn: "open_conn (sfd cl) w = Some c"
    and small: "\<forall>m\<in>set ms. length (to_bin cd m) < 2 ^ 32 - 4"
  shows "\<exists>w' c'. run_ops cd (map (\<lambda>m. (a, OpSend m)) ms) w =
             Returns (map (c_wsched c) [c_writes c..<c_writes c + length ms], w') \<and>
           open_conn (sfd cl) w' = Some c' \<and> c_writes c' = c_writes c + length ms \<and>
           c_wsched c' = c_wsched c \<and> w_clients w' = w_clients w \<and>
           c_sent c' = c_sent c @ concat (map (\<lambda>(i, m). if c_wsched c i = 0 then [frame (to_bin cd m)] else [])
                                         (zip [c_writes c..<c_writes c + length ms] ms)) \<and>
           w_log w' = w_log w @ map (\<lambda>m. LogPlist ''mobilesync_send'' (Some m)) ms"
  using client conn small
proof (induction ms arbitrary: w c)
  case Nil
  then show ?case by simp
next
  case (Cons m ms)
  define c1 where "c1 = c\<lparr>c_writes := Suc (c_writes c),
      c_sent := c_sent c @ (if c_wsched c (c_writes c) = 0 then [frame (to_bin cd m)] else [])\<rparr>"
  define w1 where "w1 = set_conn (sfd cl) c1 (w\<lparr>w_heap := w_heap w + {#ABinBuf#},
      w_log := w_log w @ [LogPlist ''mobilesync_send'' (Some m)]\<rparr>)"
  have send: "run_op cd a (OpSend m) w = Returns (c_wsched c (c_writes c), w1)"
    using mobilesync_send_effect [OF Cons.prems(1,2), of cd m] Cons.prems(3)
    by (simp add: w1_def c1_def IPHONE_E_SUCCESS_def)
  have cl1: "w_clients w1 a = Some cl" using Cons.prems(1) by (simp add: w1_def set_conn_def)
  have o1: "open_conn (sfd cl) w1 = Some c1"
    using open_conn_SomeD [OF Cons.prems(2)] by (simp add: w1_def c1_def open_conn_def set_conn_def)
  obtain w' c' where IH: "run_ops cd (map (\<lambda>m. (a, OpSend m)) ms) w1 =
             Returns (map (c_wsched c1) [c_writes c1..<c_writes c1 + length ms], w')"
      "open_conn (sfd cl) w' = Some c'" "c_writes c' = c_writes c1 + length ms" "c_wsched c' = c_wsched c1"
      "w_clients w' = w_clients w1"
      "c_sent c' = c_sent c1 @ concat (map (\<lambda>(i, m). if c_wsched c1 i = 0 then [frame (to_bin cd m)] else [])
                                      (zip [c_writes c1..<c_writes c1 + length ms] ms))"
      "w_log w' = w_log w1 @ map (\<lambda>m. LogPlist ''mobilesync_send'' (Some m)) ms"
    using Cons.IH [OF cl1 o1] Cons.prems(3) by auto
  have ups: "[c_writes c..<c_writes c + length (m # ms)] = c_writes c # [Suc (c_writes c)..<Suc (c_writes c) + length ms]"
    using upt_conv_Cons [of "c_writes c" "c_writes c + length (m # ms)"] by simp
  show ?case
    using send IH ups Cons.prems(1) by (simp add: c1_def w1_def set_conn_def)
qed

lemma send_all_effect:
  assumes "w_clients w a = Some cl" and "open_conn (sfd cl) w = Some c"
    and "\<forall>m\<in>set ms. length (to_bin cd m) < 2 ^ 32 - 4"
    and "\<forall>i\<ge>c_writes c. c_wsched c i = 0"
  shows "\<exists>w' c'. send_all cd a ms w = Returns (IPHONE_E_SUCCESS, w') \<and> w_clients w' = w_clients w \<and>
           open_conn (sfd cl) w' = Some c' \<and> c_sent c' = c_sent c @ map (\<lambda>m. frame (to_bin cd m)) ms \<and>
           c_writes c' = c_writes c + length ms \<and> c_wsched c' = c_wsched c"
  using assms
proof (induction ms arbitrary: w c)
  case Nil
  then show ?case by simp
next
  case (Cons m ms)
  define c1 where "c1 = c\<lparr>c_writes := Suc (c_writes c), c_sent := c_sent c @ [frame (to_bin cd m)]\<rparr>"
  define w1 where "w1 = set_conn (sfd cl) c1 (w\<lparr>w_heap := w_heap w + {#ABinBuf#},
                  w_log := w_log w @ [LogPlist ''mobilesync_send'' (Some m)]\<rparr>)"
  have send: "mobilesync_send cd (Some a) (Some m) w = Returns (IPHONE_E_SUCCESS, w1)"
    using mobilesync_send_effect [OF Cons.prems(1,2), of cd m] Cons.prems(3,4)
    by (simp add: w1_def c1_def IPHONE_E_SUCCESS_def)
  have cl1: "w_clients w1 a = Some cl" using Cons.prems(1) by (simp add: w1_def set_conn_def)
  have oc1: "open_conn (sfd cl) w1 = Some c1"
    using open_conn_set_conn_open [OF Cons.prems(2)] by (simp add: w1_def c1_def)
  have sch: "\<forall>i\<ge>c_writes c1. c_wsched c1 i = 0" using Cons.prems(4) by (simp add: c1_def)
  obtain w' c' where IH: "send_all cd a ms w1 = Returns (IPHONE_E_SUCCESS, w')" "w_clients w' = w_clients w1"
    "open_conn (sfd cl) w' = Some c'" "c_sent c' = c_sent c1 @ map (\<lambda>m. frame (to_bin cd m)) ms"
    "c_writes c' = c_writes c1 + length ms" "c_wsched c' = c_wsched c1"
    using Cons.IH [OF cl1 oc1 _ sch] Cons.prems(3) by auto
  show ?case
    using send IH by (intro exI [of _ w'] exI [of _ c']) (simp add: c1_def w1_def set_conn_def)
qed

lemma recv_n_effect:
  assumes "codec_roundtrip cd"
    and "w_clients w a = Some cl" and "open_conn (sfd cl) w = Some c"
    and "c_inbox c = concat (map (\<lambda>m. frame (to_bin cd m)) ms) @ rest"
    and "\<forall>m\<in>set ms. length (to_bin cd m) < 2 ^ 32"
    and "\<forall>i\<ge>c_reads c. \<exists>k\<ge>4. c_rsched c i = RdChunk k"
  shows "\<exists>w' r. recv_n cd a (length ms) w = Returns (IPHONE_E_SUCCESS, map Some ms, w') \<and>
           open_conn (sfd cl) w' = Some (c\<lparr>c_inbox := rest, c_reads := r\<rparr>)"
  using assms(2-6)
proof (induction ms arbitrary: w c)
  case Nil
  then show ?case by (intro exI [of _ w] exI [of _ "c_reads c"]) simp
next
  case (Cons m ms)
  obtain k where k: "c_rsched c (c_reads c) = RdChunk k" "4 \<le> k" using Cons.prems(5) by blast
  have more: "\<forall>i>c_reads c. \<exists>k>0. c_rsched c i = RdChunk k"
    using Cons.prems(5) by (meson less_imp_le_nat order.strict_trans2 zero_less_numeral)
  have dec: "from_bin cd (to_bin cd m) = Some m" using assms(1) by (simp add: codec_roundtrip_def)
  obtain w1 r1 where recv: "mobilesync_recv cd (Some a) (Some None) w = Returns (IPHONE_E_SUCCESS, Some (Some m), w1)"
    and r1: "c_reads c < r1" "open_conn (sfd cl) w1 = Some (c\<lparr>c_inbox := concat (map (\<lambda>m. frame (to_bin cd m)) ms) @ rest, c_reads := r1\<rparr>)"
    and cl1: "w_clients w1 = w_clients w"
    using mobilesync_recv_frame [OF Cons.prems(1,2) _ _ k more, of "to_bin cd m" "concat (map (\<lambda>m. frame (to_bin cd m)) ms) @ rest" cd]
      Cons.prems(3,4) dec by auto
  obtain w' r where IH: "recv_n cd a (length ms) w1 = Returns (IPHONE_E_SUCCESS, map Some ms, w')"
    "open_conn (sfd cl) w' = Some (c\<lparr>c_inbox := concat (map (\<lambda>m. frame (to_bin cd m)) ms) @ rest, c_reads := r1, c_inbox := rest, c_reads := r\<rparr>)"
    using Cons.IH [OF _ r1(2)] Cons.prems(1,4,5) cl1 r1(1) by auto
  show ?case
    using recv IH by (intro exI [of _ w'] exI [of _ r]) (simp add: slot_value_def)
qed
text \<open>
  C23. A session delivers messages in order: for a codec that satisfies the round-trip
  law, sending the list \<open>ms\<close> over a transport that accepts every write appends one
  frame per message, in order; a peer whose inbox holds those frames, read with at
  least four bytes per read, receives exactly \<open>ms\<close>, in the same order, with
  \<open>length ms\<close> calls of \<open>mobilesync_recv\<close>, and the bytes after them stay unread.
\<close>

theorem session_preserves_order:
  assumes "codec_roundtrip cd"
    and "w_clients w a = Some cl" and "open_conn (sfd cl) w = Some c"
    and "\<forall>m\<in>set ms. length (to_bin cd m) < 2 ^ 32 - 4"
    and "\<forall>i\<ge>c_writes c. c_wsched c i = 0"
    and "w_clients v b = Some cl'" and "open_conn (sfd cl') v = Some d"
    and "c_inbox d = concat (map (\<lambda>m. frame (to_bin cd m)) ms) @ rest"
    and "\<forall>i\<ge>c_reads d. \<exists>k\<ge>4. c_rsched d i = RdChunk k"
  shows "\<exists>w' c' v' r. send_all cd a ms w = Returns (IPHONE_E_SUCCESS, w') \<and>
           open_conn (sfd cl) w' = Some c' \<and> c_sent c' = c_sent c @ map (\<lambda>m. frame (to_bin cd m)) ms \<and>
           recv_n cd b (length ms) v = Returns (IPHONE_E_SUCCESS, map Some ms, v') \<and>
           open_conn (sfd cl') v' = Some (d\<lparr>c_inbox := rest, c_reads := r\<rparr>)"
proof -
  have "\<forall>m\<in>set ms. length (to_bin cd m) < 2 ^ 32" using assms(4) by fastforce
  then show ?thesis
    using send_all_effect [OF assms(2-5)] recv_n_effect [OF assms(1,6-8) _ assms(9)] by blast
qed

theorem session_preserves_order_witness:
  "\<exists>w' c' v' r. send_all tlv_codec 0 [PBoolean True, PBoolean False]
        (empty_world\<lparr>w_conns := [3 \<mapsto> fresh_conn [] (\<lambda>_. RdChunk 1) (\<lambda>_. 0)], w_clients := [0 \<mapsto> \<lparr>sfd = 3\<rparr>]\<rparr>) =
        Returns (IPHONE_E_SUCCESS, w') \<and>
      open_conn 3 w' = Some c' \<and> c_sent c' = [[0, 0, 0, 2, 0, 1], [0, 0, 0, 2, 0, 0]] \<and>
      recv_n tlv_codec 0 (length [PBoolean True, PBoolean False])
        (empty_world\<lparr>w_conns := [4 \<mapsto> fresh_conn [0, 0, 0, 2, 0, 1, 0, 0, 0, 2, 0, 0] (\<lambda>_. RdChunk 4) (\<lambda>_. 0)],
                     w_clients := [0 \<mapsto> \<lparr>sfd = 4\<rparr>]\<rparr>) =
        Returns (IPHONE_E_SUCCESS, [Some (PBoolean True), Some (PBoolean False)], v') \<and>
      open_conn 4 v' = Some (fresh_conn [] (\<lambda>_. RdChunk 4) (\<lambda>_. 0)\<lparr>c_reads := r\<rparr>)"
  using tlv_codec_roundtrip session_preserves_order [where cd = tlv_codec and ms = "[PBoolean True, PBoolean False]" and a = 0
      and cl = "\<lparr>sfd = 3\<rparr>"
      and w = "empty_world\<lparr>w_conns := [3 \<mapsto> fresh_conn [] (\<lambda>_. RdChunk 1) (\<lambda>_. 0)], w_clients := [0 \<mapsto> \<lparr>sfd = 3\<rparr>]\<rparr>"
      and c = "fresh_conn [] (\<lambda>_. RdChunk 1) (\<lambda>_. 0)" and b = 0 and cl' = "\<lparr>sfd = 4\<rparr>"
      and v = "empty_world\<lparr>w_conns := [4 \<mapsto> fresh_conn [0, 0, 0, 2, 0, 1, 0, 0, 0, 2, 0, 0] (\<lambda>_. RdChunk 4) (\<lambda>_. 0)],
                     w_clients := [0 \<mapsto> \<lparr>sfd = 4\<rparr>]\<rparr>"
      and d = "fresh_conn [0, 0, 0, 2, 0, 1, 0, 0, 0, 2, 0, 0] (\<lambda>_. RdChunk 4) (\<lambda>_. 0)" and rest = "[]"]
  by (simp del: send_all.simps recv_n.simps add: tlv_codec_def fresh_conn_def open_conn_def
      frame_def be32_bytes_def)

text \<open>
  C39. A failed write loses exactly its own frame: over any sequence of
  \<open>mobilesync_send\<close> calls on one client (\<open>run_ops\<close>), each call returns the
  transport's status for its write, the frames of the successful writes reach the
  wire in call order with the failed ones simply missing, later sends are not
  affected, and the debug log records every message, sent or not, in call order
  (the log call of line 188 precedes the write of line 205).
\<close>

theorem sends_survive_failed_write:
  assumes "w_clients w a = Some cl" and "open_conn (sfd cl) w = Some c"
    and "\<forall>m\<in>set ms. length (to_bin cd m) < 2 ^ 32 - 4"
  shows "\<exists>w' c'. run_ops cd (map (\<lambda>m. (a, OpSend m)) ms) w =
             Returns (map (c_wsched c) [c_writes c..<c_writes c + length ms], w') \<and>
           open_conn (sfd cl) w' = Some c' \<and>
           c_sent c' = c_sent c @ concat (map (\<lambda>(i, m). if c_wsched c i = 0 then [frame (to_bin cd m)] else [])
                                         (zip [c_writes c..<c_writes c + length ms] ms)) \<and>
           w_log w' = w_log w @ map (\<lambda>m. LogPlist ''mobilesync_send'' (Some m)) ms"
  using run_sends_effect [OF assms] by blast

theorem sends_survive_failed_write_witness:
  "\<exists>w' c'. run_ops tlv_codec [(0, OpSend (PBoolean True)), (0, OpSend (PBoolean False)), (0, OpSend (PBoolean True))]
       (empty_world\<lparr>w_conns := [3 \<mapsto> fresh_conn [] (\<lambda>_. RdChunk 1) (\<lambda>i. if i = 1 then -7 else 0)],
                    w_clients := [0 \<mapsto> \<lparr>sfd = 3\<rparr>]\<rparr>) = Returns ([0, -7, 0], w') \<and>
     open_conn 3 w' = Some c' \<and> c_sent c' = [[0, 0, 0, 2, 0, 1], [0, 0, 0, 2, 0, 1]] \<and>
     w_log w' = [LogPlist ''mobilesync_send'' (Some (PBoolean True)), LogPlist ''mobilesync_send'' (Some (PBoolean False)),
                 LogPlist ''mobilesync_send'' (Some (PBoolean True))]"
  using sends_survive_failed_write [where cd = tlv_codec and a = 0 and cl = "\<lparr>sfd = 3\<rparr>"
      and ms = "[PBoolean True, PBoolean False, PBoolean True]"
      and w = "empty_world\<lparr>w_conns := [3 \<mapsto> fresh_conn [] (\<lambda>_. RdChunk 1) (\<lambda>i. if i = 1 then -7 else 0)],
                    w_clients := [0 \<mapsto> \<lparr>sfd = 3\<rparr>]\<rparr>"
      and c = "fresh_conn [] (\<lambda>_. RdChunk 1) (\<lambda>i. if i = 1 then -7 else 0)"]
  by (simp add: tlv_codec_def empty_world_def fresh_conn_def open_conn_def frame_def be32_bytes_def upt_conv_Cons)

subsection \<open>The shape of the version message\<close>

text \<open>
  C24. The code's version check accepts every version message of the spec's shape:
  for an array holding the \<open>DLMessageVersionExchange\<close> tag followed by exactly two
  unsigned integers, \<open>version_fields\<close> (lines 55--68) finds both and returns the
  same pair, so the comparison with 100 and 100 is made on the spec's values.
\<close>

theorem version_check_refines_spec_shape:
  assumes "spec_version_msg m = Some v"
  shows "version_fields (Some m) = Some v"
  using assms
  by (auto simp: spec_version_msg_def version_fields_def plist_cursor_defs split: plist.splits list.splits if_splits)

theorem version_check_refines_spec_shape_witness:
  "version_fields (Some (PArray [PString ''DLMessageVersionExchange'', PUInt 100, PUInt 100])) = Some (100, 100)"
  using version_check_refines_spec_shape [of "PArray [PString ''DLMessageVersionExchange'', PUInt 100, PUInt 100]" "(100, 100)"]
  by (simp add: spec_version_msg_def)

text \<open>
  C25. The code's version check also accepts messages the spec rejects: the tag need
  not be the first element (the search is depth-first over the whole message), and
  elements after the two integers are ignored. A message with anything before the
  tag that does not itself contain the tag string, or with anything after the
  integers, passes the check with the integers that follow the tag.
\<close>

theorem version_check_accepts_other_shapes:
  assumes "find_string ''DLMessageVersionExchange'' pre = []" and "pre \<noteq> [] \<or> post \<noteq> []"
  shows "version_fields (Some (PArray (pre @ PString ''DLMessageVersionExchange'' # PUInt major # PUInt minor # post))) =
           Some (major, minor) \<and>
         spec_version_msg (PArray (pre @ PString ''DLMessageVersionExchange'' # PUInt major # PUInt minor # post)) = None"
proof
  show "version_fields (Some (PArray (pre @ PString ''DLMessageVersionExchange'' # PUInt major # PUInt minor # post))) =
           Some (major, minor)"
    using find_string_append_absent [OF assms(1)] by (simp add: version_fields_def plist_cursor_defs)
  show "spec_version_msg (PArray (pre @ PString ''DLMessageVersionExchange'' # PUInt major # PUInt minor # post)) = None"
  proof -
    have "length xs = 3" if "spec_version_msg (PArray xs) \<noteq> None" for xs
      using that by (auto simp: spec_version_msg_def split: plist.splits list.splits)
    then show ?thesis using assms(2) by fastforce
  qed
qed

theorem version_check_accepts_other_shapes_witness:
  "version_fields (Some (PArray [PString ''DLMessageSomethingElse'', PString ''DLMessageVersionExchange'', PUInt 100, PUInt 100, PBoolean True]))
     = Some (100, 100) \<and>
   spec_version_msg (PArray [PString ''DLMessageSomethingElse'', PString ''DLMessageVersionExchange'', PUInt 100, PUInt 100, PBoolean True])
     = None"
  using version_check_accepts_other_shapes [of "[PString ''DLMessageSomethingElse'']" "[PBoolean True]" 100 100]
  by simp

end
